theory Spec2Isabelle
  imports Main
begin

section \<open>Values and errors\<close>

text \<open>
  The server passes JSON documents around: request bodies, database rows and
  the results of the CRUD services. A JavaScript object is the list of its
  members in key order (keys are distinct); the value \<open>undefined\<close> of a
  missing member is the \<open>None\<close> of a lookup. Numbers are integers here: no
  property below depends on arithmetic.
\<close>

datatype json =
    JNull
  | JBool bool
  | JNum int
  | JStr string
  | JArr "json list"
  | JObj "(string \<times> json) list"

type_synonym members = "(string \<times> json) list"

text \<open>
  What a promise is rejected with: an exception of the JavaScript runtime
  (\<open>TypeError\<close>, \<open>SyntaxError\<close>), a bare string (\<open>reject("...")\<close> or
  \<open>throw "..."\<close>), an \<open>Error\<close> object carrying a message, an object with
  a status code and a message, or an error of the database.
\<close>

datatype error =
    TypeError
  | SyntaxError
  | Rejected string
  | Failure string
  | Status nat string
  | UniqueViolation
  | Uncovered

text \<open>\<open>obj[key]\<close> and \<open>obj[key] = v\<close> on the members of an object.\<close>

definition get :: "members \<Rightarrow> string \<Rightarrow> json option" where
  "get kvs k = map_of kvs k"

fun put :: "string \<Rightarrow> json \<Rightarrow> members \<Rightarrow> members" where
  "put k v [] = [(k, v)]"
| "put k v ((k', v') # kvs) =
     (if k' = k then (k, v) # kvs else (k', v') # put k v kvs)"

text \<open>\<open>oKey.match("^_")\<close>: the key begins with an underscore.\<close>

definition internal :: "string \<Rightarrow> bool" where
  "internal k = (case k of [] \<Rightarrow> False | c # _ \<Rightarrow> c = CHR ''_'')"

text \<open>\<open>typeof v === "object" && v !== null\<close>.\<close>

fun is_object :: "json \<Rightarrow> bool" where
  "is_object (JObj _) = True"
| "is_object (JArr _) = True"
| "is_object _ = False"

text \<open>Decimal digits of a number, as in \<open>"$" + p\<close> or the keys of an array.\<close>

definition digit :: "nat \<Rightarrow> char" where
  "digit d = ''0123456789'' ! d"

fun digits :: "nat \<Rightarrow> nat \<Rightarrow> string" where
  "digits 0 n = []"
| "digits (Suc fuel) n =
     (if n < 10 then [digit n] else digits fuel (n div 10) @ [digit (n mod 10)])"

definition show_nat :: "nat \<Rightarrow> string" where
  "show_nat n = digits (Suc n) n"

section \<open>Tools: sanitize\<close>

text \<open>
  \<open>tools.sanitize(obj)\<close>. A non-array argument is wrapped into a
  one-element array and the first element of the result is returned. The
  outer loop (\<open>while (i < len)\<close>) is \<open>sanitize_ary\<close>; its body for one
  element is \<open>sanitize_item\<close>: a string is kept, anything else is copied
  through JSON and rebuilt from \<open>Object.keys\<close> of the copy by the inner loop
  (\<open>while (n < klen)\<close>), which is \<open>sanitize_keys\<close> for an object and
  \<open>sanitize_idx\<close> for an array (whose keys are its indices). \<open>Object.keys\<close>
  of \<open>null\<close> throws a TypeError, of a number or a boolean it is empty.
  The key conversion \<open>String.prototype.toCamelCase\<close> belongs to the common
  string module and is the parameter \<open>cc\<close>.
\<close>

function sanitize :: "(string \<Rightarrow> string) \<Rightarrow> json \<Rightarrow> error + json"
  and sanitize_ary :: "(string \<Rightarrow> string) \<Rightarrow> json list \<Rightarrow> error + json list"
  and sanitize_item :: "(string \<Rightarrow> string) \<Rightarrow> json \<Rightarrow> error + json"
  and sanitize_keys :: "(string \<Rightarrow> string) \<Rightarrow> members \<Rightarrow> members \<Rightarrow> error + members"
  and sanitize_idx :: "(string \<Rightarrow> string) \<Rightarrow> nat \<Rightarrow> json list \<Rightarrow> members \<Rightarrow> error + members"
where
  "sanitize cc (JArr xs) =
     (case sanitize_ary cc xs of Inl e \<Rightarrow> Inl e | Inr ys \<Rightarrow> Inr (JArr ys))"
| "sanitize cc JNull = sanitize_item cc JNull"
| "sanitize cc (JBool b) = sanitize_item cc (JBool b)"
| "sanitize cc (JNum n) = sanitize_item cc (JNum n)"
| "sanitize cc (JStr s) = sanitize_item cc (JStr s)"
| "sanitize cc (JObj kvs) = sanitize_item cc (JObj kvs)"
| "sanitize_ary cc [] = Inr []"
| "sanitize_ary cc (x # xs) =
     (case sanitize_item cc x of
        Inl e \<Rightarrow> Inl e
      | Inr y \<Rightarrow> (case sanitize_ary cc xs of Inl e \<Rightarrow> Inl e | Inr ys \<Rightarrow> Inr (y # ys)))"
| "sanitize_item cc (JStr s) = Inr (JStr s)"
| "sanitize_item cc JNull = Inl TypeError"
| "sanitize_item cc (JBool b) = Inr (JObj [])"
| "sanitize_item cc (JNum n) = Inr (JObj [])"
| "sanitize_item cc (JObj kvs) =
     (case sanitize_keys cc kvs [] of Inl e \<Rightarrow> Inl e | Inr newObj \<Rightarrow> Inr (JObj newObj))"
| "sanitize_item cc (JArr xs) =
     (case sanitize_idx cc 0 xs [] of Inl e \<Rightarrow> Inl e | Inr newObj \<Rightarrow> Inr (JObj newObj))"
| "sanitize_keys cc [] newObj = Inr newObj"
| "sanitize_keys cc ((oKey, v) # kvs) newObj =
     (if internal oKey then sanitize_keys cc kvs newObj
      else if is_object v then
        (case sanitize cc v of
           Inl e \<Rightarrow> Inl e
         | Inr v' \<Rightarrow> sanitize_keys cc kvs (put (cc oKey) v' newObj))
      else sanitize_keys cc kvs (put (cc oKey) v newObj))"
| "sanitize_idx cc i [] newObj = Inr newObj"
| "sanitize_idx cc i (v # vs) newObj =
     (if internal (show_nat i) then sanitize_idx cc (Suc i) vs newObj
      else if is_object v then
        (case sanitize cc v of
           Inl e \<Rightarrow> Inl e
         | Inr v' \<Rightarrow> sanitize_idx cc (Suc i) vs (put (cc (show_nat i)) v' newObj))
      else sanitize_idx cc (Suc i) vs (put (cc (show_nat i)) v newObj))"
  by pat_completeness auto
termination
  by (relation "measure (\<lambda>x. case x of
        Inl (Inl (cc, v)) \<Rightarrow> 2 * size v + 1
      | Inl (Inr (cc, xs)) \<Rightarrow> 2 * size_list size xs + 1
      | Inr (Inl (cc, v)) \<Rightarrow> 2 * size v
      | Inr (Inr (Inl (cc, kvs, acc))) \<Rightarrow> 2 * size_list (size_prod (\<lambda>x. 0) size) kvs + 1
      | Inr (Inr (Inr (cc, i, vs, acc))) \<Rightarrow> 2 * size_list size vs + 1)")
    auto


text \<open>
  Modelled from the spec: the claim's reading of \<open>sanitize\<close>, where the
  members whose key begins with an underscore are dropped, the remaining keys
  are converted, nested objects and arrays are treated in the same way, an
  array is sanitized element by element and every other value is returned as
  it is. Two keys that convert to the same name become one member, the later
  value winning, as an assignment to an existing member does.
\<close>

definition merge_keys :: "members \<Rightarrow> members \<Rightarrow> members" where
  "merge_keys acc ps = foldl (\<lambda>acc p. put (fst p) (snd p) acc) acc ps"

fun sanitize_spec :: "(string \<Rightarrow> string) \<Rightarrow> json \<Rightarrow> json" where
  "sanitize_spec cc (JObj kvs) =
     JObj (merge_keys [] (map (\<lambda>p. (cc (fst p), sanitize_spec cc (snd p)))
                              (filter (\<lambda>p. \<not> internal (fst p)) kvs)))"
| "sanitize_spec cc (JArr xs) = JArr (map (sanitize_spec cc) xs)"
| "sanitize_spec cc v = v"

text \<open>
  The inputs on which the code and that reading agree: a string, an object,
  or an array whose elements are strings and objects; the same holds for every nested
  object or array under a key that is kept.
\<close>

fun regular :: "json \<Rightarrow> bool" where
  "regular (JStr s) = True"
| "regular (JObj kvs) =
     list_all (\<lambda>p. internal (fst p) \<or> \<not> is_object (snd p) \<or> regular (snd p)) kvs"
| "regular (JArr xs) =
     list_all (\<lambda>x. case x of JStr s \<Rightarrow> True | JObj kvs \<Rightarrow> regular x | _ \<Rightarrow> False) xs"
| "regular v = False"

definition regular_item :: "json \<Rightarrow> bool" where
  "regular_item x = (case x of JStr s \<Rightarrow> True | JObj kvs \<Rightarrow> regular x | _ \<Rightarrow> False)"

section \<open>Strings\<close>

definition upper_char :: "char \<Rightarrow> char" where
  "upper_char c =
     (let n = (of_char c :: nat) in if 97 \<le> n \<and> n \<le> 122 then char_of (n - 32) else c)"

definition lower_char :: "char \<Rightarrow> char" where
  "lower_char c =
     (let n = (of_char c :: nat) in if 65 \<le> n \<and> n \<le> 90 then char_of (n + 32) else c)"

definition is_upper :: "char \<Rightarrow> bool" where
  "is_upper c = (let n = (of_char c :: nat) in 65 \<le> n \<and> n \<le> 90)"

definition toUpperCase :: "string \<Rightarrow> string" where
  "toUpperCase s = map upper_char s"

fun join :: "string \<Rightarrow> string list \<Rightarrow> string" where
  "join sep [] = []"
| "join sep [x] = x"
| "join sep (x # y # ys) = x @ sep @ join sep (y # ys)"

text \<open>
  Modelled from the spec: \<open>String.prototype.toCamelCase\<close>,
  \<open>toSnakeCase\<close> and \<open>toName\<close> of the common string module are not under
  src/. A snake\_case name becomes camelCase (an underscore is dropped and the
  character after it is put in upper case), a camelCase or PascalCase name
  becomes snake\_case (an upper-case letter is put in lower case, after an
  underscore unless it is the first character), and the display name of an
  identifier has its first letter in upper case and a space before every
  other upper-case letter. The services below take these conversions as
  parameters; the three functions here serve the closed examples.
\<close>

fun camel_case :: "string \<Rightarrow> string" where
  "camel_case [] = []"
| "camel_case [c] = [c]"
| "camel_case (c # d # cs) =
     (if c = CHR ''_'' then upper_char d # camel_case cs else c # camel_case (d # cs))"

fun snake_tail :: "string \<Rightarrow> string" where
  "snake_tail [] = []"
| "snake_tail (c # cs) =
     (if is_upper c then CHR ''_'' # lower_char c # snake_tail cs else c # snake_tail cs)"

definition snake_case :: "string \<Rightarrow> string" where
  "snake_case s = (case s of [] \<Rightarrow> [] | c # cs \<Rightarrow> lower_char c # snake_tail cs)"

fun name_tail :: "string \<Rightarrow> string" where
  "name_tail [] = []"
| "name_tail (c # cs) =
     (if is_upper c then CHR '' '' # c # name_tail cs else c # name_tail cs)"

definition display_name :: "string \<Rightarrow> string" where
  "display_name s = (case s of [] \<Rightarrow> [] | c # cs \<Rightarrow> upper_char c # name_tail cs)"


definition dq :: string where
  "dq = [CHR 0x22]"

text \<open>
  \<open>col.lastIndexOf(".")\<close> with the two slices taken around it: the text
  before the last dot and the text after it.
\<close>

definition lastIndexOf_dot :: "string \<Rightarrow> (string \<times> string) option" where
  "lastIndexOf_dot col =
     (if CHR ''.'' \<in> set col
      then Some (rev (tl (dropWhile (\<lambda>c. c \<noteq> CHR ''.'') (rev col))),
                 rev (takeWhile (\<lambda>c. c \<noteq> CHR ''.'') (rev col)))
      else None)"

text \<open>JavaScript truthiness of a value that is present.\<close>

fun truthy :: "json \<Rightarrow> bool" where
  "truthy JNull = False"
| "truthy (JBool b) = b"
| "truthy (JNum n) = (n \<noteq> 0)"
| "truthy (JStr s) = (s \<noteq> [])"
| "truthy (JArr xs) = True"
| "truthy (JObj kvs) = True"

section \<open>The environment and the database\<close>

text \<open>
  What the services use and src/ does not contain is a parameter: the string
  conversions and number padding of the common modules, the functions
  \<open>f.createId\<close>, \<open>f.now\<close> and the named defaults \<open>f[name]()\<close> of the common
  core, the JSON patch library (\<open>jsonpatch.applyPatch\<close>,
  \<open>jsonpatch.compare\<close>; a patch is a list of operations of a type \<open>'p\<close>,
  and \<open>patch_text\<close> is \<open>JSON.stringify\<close> of a patch),
  the authorization service of the feathers module, the user of the database
  client, and what PostgreSQL does with an operator other than equality, with
  an ordering and with the grants of the authorization table. \<open>createId\<close>
  is given the number of ids that have been drawn so far.
\<close>

record 'p env =
  toSnakeCase :: "string \<Rightarrow> string"
  toCamelCase :: "string \<Rightarrow> string"
  toName :: "string \<Rightarrow> string"
  pad :: "nat \<Rightarrow> nat \<Rightarrow> string"
  createId :: "nat \<Rightarrow> string"
  now :: json
  named_default :: "string \<Rightarrow> json option"
  applyPatch :: "json \<Rightarrow> 'p list \<Rightarrow> error + json"
  compare :: "json option \<Rightarrow> json option \<Rightarrow> 'p list"
  patch_text :: "'p list \<Rightarrow> string"
  isAuthorized :: "string \<Rightarrow> string \<Rightarrow> string \<Rightarrow> bool"
  currentUser :: string
  pg_operator :: "string \<Rightarrow> json \<Rightarrow> json \<Rightarrow> bool"
  pg_less :: "json \<Rightarrow> json \<Rightarrow> bool"
  granted :: "string \<Rightarrow> string \<Rightarrow> nat \<Rightarrow> bool"

text \<open>
  A row of the table \<open>object\<close> or of a table that inherits from it: the
  primary key \<open>_pk\<close>, the tables a \<open>SELECT ... FROM\<close> finds the row in (its
  own table and those it inherits from) and the columns by name. The lock is
  a composite with the attributes \<open>username\<close>, \<open>created\<close>, \<open>_nodeid\<close> and
  \<open>_eventkey\<close>, here an object with these members, or null.
\<close>

record row =
  pk :: nat
  tables :: "string list"
  cols :: members

text \<open>
  A feather as \<open>getFeather\<close> resolves it, inherited properties included;
  \<open>ancestors\<close> are the feather itself and the feathers it inherits from
  (what following \<open>inherits\<close> in the catalog gives), whose tables hold the
  rows of the feather.
  The embedding covers the scalar properties (\<open>typeof prop.type\<close> is not
  \<open>"object"\<close>); relations to other feathers, and with them the recursion
  of the services into child records, are outside it.
\<close>

record autonumber =
  a_prefix :: "string option"
  a_suffix :: "string option"
  a_length :: nat
  a_sequence :: string

record property =
  p_type :: string
  p_format :: "string option"
  p_default :: "json option"
  isRequired :: bool
  isNaturalKey :: bool
  isReadOnly :: bool
  p_autonumber :: "autonumber option"
  p_alias :: "string option"
  inheritedFrom :: "string option"

record feather =
  f_name :: string
  ancestors :: "string list"
  isChild :: bool
  properties :: "(string \<times> property) list"

text \<open>
  The state: the rows, the sequence of primary keys, the sequences of the
  autonumbers, the catalog of feathers, the table \<open>$subscription\<close> and the
  number of ids drawn from \<open>f.createId\<close>.
\<close>

record db =
  rows :: "row list"
  pk_seq :: nat
  sequences :: "string \<Rightarrow> nat"
  catalog :: "string \<Rightarrow> feather option"
  subscriptions :: "(string \<times> string \<times> string \<times> string) list"
  ids_drawn :: nat

section \<open>Tools: paths, sorting and keys\<close>

text \<open>
  \<open>tools.resolvePath(col, tokens)\<close> of the tools module that the first
  \<open>getKeys\<close> belongs to: pushes the column names of a dotted path on
  \<open>tokens\<close> and returns the placeholder.
\<close>

function resolvePath :: "(string \<Rightarrow> string) \<Rightarrow> string \<Rightarrow> string list \<Rightarrow> string \<times> string list" where
  "resolvePath sc col tokens =
     (case lastIndexOf_dot col of
        Some (prefix, suffix) \<Rightarrow>
          (case resolvePath sc prefix tokens of
             (ret, tokens') \<Rightarrow> (''('' @ ret @ '').%I'', tokens' @ [sc suffix]))
      | None \<Rightarrow> (''%I'', tokens @ [sc col]))"
  by pat_completeness auto
termination
proof (relation "measure (\<lambda>(sc, col, tokens). length col)")
  show "wf (measure (\<lambda>(sc, col, tokens). length col))" by simp
next
  fix sc :: "string \<Rightarrow> string" and col :: string and tokens :: "string list"
    and x2 :: "string \<times> string" and prefix suffix :: string
  assume a: "lastIndexOf_dot col = Some x2" and b: "(prefix, suffix) = x2"
  define rest where "rest = dropWhile (\<lambda>c. c \<noteq> CHR ''.'') (rev col)"
  have "rest \<noteq> []"
    using a by (auto simp: rest_def lastIndexOf_dot_def split: if_splits)
  then have "length (tl rest) < length rest"
    by (cases rest) auto
  moreover have "length rest \<le> length (rev col)"
    unfolding rest_def by (rule length_dropWhile_le)
  moreover have "prefix = rev (tl rest)"
    using a b by (auto simp: rest_def lastIndexOf_dot_def split: if_splits)
  ultimately have "length prefix < length col"
    by simp
  then show "((sc, prefix, tokens), (sc, col, tokens)) \<in> measure (\<lambda>(sc, col, tokens). length col)"
    by simp
qed

declare resolvePath.simps [simp del]

text \<open>The columns a path stands for, in the order they are pushed.\<close>

definition path_of :: "(string \<Rightarrow> string) \<Rightarrow> string \<Rightarrow> string list" where
  "path_of sc col = snd (resolvePath sc col [])"

record sort_entry =
  s_property :: string
  s_order :: "string option"

text \<open>
  \<open>tools.processSort(sort, tokens)\<close>. The entry for the primary key is
  pushed on the caller's array before anything else, so the array is part of
  the result, also when the loop throws. The loop \<open>while (sort[i])\<close> is
  \<open>sort_loop\<close>; it collects the parts of the clause and, for the
  evaluation of the query, the paths with their directions.
\<close>

fun sort_loop ::
  "(string \<Rightarrow> string) \<Rightarrow> sort_entry list \<Rightarrow> string list \<Rightarrow> string list \<Rightarrow> (string list \<times> string) list
     \<Rightarrow> error + (string list \<times> string list \<times> (string list \<times> string) list)" where
  "sort_loop sc [] tokens parts ord = Inr (parts, tokens, ord)"
| "sort_loop sc (e # es) tokens parts ord =
     (let order = toUpperCase (case s_order e of None \<Rightarrow> ''ASC''
                                | Some s \<Rightarrow> if s = [] then ''ASC'' else s)
      in if order \<noteq> ''ASC'' \<and> order \<noteq> ''DESC''
         then Inl (Rejected (''Unknown operator '' @ dq @ order @ dq))
         else (case resolvePath sc (s_property e) tokens of
                 (part, tokens') \<Rightarrow>
                   sort_loop sc es tokens' (parts @ [part @ '' '' @ order])
                     (ord @ [(path_of sc (s_property e), order)])))"

definition pk_entry :: sort_entry where
  "pk_entry = \<lparr>s_property = ''_pk'', s_order = None\<rparr>"

text \<open>The direction an entry asks for: \<open>(sort[i].order || "ASC").toUpperCase()\<close>.\<close>

definition direction :: "sort_entry \<Rightarrow> string" where
  "direction e =
     toUpperCase (case s_order e of None \<Rightarrow> ''ASC'' | Some s \<Rightarrow> if s = [] then ''ASC'' else s)"

definition processSort ::
  "(string \<Rightarrow> string) \<Rightarrow> sort_entry list \<Rightarrow> string list
     \<Rightarrow> (error + (string \<times> string list \<times> (string list \<times> string) list)) \<times> sort_entry list" where
  "processSort sc sorts tokens =
     (let sort' = sorts @ [pk_entry]
      in (case sort_loop sc sort' tokens [] [] of
            Inl e \<Rightarrow> (Inl e, sort')
          | Inr (parts, tokens', ord) \<Rightarrow>
              (Inr (if parts = [] then [] else '' ORDER BY '' @ join '','' parts, tokens', ord),
               sort')))"


text \<open>
  \<open>tools.buildAuthSql(action, table, tokens)\<close>: the clause that restricts
  a query to the rows the user of the first parameter is granted the action
  on. The table is pushed seven times on \<open>tokens\<close>.
\<close>

definition auth_sql :: "string \<Rightarrow> string" where
  "auth_sql action =
     '' AND _pk IN ('' @
     ''SELECT %I._pk '' @
     ''FROM %I '' @
     ''  JOIN '' @ dq @ ''$feather'' @ dq @ '' '' @
     ''  ON '' @ dq @ ''$feather'' @ dq @ ''.id::regclass::oid=%I.tableoid '' @
     ''WHERE EXISTS ('' @
     ''  SELECT '' @ action @ '' FROM ( '' @
     ''    SELECT '' @ action @
     ''    FROM '' @ dq @ ''$auth'' @ dq @ '', pg_authid'' @
     ''    WHERE pg_has_role($1, pg_authid.oid, 'member')'' @
     ''      AND '' @ dq @ ''$auth'' @ dq @ ''.object_pk '' @
     ''        IN ('' @ dq @ ''$feather'' @ dq @ ''.parent_pk, %I._pk)'' @
     ''      AND '' @ dq @ ''$auth'' @ dq @ ''.role=pg_authid.rolname'' @
     ''      AND '' @ action @ '' IS NOT NULL '' @
     ''    ORDER BY '' @ action @ '' DESC'' @
     ''    LIMIT 1'' @
     ''  ) AS data'' @
     ''  WHERE '' @ action @
     '') '' @
     ''EXCEPT '' @
     ''SELECT %I._pk '' @
     ''FROM %I '' @
     ''WHERE EXISTS ( '' @
     ''  SELECT '' @ action @ '' FROM ('' @
     ''    SELECT '' @ action @
     ''    FROM '' @ dq @ ''$auth'' @ dq @ '', pg_authid'' @
     ''    WHERE pg_has_role($1, pg_authid.oid, 'member')'' @
     ''      AND '' @ dq @ ''$auth'' @ dq @ ''.object_pk=%I._pk'' @
     ''      AND '' @ dq @ ''$auth'' @ dq @ ''.role=pg_authid.rolname'' @
     ''      AND '' @ action @ '' IS NOT NULL '' @
     ''    ORDER BY '' @ action @ '' DESC'' @
     ''    LIMIT 1 '' @
     ''  ) AS data '' @
     ''WHERE NOT '' @ action @ ''))''"

definition buildAuthSql ::
  "(string \<Rightarrow> string) \<Rightarrow> string \<Rightarrow> string \<Rightarrow> string list \<Rightarrow> error + (string \<times> string list)" where
  "buildAuthSql sc action table tokens =
     (if action \<notin> set [''canRead'', ''canUpdate'', ''canDelete'']
      then Inl (Rejected (''Invalid authorization action for object '' @ dq @ action @ dq))
      else Inr (auth_sql (sc action), tokens @ replicate 7 table))"

text \<open>
  Modelled from the spec: \<open>f.operators\<close> of the common core is not under
  src/; the operators of the filter model are
  \<open>=\<close>, \<open>!=\<close>, \<open><\<close>, \<open>>\<close>, \<open><=\<close>, \<open>>=\<close>, \<open><>\<close>, \<open>~\<close>, \<open>~*\<close>, \<open>!~\<close>, \<open>!~*\<close> and \<open>IN\<close>.
\<close>

definition ops :: "string list" where
  "ops = [''='', ''!='', ''<'', ''>'', ''<='', ''>='', ''<>'', ''~'', ''~*'', ''!~'', ''!~*'', ''IN'']"

text \<open>
  The filter of a request. The property of a criterion is a name, a dotted
  path or an array of names; its value may be missing.
\<close>

datatype prop_ref = Prop string | Props "string list"

record criterion =
  c_property :: prop_ref
  c_operator :: "string option"
  c_value :: "json option"

record filter_obj =
  f_criteria :: "criterion list option"
  f_sort :: "sort_entry list option"
  f_offset :: "nat option"
  f_limit :: "nat option"

record keys_request =
  k_name :: string
  k_filter :: "filter_obj option"
  k_showDeleted :: bool

text \<open>
  The query \<open>getKeys\<close> builds: the text with its placeholders, the tokens
  for \<open>%I\<close> and the parameters for \<open>$n\<close> (a parameter \<open>undefined\<close> is
  \<open>None\<close>), and the same query in a form that can be evaluated on the rows:
  the table, whether deleted rows are left out, the user of the
  authorization clause, the conditions and the ordering.
\<close>

datatype cond =
    IsNull "string list"
  | Compare "string list" string "json option"
  | Among "string list" "json list"
  | AnyOf "(string list \<times> string \<times> json option) list"

record query =
  q_sql :: string
  q_tokens :: "string list"
  q_params :: "json option list"
  q_table :: string
  q_live :: bool
  q_user :: "string option"
  q_conds :: "cond list"
  q_order :: "(string list \<times> string) list"
  q_offset :: "nat option"
  q_limit :: "nat option"

record build =
  b_tokens :: "string list"
  b_params :: "json option list"
  b_parts :: "string list"
  b_conds :: "cond list"
  b_p :: nat

text \<open>The loop over an array of properties that are compared to one value.\<close>

fun or_loop ::
  "(string \<Rightarrow> string) \<Rightarrow> string \<Rightarrow> json option \<Rightarrow> string list \<Rightarrow> build \<Rightarrow> string list
     \<Rightarrow> (string list \<times> string \<times> json option) list
     \<Rightarrow> build \<times> string list \<times> (string list \<times> string \<times> json option) list" where
  "or_loop sc op v [] b ors alts = (b, ors, alts)"
| "or_loop sc op v (prp # prps) b ors alts =
     (case resolvePath sc prp (b_tokens b) of
        (ret, tokens') \<Rightarrow>
          or_loop sc op v prps
            (b\<lparr>b_tokens := tokens', b_params := b_params b @ [v], b_p := b_p b + 1\<rparr>)
            (ors @ [ret @ '' '' @ op @ '' $'' @ show_nat (b_p b)])
            (alts @ [(path_of sc prp, op, v)]))"

text \<open>
  The body of \<open>criteria.forEach\<close> in \<open>getKeys\<close>, for one criterion. It
  returns the criterion too, which the last branch rewrites in place when the
  value is an object with an id. \<open>where.value.id\<close> on the value \<open>null\<close>
  throws a TypeError, as does \<open>forEach\<close> on a value that is not an array
  and \<open>toSnakeCase\<close> on a property that is an array.
\<close>

definition compare_part :: "(string \<Rightarrow> string) \<Rightarrow> string \<Rightarrow> string \<Rightarrow> json option \<Rightarrow> build \<Rightarrow> build" where
  "compare_part sc op col v b =
     (case resolvePath sc col (b_tokens b) of
        (ret, tokens') \<Rightarrow>
          b\<lparr>b_tokens := tokens',
            b_params := b_params b @ [v],
            b_parts := b_parts b @ [ret @ '' '' @ op @ '' $'' @ show_nat (b_p b)],
            b_conds := b_conds b @ [Compare (path_of sc col) op v],
            b_p := b_p b + 1\<rparr>)"

definition null_part :: "(string \<Rightarrow> string) \<Rightarrow> string \<Rightarrow> build \<Rightarrow> build" where
  "null_part sc col b =
     (case resolvePath sc col (b_tokens b) of
        (ret, tokens') \<Rightarrow>
          b\<lparr>b_tokens := tokens',
            b_parts := b_parts b @ [ret @ '' IS NULL''],
            b_conds := b_conds b @ [IsNull (path_of sc col)]\<rparr>)"

definition criterion_part ::
  "(string \<Rightarrow> string) \<Rightarrow> criterion \<Rightarrow> build \<Rightarrow> (error + build) \<times> criterion" where
  "criterion_part sc w b =
     (let op = (case c_operator w of None \<Rightarrow> ''='' | Some s \<Rightarrow> if s = [] then ''='' else s)
      in if op \<notin> set ops then (Inl (Rejected (''Unknown operator '' @ dq @ op @ dq)), w)
         else if op = ''IN'' then
           (case c_value w of
              Some (JArr vals) \<Rightarrow>
                (case c_property w of
                   Props names \<Rightarrow> (Inl TypeError, w)
                 | Prop col \<Rightarrow>
                     (case resolvePath sc col (b_tokens b) of
                        (ret, tokens') \<Rightarrow>
                          (Inr (b\<lparr>b_tokens := tokens',
                                  b_params := b_params b @ map Some vals,
                                  b_parts := b_parts b @
                                    [ret @ '' IN ('' @
                                     join '','' (map (\<lambda>i. ''$'' @ show_nat i)
                                                    [b_p b ..< b_p b + length vals]) @ '')''],
                                  b_conds := b_conds b @ [Among (path_of sc col) vals],
                                  b_p := b_p b + length vals\<rparr>), w)))
            | _ \<Rightarrow> (Inl TypeError, w))
         else
           (case c_property w of
              Props names \<Rightarrow>
                (case or_loop sc op (c_value w) names b [] [] of
                   (b', ors, alts) \<Rightarrow>
                     (Inr (b'\<lparr>b_parts := b_parts b' @ [''('' @ join '' OR '' ors @ '')''],
                              b_conds := b_conds b' @ [AnyOf alts]\<rparr>), w))
            | Prop col \<Rightarrow>
                (case c_value w of
                   Some JNull \<Rightarrow> (Inl TypeError, w)
                 | Some (JArr xs) \<Rightarrow> (Inr (null_part sc col b), w)
                 | Some (JObj kvs) \<Rightarrow>
                     (case get kvs ''id'' of
                        None \<Rightarrow> (Inr (null_part sc col b), w)
                      | Some i \<Rightarrow>
                          if truthy i
                          then (Inr (compare_part sc op (col @ ''.id'') (Some i) b),
                                w\<lparr>c_property := Prop (col @ ''.id''), c_value := Some i\<rparr>)
                          else (Inr (null_part sc col b), w))
                 | v \<Rightarrow> (Inr (compare_part sc op col v b), w))))"

text \<open>The criteria for which that body throws nothing.\<close>

definition accepted :: "criterion \<Rightarrow> bool" where
  "accepted w =
     (let op = (case c_operator w of None \<Rightarrow> ''='' | Some s \<Rightarrow> if s = [] then ''='' else s)
      in op \<in> set ops \<and>
         (if op = ''IN''
          then (case c_value w of
                  Some (JArr vals) \<Rightarrow> (case c_property w of Prop col \<Rightarrow> True | Props names \<Rightarrow> False)
                | _ \<Rightarrow> False)
          else (case c_property w of
                  Props names \<Rightarrow> True
                | Prop col \<Rightarrow> c_value w \<noteq> Some JNull)))"

fun criteria_loop ::
  "(string \<Rightarrow> string) \<Rightarrow> criterion list \<Rightarrow> build \<Rightarrow> (error + build) \<times> criterion list" where
  "criteria_loop sc [] b = (Inr b, [])"
| "criteria_loop sc (w # ws) b =
     (case criterion_part sc w b of
        (Inl e, w') \<Rightarrow> (Inl e, w' # ws)
      | (Inr b', w') \<Rightarrow>
          (case criteria_loop sc ws b' of (r, ws') \<Rightarrow> (r, w' # ws')))"

text \<open>
  The filter object of the caller after \<open>getKeys\<close>: the arrays
  \<open>filter.criteria\<close> and \<open>filter.sort\<close> are the ones the function worked
  on. Where the filter has no such array the function worked on an array of
  its own.
\<close>

definition after_filter ::
  "filter_obj option \<Rightarrow> criterion list \<Rightarrow> sort_entry list \<Rightarrow> filter_obj option" where
  "after_filter flt criteria' sort' =
     (case flt of
        None \<Rightarrow> None
      | Some f \<Rightarrow>
          Some (f\<lparr>f_criteria := (case f_criteria f of None \<Rightarrow> None | Some c \<Rightarrow> Some criteria'),
                  f_sort := (case f_sort f of None \<Rightarrow> None | Some c \<Rightarrow> Some sort')\<rparr>))"

definition nonzero :: "nat option \<Rightarrow> bool" where
  "nonzero n = (case n of None \<Rightarrow> False | Some k \<Rightarrow> k \<noteq> 0)"

text \<open>
  \<open>tools.getKeys(obj, isSuperUser)\<close> up to the call of the database: the
  query and the filter object as the call leaves it. \<open>isSuperUser\<close> is
  \<open>None\<close> when the argument is not given; the authorization clause is added
  only when it is \<open>false\<close>.
\<close>

definition getKeys_query ::
  "'p env \<Rightarrow> keys_request \<Rightarrow> bool option \<Rightarrow> (error + query) \<times> filter_obj option" where
  "getKeys_query env obj isSuperUser =
     (let sc = toSnakeCase env;
          flt = k_filter obj;
          table = sc (k_name obj);
          clause = (if k_showDeleted obj then ''true'' else ''NOT is_deleted'');
          sql = ''SELECT _pk FROM %I WHERE '' @ clause;
          criteria = (case flt of None \<Rightarrow> []
                      | Some f \<Rightarrow> (case f_criteria f of None \<Rightarrow> [] | Some c \<Rightarrow> c));
          sorts = (case flt of None \<Rightarrow> []
                   | Some f \<Rightarrow> (case f_sort f of None \<Rightarrow> [] | Some c \<Rightarrow> c))
      in case (if isSuperUser = Some False
               then buildAuthSql sc ''canRead'' table [table]
               else Inr ([], [table])) of
           Inl e \<Rightarrow> (Inl e, flt)
         | Inr (auth, tokens) \<Rightarrow>
             (let b0 = \<lparr>b_tokens = tokens,
                        b_params = (if isSuperUser = Some False
                                    then [Some (JStr (currentUser env))] else []),
                        b_parts = [], b_conds = [],
                        b_p = (if isSuperUser = Some False then 2 else 1)\<rparr>
              in case (if flt = None then (Inr b0, criteria) else criteria_loop sc criteria b0) of
                   (Inl e, criteria') \<Rightarrow> (Inl e, after_filter flt criteria' sorts)
                 | (Inr b, criteria') \<Rightarrow>
                     (case processSort sc sorts (b_tokens b) of
                        (Inl e, sort') \<Rightarrow> (Inl e, after_filter flt criteria' sort')
                      | (Inr (order_by, tokens', ord), sort') \<Rightarrow>
                          (let off = (case flt of None \<Rightarrow> None
                                      | Some f \<Rightarrow> if nonzero (f_offset f) then f_offset f else None);
                               lim = (case flt of None \<Rightarrow> None
                                      | Some f \<Rightarrow> if nonzero (f_limit f) then f_limit f else None);
                               p' = (if off = None then b_p b else b_p b + 1)
                           in (Inr \<lparr>q_sql = sql @ auth @
                                       (if b_parts b = [] then []
                                        else '' AND '' @ join '' AND '' (b_parts b)) @
                                       order_by @
                                       (if off = None then [] else '' OFFSET $'' @ show_nat (b_p b)) @
                                       (if lim = None then [] else '' LIMIT $'' @ show_nat p'),
                                     q_tokens = tokens',
                                     q_params = b_params b @
                                       (case off of None \<Rightarrow> [] | Some n \<Rightarrow> [Some (JNum (int n))]) @
                                       (case lim of None \<Rightarrow> [] | Some n \<Rightarrow> [Some (JNum (int n))]),
                                     q_table = table,
                                     q_live = (\<not> k_showDeleted obj),
                                     q_user = (if isSuperUser = Some False
                                               then Some (currentUser env) else None),
                                     q_conds = b_conds b,
                                     q_order = ord,
                                     q_offset = off,
                                     q_limit = lim\<rparr>,
                                after_filter flt criteria' sort')))))"


text \<open>
  What the database answers. A column that a row does not have reads as
  null, and so does an attribute that a composite does not have. A comparison
  with null is never true; equality and inequality are those of the values,
  any other operator is the environment's. A row is live when \<open>is_deleted\<close>
  is false. The rows of a table are those that list it.
\<close>

definition row_col :: "row \<Rightarrow> string \<Rightarrow> json" where
  "row_col r c =
     (if c = ''_pk'' then JNum (int (pk r))
      else (case get (cols r) c of None \<Rightarrow> JNull | Some v \<Rightarrow> v))"

fun attr_of :: "json \<Rightarrow> string list \<Rightarrow> json" where
  "attr_of v [] = v"
| "attr_of (JObj kvs) (c # cs) = (case get kvs c of None \<Rightarrow> JNull | Some v \<Rightarrow> attr_of v cs)"
| "attr_of v (c # cs) = JNull"

definition row_path :: "row \<Rightarrow> string list \<Rightarrow> json" where
  "row_path r p = (case p of [] \<Rightarrow> JNull | c # cs \<Rightarrow> attr_of (row_col r c) cs)"

definition sql_compare :: "'p env \<Rightarrow> string \<Rightarrow> json \<Rightarrow> json option \<Rightarrow> bool" where
  "sql_compare env op a b =
     (case b of
        None \<Rightarrow> False
      | Some b' \<Rightarrow>
          if a = JNull \<or> b' = JNull then False
          else if op = ''='' then a = b'
          else if op = ''!='' \<or> op = ''<>'' then a \<noteq> b'
          else pg_operator env op a b')"

fun holds :: "'p env \<Rightarrow> row \<Rightarrow> cond \<Rightarrow> bool" where
  "holds env r (IsNull p) = (row_path r p = JNull)"
| "holds env r (Compare p op v) = sql_compare env op (row_path r p) v"
| "holds env r (Among p vals) = list_ex (\<lambda>v. sql_compare env ''='' (row_path r p) (Some v)) vals"
| "holds env r (AnyOf alts) =
     list_ex (\<lambda>a. sql_compare env (fst (snd a)) (row_path r (fst a)) (snd (snd a))) alts"

definition live :: "row \<Rightarrow> bool" where
  "live r = (row_col r ''is_deleted'' = JBool False)"

fun row_before :: "'p env \<Rightarrow> (string list \<times> string) list \<Rightarrow> row \<Rightarrow> row \<Rightarrow> bool" where
  "row_before env [] r s = True"
| "row_before env ((p, dir) # ord) r s =
     (if pg_less env (row_path r p) (row_path s p) then dir = ''ASC''
      else if pg_less env (row_path s p) (row_path r p) then dir \<noteq> ''ASC''
      else row_before env ord r s)"

fun insert_by :: "('a \<Rightarrow> 'a \<Rightarrow> bool) \<Rightarrow> 'a \<Rightarrow> 'a list \<Rightarrow> 'a list" where
  "insert_by le x [] = [x]"
| "insert_by le x (y # ys) = (if le x y then x # y # ys else y # insert_by le x ys)"

definition sort_rows :: "'p env \<Rightarrow> (string list \<times> string) list \<Rightarrow> row list \<Rightarrow> row list" where
  "sort_rows env ord rs = foldr (insert_by (row_before env ord)) rs []"

definition selected :: "'p env \<Rightarrow> query \<Rightarrow> row \<Rightarrow> bool" where
  "selected env q r =
     (q_table q \<in> set (tables r) \<and>
      (if q_live q then live r else True) \<and>
      (case q_user q of
         None \<Rightarrow> True
       | Some u \<Rightarrow> granted env u (toSnakeCase env ''canRead'') (pk r)) \<and>
      list_all (holds env r) (q_conds q))"

definition run_query :: "'p env \<Rightarrow> db \<Rightarrow> query \<Rightarrow> nat list" where
  "run_query env d q =
     (let found = sort_rows env (q_order q) (filter (selected env q) (rows d));
          skipped = (case q_offset q of None \<Rightarrow> found | Some n \<Rightarrow> drop n found);
          taken = (case q_limit q of None \<Rightarrow> skipped | Some n \<Rightarrow> take n skipped)
      in map pk taken)"

text \<open>
  \<open>tools.getKeys(obj, isSuperUser)\<close>: the primary keys the query selects,
  or the exception, with the filter object as the call leaves it.
\<close>

definition getKeys ::
  "'p env \<Rightarrow> db \<Rightarrow> keys_request \<Rightarrow> bool option \<Rightarrow> (error + nat list) \<times> filter_obj option" where
  "getKeys env d obj isSuperUser =
     (case getKeys_query env obj isSuperUser of
        (Inl e, flt') \<Rightarrow> (Inl e, flt')
      | (Inr q, flt') \<Rightarrow> (Inr (run_query env d q), flt'))"

text \<open>
  \<open>tools.getKey(obj, isSuperUser)\<close>: the first key of the rows whose id is
  \<open>obj.id\<close>, in the table of \<open>obj.name || "Object"\<close>.
\<close>

definition getKey ::
  "'p env \<Rightarrow> db \<Rightarrow> string option \<Rightarrow> json option \<Rightarrow> bool \<Rightarrow> bool option \<Rightarrow> error + nat option" where
  "getKey env d name ident showDeleted isSuperUser =
     (case fst (getKeys env d
                  \<lparr>k_name = (case name of None \<Rightarrow> ''Object''
                              | Some n \<Rightarrow> if n = [] then ''Object'' else n),
                   k_filter = Some \<lparr>f_criteria = Some [\<lparr>c_property = Prop ''id'',
                                                           c_operator = None,
                                                           c_value = ident\<rparr>],
                                     f_sort = None, f_offset = None, f_limit = None\<rparr>,
                   k_showDeleted = showDeleted\<rparr>
                  isSuperUser) of
        Inl e \<Rightarrow> Inl e
      | Inr keys \<Rightarrow> Inr (case keys of [] \<Rightarrow> None | k # ks \<Rightarrow> Some k))"


section \<open>Events: subscribe and unsubscribe\<close>

text \<open>
  Modelled from the spec: the table \<open>$subscription\<close> is created by the
  installer, which is not under src/. Its rows are
  \<open>(nodeId, sessionId, subscriptionId, target)\<close> and a row can be there
  once: an \<open>INSERT\<close> of a row that is there raises a unique violation, and
  with \<open>ON CONFLICT DO NOTHING\<close> it is skipped.
\<close>

type_synonym sub_row = "string \<times> string \<times> string \<times> string"

definition insert_or_fail :: "sub_row \<Rightarrow> sub_row list \<Rightarrow> error + sub_row list" where
  "insert_or_fail r tbl = (if r \<in> set tbl then Inl UniqueViolation else Inr (tbl @ [r]))"

definition insert_do_nothing :: "sub_row \<Rightarrow> sub_row list \<Rightarrow> sub_row list" where
  "insert_do_nothing r tbl = (if r \<in> set tbl then tbl else tbl @ [r])"

record subscription =
  nodeId :: "string option"
  sessionId :: "string option"
  sub_id :: "string option"
  merge :: bool

definition present :: "string option \<Rightarrow> bool" where
  "present s = (case s of None \<Rightarrow> False | Some t \<Rightarrow> t \<noteq> [])"

text \<open>
  \<open>events.unsubscribe(client, id, type)\<close>: nothing happens without an id;
  otherwise the rows of the subscription, the session or the node are
  deleted.
\<close>

definition unsubscribe :: "db \<Rightarrow> string option \<Rightarrow> string option \<Rightarrow> error + db" where
  "unsubscribe d ident typ =
     (let t = (case typ of None \<Rightarrow> ''subscription'' | Some s \<Rightarrow> if s = [] then ''subscription'' else s)
      in if \<not> present ident then Inr d
         else if t \<noteq> ''subscription'' \<and> t \<noteq> ''session'' \<and> t \<noteq> ''node''
         then Inl (Failure (t @ '' is not a valid type for unsubscribe.''))
         else Inr (d\<lparr>subscriptions :=
                      filter (\<lambda>r. (case r of (n, s, i, target) \<Rightarrow>
                                      (if t = ''subscription'' then i
                                       else if t = ''session'' then s else n) \<noteq> the ident))
                             (subscriptions d)\<rparr>))"

text \<open>
  \<open>doSubscribe\<close>: one insert for every id, with \<open>ON CONFLICT DO NOTHING\<close>,
  and one insert for the table name when it is given, without it. The
  queries are sent in this order; the promise is rejected when one of them
  fails, and the rows the others inserted stay.
\<close>

definition doSubscribe ::
  "(string \<Rightarrow> string) \<Rightarrow> db \<Rightarrow> string \<Rightarrow> string \<Rightarrow> string \<Rightarrow> string list \<Rightarrow> string option
     \<Rightarrow> (error + unit) \<times> db" where
  "doSubscribe sc d n s i ids tablename =
     (let tbl = foldl (\<lambda>tbl target. insert_do_nothing (n, s, i, target) tbl) (subscriptions d) ids
      in if present tablename
         then (case insert_or_fail (n, s, i, sc (the tablename)) tbl of
                 Inl e \<Rightarrow> (Inl e, d\<lparr>subscriptions := tbl\<rparr>)
               | Inr tbl' \<Rightarrow> (Inr (), d\<lparr>subscriptions := tbl'\<rparr>))
         else (Inr (), d\<lparr>subscriptions := tbl\<rparr>))"

text \<open>\<open>events.subscribe(client, subscription, ids, tablename)\<close>.\<close>

definition subscribe ::
  "(string \<Rightarrow> string) \<Rightarrow> db \<Rightarrow> subscription option \<Rightarrow> string list \<Rightarrow> string option
     \<Rightarrow> (error + unit) \<times> db" where
  "subscribe sc d subscr ids tablename =
     (case subscr of
        None \<Rightarrow> (Inr (), d)
      | Some sub \<Rightarrow>
          if \<not> present (nodeId sub) then (Inl (Failure ''Subscription requires a nodeId.''), d)
          else if \<not> present (sessionId sub)
          then (Inl (Failure ''Subscription requires a sessionId.''), d)
          else if \<not> present (sub_id sub) then (Inl (Failure ''Subscription requires an id.''), d)
          else if merge sub
          then doSubscribe sc d (the (nodeId sub)) (the (sessionId sub)) (the (sub_id sub))
                 ids tablename
          else (case unsubscribe d (sub_id sub) None of
                  Inl e \<Rightarrow> (Inl e, d)
                | Inr d' \<Rightarrow>
                    doSubscribe sc d' (the (nodeId sub)) (the (sessionId sub)) (the (sub_id sub))
                      ids tablename))"

section \<open>The request pipeline: upsert\<close>

text \<open>
  \<open>overlay(newRec, oldRec)\<close> of \<open>doUpsert\<close> works on the new record in
  place; here it returns it. The loop over the keys of the old record is
  \<open>overlay_members\<close>, the loop over the rows of an array is
  \<open>overlay_rows\<close> (\<open>n\<close> is the index, \<open>done\<close> the rows before it). The
  records are objects. \<open>Object.keys\<close> of an old row that is \<open>null\<close> and a
  member read on a new row that is \<open>null\<close> throw a TypeError; an old row
  that is a number or a boolean has no keys. The other shapes (a row that is
  a string or an array, a new row that is a number, a boolean or a string
  against an old row with members) do not occur in records and are not
  covered. The test \<open>oldRec.length > newRec.length\<close> compares two members
  that records do not have and changes nothing.
\<close>

fun js_text :: "json \<Rightarrow> string" where
  "js_text JNull = ''null''"
| "js_text (JBool b) = (if b then ''true'' else ''false'')"
| "js_text (JNum n) = (if n < 0 then ''-'' @ show_nat (nat (- n)) else show_nat (nat n))"
| "js_text (JStr s) = s"
| "js_text (JArr xs) = join '','' (map (\<lambda>x. if x = JNull then [] else js_text x) xs)"
| "js_text (JObj kvs) = ''[object Object]''"

definition js_string :: "json option \<Rightarrow> string" where
  "js_string v = (case v of None \<Rightarrow> ''undefined'' | Some w \<Rightarrow> js_text w)"

function overlay :: "json \<Rightarrow> json \<Rightarrow> error + json"
  and overlay_members :: "members \<Rightarrow> members \<Rightarrow> members \<Rightarrow> error + members"
  and overlay_rows :: "json list \<Rightarrow> json list \<Rightarrow> json list \<Rightarrow> error + json list"
where
  "overlay newRec JNull = Inl TypeError"
| "overlay newRec (JBool b) = Inr newRec"
| "overlay newRec (JNum n) = Inr newRec"
| "overlay newRec (JStr s) = (if s = [] then Inr newRec else Inl Uncovered)"
| "overlay newRec (JArr xs) = (if xs = [] then Inr newRec else Inl Uncovered)"
| "overlay newRec (JObj oldRec) =
     (if oldRec = [] then Inr newRec
      else (case newRec of
              JObj kvs \<Rightarrow>
                (case overlay_members kvs oldRec oldRec of
                   Inl e \<Rightarrow> Inl e
                 | Inr kvs' \<Rightarrow> Inr (JObj kvs'))
            | JNull \<Rightarrow> Inl TypeError
            | _ \<Rightarrow> Inl Uncovered))"
| "overlay_members newRec oldRec [] = Inr newRec"
| "overlay_members newRec oldRec ((key, JArr olds) # rest) =
     (case get newRec key of
        None \<Rightarrow> overlay_members (put key (JArr olds) newRec) oldRec rest
      | Some JNull \<Rightarrow> overlay_members (put key (JArr olds) newRec) oldRec rest
      | Some (JArr news) \<Rightarrow>
          (case overlay_rows news olds [] of
             Inl e \<Rightarrow> Inl e
           | Inr news' \<Rightarrow> overlay_members (put key (JArr news') newRec) oldRec rest)
      | Some v \<Rightarrow>
          Inl (Failure (''Array expected for property '' @ dq @ key @ dq @ '' on '' @
                        js_string (get oldRec ''objectType'') @ '' record with id '' @
                        js_string (get oldRec ''id''))))"
| "overlay_members newRec oldRec ((key, JNull) # rest) =
     overlay_members (if get newRec key = None then put key JNull newRec else newRec) oldRec rest"
| "overlay_members newRec oldRec ((key, JBool b) # rest) =
     overlay_members (if get newRec key = None then put key (JBool b) newRec else newRec) oldRec rest"
| "overlay_members newRec oldRec ((key, JNum n) # rest) =
     overlay_members (if get newRec key = None then put key (JNum n) newRec else newRec) oldRec rest"
| "overlay_members newRec oldRec ((key, JStr s) # rest) =
     overlay_members (if get newRec key = None then put key (JStr s) newRec else newRec) oldRec rest"
| "overlay_members newRec oldRec ((key, JObj kvs) # rest) =
     overlay_members (if get newRec key = None then put key (JObj kvs) newRec else newRec) oldRec rest"
| "overlay_rows news [] done = Inr (done @ news)"
| "overlay_rows [] (oldChild # olds) done = overlay_rows [] olds (done @ [JNull])"
| "overlay_rows (newChild # news) (oldChild # olds) done =
     (case overlay newChild oldChild of
        Inl e \<Rightarrow> Inl e
      | Inr newChild' \<Rightarrow> overlay_rows news olds (done @ [newChild']))"
  by pat_completeness auto
termination
  by (relation "measure (\<lambda>x. case x of
        Inl (n, old) \<Rightarrow> 2 * size old + 1
      | Inr (Inl (n, old, rest)) \<Rightarrow> 2 * size_list (size_prod (\<lambda>x. 0) size) rest
      | Inr (Inr (news, olds, done)) \<Rightarrow> 2 * size_list size olds)")
    auto

section \<open>CRUD: doSelect\<close>

text \<open>A member read \<open>v[key]\<close> on a value that may be missing.\<close>

definition member :: "json option \<Rightarrow> string \<Rightarrow> json option" where
  "member v k = (case v of Some (JObj kvs) \<Rightarrow> get kvs k | _ \<Rightarrow> None)"

definition truthy_opt :: "json option \<Rightarrow> bool" where
  "truthy_opt v = (case v of None \<Rightarrow> False | Some w \<Rightarrow> truthy w)"

record select_req =
  sel_name :: string
  sel_id :: "json option"
  sel_showDeleted :: bool
  sel_properties :: "string list option"
  sel_sanitize :: bool
  sel_filter :: "filter_obj option"
  sel_subscription :: "subscription option"

text \<open>
  The selected properties of \<open>doSelect\<close> with the dot notation stripped,
  in \<open>afterGetFeather\<close>: a name with a dot is cut before the dot and is
  left out when \<open>attrs\<close> has the cut name already.
\<close>

fun strip_dots :: "string list \<Rightarrow> string list \<Rightarrow> string list" where
  "strip_dots [] attrs = []"
| "strip_dots (p # ps) attrs =
     (if CHR ''.'' \<in> set p
      then (let ret = takeWhile (\<lambda>c. c \<noteq> CHR ''.'') p
            in if ret \<in> set attrs then strip_dots ps attrs
               else ret # strip_dots ps (ret # attrs))
      else p # strip_dots ps (p # attrs))"

text \<open>
  The columns of the statement that \<open>doSelect\<close> builds in
  \<open>afterGetFeather\<close>, after the primary key: one for every selected key
  but \<open>objectType\<close>. A selected key that the feather does not have makes
  \<open>feather.properties[key].type\<close> throw.
\<close>

fun select_columns ::
  "(string \<Rightarrow> string) \<Rightarrow> (string \<times> property) list \<Rightarrow> string list \<Rightarrow> error + string list" where
  "select_columns sc props [] = Inr []"
| "select_columns sc props (key # keys) =
     (case map_of props key of
        None \<Rightarrow> Inl TypeError
      | Some p \<Rightarrow>
          (case select_columns sc props keys of
             Inl e \<Rightarrow> Inl e
           | Inr rest \<Rightarrow> Inr (if key = ''objectType'' then rest else sc key # rest)))"

text \<open>
  \<open>mapKeys(row)\<close> of \<open>doSelect\<close>, under the loop
  \<open>rkeys.forEach\<close>: \<open>assign_keys\<close> assigns the values of \<open>result\<close>
  to the selected keys in their order, and to the key \<open>undefined\<close> once
  the keys are used up. \<open>result\<close> is \<open>row.result\<close>, which is
  \<open>undefined\<close> unless the row has a column of that name. Then
  \<open>ret[keys[0]] = undefined\<close> is all that happens: the record has one
  member without a value, which \<open>JSON.stringify\<close> leaves out, and so does
  this model, as every caller of \<open>doSelect\<close> sanitizes the record before
  it reads it. \<open>Object.keys\<close> of a \<open>result\<close> that is null throws.
\<close>

fun assign_keys :: "string list \<Rightarrow> json list \<Rightarrow> members \<Rightarrow> members" where
  "assign_keys keys [] ret = ret"
| "assign_keys [] (v # vs) ret = assign_keys [] vs (put ''undefined'' v ret)"
| "assign_keys (k # keys) (v # vs) ret = assign_keys keys vs (put k v ret)"

definition mapKeys :: "string list \<Rightarrow> json option \<Rightarrow> error + members" where
  "mapKeys keys result =
     (case result of
        None \<Rightarrow> Inr []
      | Some JNull \<Rightarrow> Inl TypeError
      | Some (JObj kvs) \<Rightarrow> Inr (assign_keys keys (map snd kvs) [])
      | Some (JArr xs) \<Rightarrow> Inr (assign_keys keys xs [])
      | Some v \<Rightarrow> Inr [(case keys of [] \<Rightarrow> ''undefined'' | k # ks \<Rightarrow> k, v)])"

text \<open>
  Modelled from the spec: the rows a query resolves to have the format of
  the database module, which is not under src/: an object with one member
  for every column of the statement, by the name of the column.
  \<open>row_object\<close> is a row of the second query of a filtered select, with
  \<open>row.objectType = obj.name\<close> when \<open>objectType\<close> is among the
  selected keys; \<open>row_result\<close> is \<open>row.result\<close> of the query by key.
\<close>

definition row_object :: "string \<Rightarrow> string list \<Rightarrow> string list \<Rightarrow> row \<Rightarrow> json" where
  "row_object name keys names r =
     (let cells = (''_pk'', JNum (int (pk r))) # map (\<lambda>c. (c, row_col r c)) names
      in JObj (if ''objectType'' \<in> set keys then put ''objectType'' (JStr name) cells else cells))"

definition row_result :: "string list \<Rightarrow> row \<Rightarrow> json option" where
  "row_result names r = (if ''result'' \<in> set names then Some (row_col r ''result'') else None)"

text \<open>
  \<open>crud.doSelect(obj, isChild, isSuperUser)\<close>. With an id it resolves to
  what \<open>mapKeys\<close> makes of the row of the key, or to \<open>undefined\<close>
  when there is no key; without an id to the array of the records the filter
  selects; then the subscription is renewed or dropped, so the state is part
  of the result. In the second query \<open>filter.sort\<close> is the array that
  \<open>getKeys\<close> has extended by the entry for the primary key. The keys of
  the rows come from a sequence that starts at one, so that
  \<open>while (keys[i])\<close> runs over all of them. A key without a row makes
  \<open>mapKeys\<close> throw in the callback of the query.
\<close>

definition fetch :: "'p env \<Rightarrow> db \<Rightarrow> string \<Rightarrow> nat list \<Rightarrow> (string list \<times> string) list \<Rightarrow> row list" where
  "fetch env d table keys ord =
     sort_rows env ord (filter (\<lambda>r. table \<in> set (tables r) \<and> pk r \<in> set keys) (rows d))"

definition doSelect ::
  "'p env \<Rightarrow> db \<Rightarrow> select_req \<Rightarrow> bool \<Rightarrow> bool option \<Rightarrow> error + (json option \<times> db)" where
  "doSelect env d obj is_child isSuperUser =
     (case catalog d (sel_name obj) of
        None \<Rightarrow> Inl (Rejected (''Feather '' @ dq @ sel_name obj @ dq @ '' not found.''))
      | Some feather \<Rightarrow>
          (let sc = toSnakeCase env;
               table = sc (f_name feather);
               keys = (case sel_properties obj of
                         None \<Rightarrow> map fst (properties feather) | Some ps \<Rightarrow> strip_dots ps [])
           in if \<not> is_child \<and> isChild feather \<and> isSuperUser \<noteq> Some True
              then Inl (Rejected ''Can not query directly on a child class'')
              else
                (case select_columns sc (properties feather) keys of
                   Inl e \<Rightarrow> Inl e
                 | Inr names \<Rightarrow>
                     if truthy_opt (sel_id obj)
                     then (case getKey env d (Some (sel_name obj)) (sel_id obj) (sel_showDeleted obj)
                                  isSuperUser of
                             Inl e \<Rightarrow> Inl e
                           | Inr None \<Rightarrow> Inr (None, d)
                           | Inr (Some key) \<Rightarrow>
                               (case filter (\<lambda>r. table \<in> set (tables r) \<and> pk r = key) (rows d) of
                                  [] \<Rightarrow> Inl TypeError
                                | r # rs \<Rightarrow>
                                    (case mapKeys keys (row_result names r) of
                                       Inl e \<Rightarrow> Inl e
                                     | Inr result \<Rightarrow>
                                         if sel_sanitize obj
                                         then (case sanitize (toCamelCase env) (JObj result) of
                                                 Inl e \<Rightarrow> Inl e
                                               | Inr result' \<Rightarrow> Inr (Some result', d))
                                         else Inr (Some (JObj result), d))))
                     else (case fst (getKeys env d
                                       \<lparr>k_name = sel_name obj, k_filter = sel_filter obj,
                                        k_showDeleted = sel_showDeleted obj\<rparr> isSuperUser) of
                             Inl e \<Rightarrow> Inl e
                           | Inr pks \<Rightarrow>
                               if pks = []
                               then (case unsubscribe d
                                            (case sel_subscription obj of None \<Rightarrow> None | Some sub \<Rightarrow> sub_id sub)
                                            None of
                                       Inl e \<Rightarrow> Inl e
                                     | Inr d' \<Rightarrow> Inr (Some (JArr []), d'))
                               else
                                 (let sorts = (case sel_filter obj of None \<Rightarrow> []
                                               | Some f \<Rightarrow> (case f_sort f of None \<Rightarrow> [] | Some c \<Rightarrow> c @ [pk_entry]))
                                  in case fst (processSort sc sorts []) of
                                       Inl e \<Rightarrow> Inl e
                                     | Inr (order_by, tokens, ord) \<Rightarrow>
                                         (case sanitize (toCamelCase env)
                                                 (JArr (map (row_object (sel_name obj) keys names)
                                                          (fetch env d table pks ord))) of
                                            Inl e \<Rightarrow> Inl e
                                          | Inr result \<Rightarrow>
                                              if is_child then Inr (Some result, d)
                                              else
                                                (case subscribe sc d (sel_subscription obj)
                                                        (case result of
                                                           JArr items \<Rightarrow>
                                                             map (\<lambda>item. js_string (member (Some item) ''id'')) items
                                                         | _ \<Rightarrow> [])
                                                        (case sel_filter obj of
                                                           None \<Rightarrow> Some (sel_name obj)
                                                         | Some f \<Rightarrow>
                                                             if f_criteria f = None \<and> \<not> nonzero (f_limit f)
                                                             then Some (sel_name obj) else None) of
                                                   (Inl e, d') \<Rightarrow> Inl e
                                                 | (Inr u, d') \<Rightarrow> Inr (Some result, d'))))))))"

section \<open>CRUD: doInsert\<close>

record insert_req =
  ins_name :: string
  ins_data :: members
  ins_cache :: "json option"

text \<open>
  The defaults of the formats and of the types (\<open>tools.formats\<close>,
  \<open>tools.types\<close>) of the tools module.
\<close>

definition formats :: "string \<Rightarrow> json option" where
  "formats fmt =
     (if fmt \<in> set [''integer'', ''long'', ''float'', ''double''] then Some (JNum 0)
      else if fmt = ''string'' then Some (JStr [CHR 0x27, CHR 0x27])
      else if fmt = ''boolean'' then Some (JStr ''false'')
      else if fmt = ''date'' then Some (JStr ''today()'')
      else if fmt = ''dateTime'' then Some (JStr ''now()'')
      else if fmt = ''enum'' then Some (JStr [])
      else if fmt = ''color'' then Some (JStr ''#000000'')
      else if fmt = ''money'' then Some (JStr ''money()'')
      else if fmt = ''lock'' then Some JNull
      else if fmt = ''object'' then Some JNull
      else None)"

definition types :: "string \<Rightarrow> json option" where
  "types t =
     (if t = ''object'' \<or> t = ''array'' then Some JNull
      else if t = ''string'' then Some (JStr [])
      else if t = ''integer'' \<or> t = ''number'' then Some (JNum 0)
      else if t = ''boolean'' then Some (JStr ''false'')
      else None)"

text \<open>\<open>f.createId()\<close> and \<open>nextval\<close> of a sequence.\<close>

definition draw_id :: "'p env \<Rightarrow> db \<Rightarrow> string \<times> db" where
  "draw_id env d = (createId env (ids_drawn d), d\<lparr>ids_drawn := Suc (ids_drawn d)\<rparr>)"

definition next_pk :: "db \<Rightarrow> nat \<times> db" where
  "next_pk d = (Suc (pk_seq d), d\<lparr>pk_seq := Suc (pk_seq d)\<rparr>)"

definition nextval :: "db \<Rightarrow> string \<Rightarrow> nat \<times> db" where
  "nextval d sq = (Suc (sequences d sq), d\<lparr>sequences := (sequences d)(sq := Suc (sequences d sq))\<rparr>)"

text \<open>\<open>value.match(/\(\)$/)\<close> and \<open>value.replace(/\(\)$/, "")\<close>.\<close>

definition call_name :: "string \<Rightarrow> string option" where
  "call_name s =
     (if 2 \<le> length s \<and> drop (length s - 2) s = ''()'' then Some (take (length s - 2) s) else None)"

text \<open>
  Modelled from the spec: ids are globally unique and the primary key is a
  key (the tables are created by the installer, which is not under src/). An
  \<open>INSERT\<close> of a row whose \<open>_pk\<close> or whose id belongs to a row of the
  table \<open>object\<close> fails with a unique violation.
\<close>

definition insert_into :: "db \<Rightarrow> row \<Rightarrow> error + db" where
  "insert_into d r =
     (if list_ex (\<lambda>r'. pk r' = pk r \<or>
                        (row_col r' ''id'' \<noteq> JNull \<and> row_col r' ''id'' = row_col r ''id'')) (rows d)
      then Inl UniqueViolation
      else Inr (d\<lparr>rows := rows d @ [r]\<rparr>))"

text \<open>
  The loop \<open>buildInsert\<close> over the properties of the feather, with
  \<open>afterHandleRelations\<close>: the columns of the new row. The JSON text that
  is sent for a column of type json is not modelled, the column holds the
  value; a string that begins with a bracket is sent as it is for a property
  of type object, and what the database makes of it is not covered.
\<close>

definition default_value :: "'p env \<Rightarrow> property \<Rightarrow> error + json option" where
  "default_value env prp =
     (case (case p_default prp of
              Some v \<Rightarrow> Inr (Some v)
            | None \<Rightarrow>
                (case (case p_format prp of None \<Rightarrow> None | Some fmt \<Rightarrow> if fmt = [] then None else formats fmt) of
                   Some v \<Rightarrow> Inr (Some v)
                 | None \<Rightarrow>
                     (case types (p_type prp) of
                        None \<Rightarrow> Inl TypeError
                      | Some v \<Rightarrow> Inr (Some v)))) of
        Inl e \<Rightarrow> Inl e
      | Inr (Some (JStr s)) \<Rightarrow>
          (case call_name s of
             None \<Rightarrow> Inr (Some (JStr s))
           | Some fn \<Rightarrow>
               (case named_default env fn of
                  None \<Rightarrow> Inl TypeError
                | Some v \<Rightarrow> Inr (Some v)))
      | Inr v \<Rightarrow> Inr v)"

fun buildInsert ::
  "'p env \<Rightarrow> feather \<Rightarrow> members \<Rightarrow> (string \<times> property) list \<Rightarrow> db \<Rightarrow> members \<Rightarrow> error + (members \<times> db)" where
  "buildInsert env feather data [] d acc = Inr (acc, d)"
| "buildInsert env feather data ((key, prp) # rest) d acc =
     (if key = ''objectType'' then buildInsert env feather data rest d acc
      else
        (let sc = toSnakeCase env;
             v0 = get data key
         in
              (case (case p_autonumber prp of
                       Some a \<Rightarrow>
                         if v0 = None \<or> isReadOnly prp
                         then (case nextval d (a_sequence a) of
                                 (sq, d') \<Rightarrow>
                                   Inr (Some (JStr ((case a_prefix a of None \<Rightarrow> [] | Some s \<Rightarrow> s) @
                                                    pad env sq (a_length a) @
                                                    (case a_suffix a of None \<Rightarrow> [] | Some s \<Rightarrow> s))), d'))
                         else Inr (v0, d)
                     | None \<Rightarrow>
                         if v0 = None
                         then (case default_value env prp of
                                 Inl e \<Rightarrow> Inl e
                               | Inr v \<Rightarrow> Inr (v, d))
                         else Inr (v0, d)) of
                 Inl e \<Rightarrow> Inl e
               | Inr (v, d') \<Rightarrow>
                   if isRequired prp \<and> v = Some JNull \<and> \<not> (p_type prp = ''array'' \<and> v0 = Some JNull)
                   then Inl (Failure (dq @ key @ dq @ '' is required on '' @ f_name feather @ ''.''))
                   else if p_type prp = ''object'' \<and> p_format prp = Some ''money''
                   then (case v of
                           Some (JObj attrs) \<Rightarrow>
                             buildInsert env feather data rest d'
                               (acc @ [(sc key,
                                        JObj (map (\<lambda>a. (sc (fst a),
                                                         (case get attrs (sc (fst a)) of
                                                            None \<Rightarrow> JNull | Some w \<Rightarrow> w))) attrs))])
                         | Some JNull \<Rightarrow> buildInsert env feather data rest d' acc
                         | None \<Rightarrow> buildInsert env feather data rest d' acc
                         | _ \<Rightarrow> Inl Uncovered)
                   else buildInsert env feather data rest d'
                          (acc @ [(sc key, (case v of None \<Rightarrow> JNull | Some w \<Rightarrow> w))]))))"

text \<open>
  The start of \<open>doInsert\<close>, in \<open>afterGetFeather\<close> and \<open>afterIdCheck\<close>:
  without an id one is drawn; with an id, \<open>getKey\<close> looks for a row of that
  id as super user, and when it finds one a new id is drawn in its place.
\<close>

definition id_check :: "'p env \<Rightarrow> db \<Rightarrow> members \<Rightarrow> error + (members \<times> db)" where
  "id_check env d data =
     (if \<not> truthy_opt (get data ''id'')
      then (case draw_id env d of (i, d') \<Rightarrow> Inr (put ''id'' (JStr i) data, d'))
      else (case getKey env d None (get data ''id'') False (Some True) of
              Inl e \<Rightarrow> Inl e
            | Inr None \<Rightarrow> Inr (data, d)
            | Inr (Some k) \<Rightarrow>
                (case draw_id env d of (i, d') \<Rightarrow> Inr (put ''id'' (JStr i) data, d'))))"

text \<open>
  The probe for the natural key, in \<open>afterIdCheck\<close> and
  \<open>afterUniqueCheck\<close>: the first property with \<open>isNaturalKey\<close> and without
  \<open>autonumber\<close> is looked up, by \<open>getKeys\<close> without the super user
  argument, in the table of the feather the property is inherited from.
\<close>

definition natural_key :: "feather \<Rightarrow> (string \<times> property) option" where
  "natural_key feather =
     find (\<lambda>kp. isNaturalKey (snd kp) \<and> p_autonumber (snd kp) = None) (properties feather)"

definition or_else :: "string option \<Rightarrow> string \<Rightarrow> string" where
  "or_else a b = (case a of None \<Rightarrow> b | Some s \<Rightarrow> if s = [] then b else s)"

definition not_unique :: "'p env \<Rightarrow> feather \<Rightarrow> string \<Rightarrow> property \<Rightarrow> json option \<Rightarrow> string" where
  "not_unique env feather key fp v =
     ''Value '' @ [CHR 0x27] @ js_string v @ [CHR 0x27] @ '' assigned to '' @
     toName env (or_else (p_alias fp) key) @ '' on '' @
     toName env (f_name feather) @
     '' is not unique to data type '' @
     toName env (or_else (inheritedFrom fp) (f_name feather)) @ ''.''"

definition probe :: "'p env \<Rightarrow> db \<Rightarrow> feather \<Rightarrow> string \<Rightarrow> property \<Rightarrow> json option \<Rightarrow> error + unit" where
  "probe env d feather key fp v =
     (case fst (getKeys env d
                  \<lparr>k_name = or_else (inheritedFrom fp) (f_name feather),
                   k_filter = Some \<lparr>f_criteria = Some [\<lparr>c_property = Prop key,
                                                           c_operator = None,
                                                           c_value = v\<rparr>],
                                     f_sort = None, f_offset = None, f_limit = None\<rparr>,
                   k_showDeleted = False\<rparr> None) of
        Inl e \<Rightarrow> Inl e
      | Inr keys \<Rightarrow>
          if keys \<noteq> [] then Inl (Failure (not_unique env feather key fp v)) else Inr ())"

text \<open>
  The natural key of \<open>afterIdCheck\<close> with its probe: \<open>some\<close>
  stops at the first property with \<open>isNaturalKey\<close> and without
  \<open>autonumber\<close>, and its value in the data of the request is the only
  one that is looked up.
\<close>

definition unique_check :: "'p env \<Rightarrow> db \<Rightarrow> feather \<Rightarrow> members \<Rightarrow> error + unit" where
  "unique_check env d feather data =
     (case natural_key feather of
        None \<Rightarrow> Inr ()
      | Some (key, fp) \<Rightarrow> probe env d feather key fp (get data key))"

text \<open>
  \<open>doInsert\<close> up to the insert of the row: the feather, the check of the
  keys of the data, the id, the natural key, the authorization, the system
  values, the primary key, the columns and the \<open>INSERT\<close>. It returns the
  data as completed and the new state.
\<close>

definition insert_record ::
  "'p env \<Rightarrow> db \<Rightarrow> insert_req \<Rightarrow> bool \<Rightarrow> bool option \<Rightarrow> error + (members \<times> db)" where
  "insert_record env d obj is_child isSuperUser =
     (case catalog d (ins_name obj) of
        None \<Rightarrow> Inl (Rejected (''Class '' @ dq @ ins_name obj @ dq @ '' not found''))
      | Some feather \<Rightarrow>
          (case find (\<lambda>k. k \<notin> set (map fst (properties feather))) (map fst (ins_data obj)) of
             Some k \<Rightarrow>
               Inl (Failure (''Feather '' @ dq @ ins_name obj @ dq @
                             '' does not contain property '' @ dq @ k @ dq))
           | None \<Rightarrow>
               (case id_check env d (ins_data obj) of
                  Inl e \<Rightarrow> Inl e
                | Inr (data, d1) \<Rightarrow>
                    (case unique_check env d1 feather (ins_data obj) of
                       Inl e \<Rightarrow> Inl e
                     | Inr u \<Rightarrow>
                         if \<not> is_child \<and> isSuperUser = Some False \<and>
                            \<not> isAuthorized env (currentUser env) ''canCreate'' (ins_name obj)
                         then Inl (Status 401 (''Not authorized to create '' @ dq @ ins_name obj @ dq))
                         else
                           (let data' = put ''lock'' JNull
                                          (put ''isDeleted'' (JBool False)
                                            (put ''updatedBy'' (JStr (currentUser env))
                                              (put ''createdBy'' (JStr (currentUser env))
                                                (put ''created'' (now env)
                                                  (put ''updated'' (now env) data)))))
                            in case next_pk d1 of
                                 (key, d2) \<Rightarrow>
                                   (case buildInsert env feather data' (properties feather) d2 [] of
                                      Inl e \<Rightarrow> Inl e
                                    | Inr (values, d3) \<Rightarrow>
                                        (case insert_into d3
                                                \<lparr>pk = key,
                                                 tables = map (toSnakeCase env) (ancestors feather),
                                                 cols = values\<rparr> of
                                           Inl e \<Rightarrow> Inl e
                                         | Inr d4 \<Rightarrow> Inr (data', d4))))))))"

text \<open>
  Modelled from the spec: \<open>jsonpatch.compare\<close> of the library, which is
  not under src/, reads the keys of both documents, so that a document that
  is \<open>undefined\<close> makes it throw a TypeError.
\<close>

definition compare_docs :: "'p env \<Rightarrow> json option \<Rightarrow> json option \<Rightarrow> error + 'p list" where
  "compare_docs env a b =
     (case (a, b) of
        (Some x, Some y) \<Rightarrow> Inr (compare env (Some x) (Some y))
      | _ \<Rightarrow> Inl TypeError)"

text \<open>
  \<open>crud.doInsert(obj, isChild, isSuperUser)\<close>. A child is done after the
  insert and resolves to \<open>undefined\<close>. Otherwise the record is selected, a
  row of the feather \<open>Log\<close> is inserted as a child, and the patch between
  the cached request and the record is returned; \<open>obj.cache\<close> is set by
  \<open>request\<close>, and without it the comparison throws after the rows are
  written. What \<open>f.copy\<close> makes of a record that the select did not find
  is not covered.
\<close>

definition doInsert ::
  "'p env \<Rightarrow> db \<Rightarrow> insert_req \<Rightarrow> bool \<Rightarrow> bool option \<Rightarrow> error + ('p list option \<times> db)" where
  "doInsert env d obj is_child isSuperUser =
     (case insert_record env d obj is_child isSuperUser of
        Inl e \<Rightarrow> Inl e
      | Inr (data, d1) \<Rightarrow>
          if is_child then Inr (None, d1)
          else
            (case doSelect env d1
                    \<lparr>sel_name = ins_name obj, sel_id = get data ''id'', sel_showDeleted = False,
                     sel_properties = None, sel_sanitize = True, sel_filter = None,
                     sel_subscription = None\<rparr> False None of
               Inl e \<Rightarrow> Inl e
             | Inr (None, d2) \<Rightarrow> Inl Uncovered
             | Inr (Some result, d2) \<Rightarrow>
                 (case insert_record env d2
                         \<lparr>ins_name = ''Log'',
                          ins_data = [(''objectId'', the (get data ''id'')),
                                      (''action'', JStr ''POST''),
                                      (''created'', the (get data ''created'')),
                                      (''createdBy'', the (get data ''createdBy'')),
                                      (''updated'', the (get data ''updated'')),
                                      (''updatedBy'', the (get data ''updatedBy'')),
                                      (''change'', result)],
                          ins_cache = None\<rparr> True None of
                    Inl e \<Rightarrow> Inl e
                  | Inr (logged, d3) \<Rightarrow>
                      (case compare_docs env (ins_cache obj) (Some result) of
                         Inl e \<Rightarrow> Inl e
                       | Inr changes \<Rightarrow> Inr (Some changes, d3)))))"

section \<open>CRUD: locks, doUpdate and doDelete\<close>

text \<open>
  \<open>crud.unlock(client, criteria)\<close>: the lock is set to null on the rows
  that meet every criterion that is given; the ids of these rows are
  returned.
\<close>

record criteria =
  crit_id :: "string option"
  crit_username :: "string option"
  crit_eventKey :: "string option"
  crit_nodeId :: "string option"

definition lock_is :: "row \<Rightarrow> string \<Rightarrow> string option \<Rightarrow> bool" where
  "lock_is r attr v = (if present v then attr_of (row_col r ''lock'') [attr] = JStr (the v) else True)"

definition unlock :: "db \<Rightarrow> criteria \<Rightarrow> error + (json list \<times> db)" where
  "unlock d c =
     (if \<not> present (crit_id c) \<and> \<not> present (crit_username c) \<and>
         \<not> present (crit_eventKey c) \<and> \<not> present (crit_nodeId c)
      then Inl (Failure ''No lock criteria defined.'')
      else
        (let hit = (\<lambda>r. ''object'' \<in> set (tables r) \<and>
                         (if present (crit_id c) then row_col r ''id'' = JStr (the (crit_id c)) else True) \<and>
                         lock_is r ''username'' (crit_username c) \<and>
                         lock_is r ''_eventkey'' (crit_eventKey c) \<and>
                         lock_is r ''_nodeid'' (crit_nodeId c))
         in Inr (map (\<lambda>r. row_col r ''id'') (filter hit (rows d)),
                 d\<lparr>rows := map (\<lambda>r. if hit r then r\<lparr>cols := put ''lock'' JNull (cols r)\<rparr> else r)
                                  (rows d)\<rparr>)))"

text \<open>
  The test for a lock that \<open>doDelete\<close> and \<open>doUpdate\<close> both write:
  \<open>oldRec && oldRec.lock && oldRec.lock[eventKey] !== obj.eventkey\<close>, and
  the message of the error they reject with.
\<close>

definition locked_out :: "json option \<Rightarrow> string option \<Rightarrow> bool" where
  "locked_out oldRec eventkey =
     (truthy_opt oldRec \<and> truthy_opt (member oldRec ''lock'') \<and>
      member (member oldRec ''lock'') ''_eventkey'' \<noteq> map_option JStr eventkey)"

definition locked_by :: "json option \<Rightarrow> string" where
  "locked_by oldRec =
     ''Record is locked by '' @ js_string (member (member oldRec ''lock'') ''username'') @
     '' and cannot be updated.''"

text \<open>A row of the feather \<open>Log\<close>, inserted by \<open>doInsert\<close> as a child.\<close>

definition log_insert :: "'p env \<Rightarrow> db \<Rightarrow> members \<Rightarrow> error + db" where
  "log_insert env d entry =
     (case insert_record env d \<lparr>ins_name = ''Log'', ins_data = entry, ins_cache = None\<rparr> True None of
        Inl e \<Rightarrow> Inl e
      | Inr (logged, d') \<Rightarrow> Inr d')"

record delete_req =
  del_name :: string
  del_id :: string
  del_isHard :: bool
  del_eventkey :: "string option"

text \<open>
  \<open>crud.doDelete(obj, isChild, isSuperUser)\<close>. An unknown feather has no
  properties and \<open>Object.keys\<close> throws, after the authorization. The old
  record is selected with deleted rows shown and is sanitized. The statement
  runs on the table \<open>object\<close>, on the rows of the id.
\<close>

definition delete_rows :: "db \<Rightarrow> string \<Rightarrow> bool \<Rightarrow> db" where
  "delete_rows d ident hard =
     (let hit = (\<lambda>r. ''object'' \<in> set (tables r) \<and> row_col r ''id'' = JStr ident)
      in if hard then d\<lparr>rows := filter (\<lambda>r. \<not> hit r) (rows d)\<rparr>
         else d\<lparr>rows := map (\<lambda>r. if hit r then r\<lparr>cols := put ''is_deleted'' (JBool True) (cols r)\<rparr>
                                      else r) (rows d)\<rparr>)"

definition doDelete ::
  "'p env \<Rightarrow> db \<Rightarrow> delete_req \<Rightarrow> bool \<Rightarrow> bool option \<Rightarrow> error + (bool \<times> db)" where
  "doDelete env d obj is_child isSuperUser =
     (let feather = catalog d (del_name obj)
      in if \<not> is_child \<and> (case feather of None \<Rightarrow> False | Some f \<Rightarrow> isChild f)
         then Inl (Rejected ''Can not directly delete a child class'')
         else if isSuperUser = Some False \<and>
                 \<not> isAuthorized env (currentUser env) ''canDelete'' (del_id obj)
         then Inl (Rejected (''Not authorized to delete '' @ dq @ del_id obj @ dq))
         else
           (case feather of
              None \<Rightarrow> Inl TypeError
            | Some f \<Rightarrow>
                (case doSelect env d
                        \<lparr>sel_name = del_name obj, sel_id = Some (JStr (del_id obj)),
                         sel_showDeleted = True,
                         sel_properties = Some (map fst (properties f)),
                         sel_sanitize = True, sel_filter = None, sel_subscription = None\<rparr>
                        True None of
                   Inl e \<Rightarrow> Inl e
                 | Inr (oldRec, d1) \<Rightarrow>
                     if \<not> truthy_opt oldRec
                     then Inl (Rejected (''Record '' @ del_id obj @ '' not found.''))
                     else if truthy_opt (member oldRec ''isDeleted'')
                     then Inl (Rejected (''Record '' @ del_id obj @ '' already deleted.''))
                     else if locked_out oldRec (del_eventkey obj)
                     then Inl (Failure (locked_by oldRec))
                     else
                       (let d2 = delete_rows d1 (del_id obj) (del_isHard obj)
                        in if is_child \<or> del_isHard obj then Inr (True, d2)
                           else
                             (case log_insert env d2
                                     [(''objectId'', JStr (del_id obj)),
                                      (''action'', JStr ''DELETE''),
                                      (''created'', now env),
                                      (''createdBy'', now env),
                                      (''updated'', now env),
                                      (''updatedBy'', now env)] of
                                Inl e \<Rightarrow> Inl e
                              | Inr d3 \<Rightarrow> Inr (True, d3))))))"

record 'p update_req =
  upd_name :: string
  upd_id :: string
  upd_data :: "'p list"
  upd_cache :: "'p list option"
  upd_eventkey :: "string option"

datatype 'p reply = Changes "'p list" | Answer bool | Nothing

text \<open>
  An assignment \<open>rec[key] = v\<close> where \<open>v\<close> may be \<open>undefined\<close>, and the
  test \<open>updRec[key] !== oldRec[key]\<close> of \<open>doUpdate\<close>. The updated record
  is a copy of a copy of the old one, so an object or an array in it is never
  identical to the one of the old record; \<open>created\<close>, \<open>createdBy\<close> and
  \<open>lock\<close> are assigned from the old record and are identical to it.
\<close>

definition assign :: "string \<Rightarrow> json option \<Rightarrow> members \<Rightarrow> members" where
  "assign k v m = (case v of None \<Rightarrow> filter (\<lambda>p. fst p \<noteq> k) m | Some w \<Rightarrow> put k w m)"

definition differs :: "members \<Rightarrow> members \<Rightarrow> string \<Rightarrow> bool" where
  "differs updRec oldRec key =
     (if key = ''created'' \<or> key = ''createdBy'' \<or> key = ''lock'' then False
      else (case (get updRec key, get oldRec key) of
              (None, None) \<Rightarrow> False
            | (Some a, Some b) \<Rightarrow> is_object a \<or> is_object b \<or> a \<noteq> b
            | _ \<Rightarrow> True))"

text \<open>
  The loop \<open>nextProp\<close> over the properties: the assignments of the
  \<open>UPDATE\<close>, each a column, for a composite an attribute of it, and the
  value.
\<close>

fun nextProp ::
  "(string \<Rightarrow> string) \<Rightarrow> members \<Rightarrow> members \<Rightarrow> (string \<times> property) list
     \<Rightarrow> (string \<times> string option \<times> json) list \<Rightarrow> error + (string \<times> string option \<times> json) list" where
  "nextProp sc updRec oldRec [] ary = Inr ary"
| "nextProp sc updRec oldRec ((key, prp) # rest) ary =
     (if differs updRec oldRec key \<and> p_type prp = ''object'' \<and> p_format prp = Some ''money''
      then (case get updRec key of
              None \<Rightarrow> Inl TypeError
            | Some JNull \<Rightarrow> Inl TypeError
            | Some (JObj attrs) \<Rightarrow>
                nextProp sc updRec oldRec rest
                  (ary @ map (\<lambda>a. (sc key, Some (sc (fst a)), snd a)) attrs)
            | Some (JBool b) \<Rightarrow> nextProp sc updRec oldRec rest ary
            | Some (JNum n) \<Rightarrow> nextProp sc updRec oldRec rest ary
            | Some v \<Rightarrow> Inl Uncovered)
      else if differs updRec oldRec key \<and> key \<noteq> ''objectType''
      then (case get updRec key of
              Some (JStr s) \<Rightarrow>
                if p_type prp = ''object'' \<and> take 1 s = ''['' then Inl Uncovered
                else nextProp sc updRec oldRec rest (ary @ [(sc key, None, JStr s)])
            | Some v \<Rightarrow> nextProp sc updRec oldRec rest (ary @ [(sc key, None, v)])
            | None \<Rightarrow> nextProp sc updRec oldRec rest (ary @ [(sc key, None, JNull)]))
      else nextProp sc updRec oldRec rest ary)"

definition set_col :: "string \<times> string option \<times> json \<Rightarrow> members \<Rightarrow> members" where
  "set_col a m =
     (case a of
        (col, None, v) \<Rightarrow> put col v m
      | (col, Some attr, v) \<Rightarrow>
          (case get m col of
             Some (JObj attrs) \<Rightarrow> put col (JObj (put attr v attrs)) m
           | _ \<Rightarrow> put col (JObj [(attr, v)]) m))"

text \<open>
  \<open>UPDATE %I SET ... WHERE _pk = $p\<close> on the table of the feather. Without
  an assignment the statement is not SQL; a key that is \<open>undefined\<close> is
  sent as null and meets no row.
\<close>

definition update_row ::
  "db \<Rightarrow> string \<Rightarrow> nat option \<Rightarrow> (string \<times> string option \<times> json) list \<Rightarrow> error + db" where
  "update_row d table key ary =
     (if ary = [] then Inl (Failure ''syntax error at or near WHERE'')
      else Inr (d\<lparr>rows := map (\<lambda>r. if table \<in> set (tables r) \<and> Some (pk r) = key
                                     then r\<lparr>cols := foldl (\<lambda>m a. set_col a m) (cols r) ary\<rparr>
                                     else r) (rows d)\<rparr>))"

text \<open>
  \<open>afterUpdate\<close>, \<open>afterSelectUpdated\<close>, \<open>doUnlock\<close> and \<open>done\<close> of
  \<open>doUpdate\<close>: a child is done; otherwise the record is selected again,
  the change is logged, the lock of the record is cleared and the patch
  between the cached request and the record is returned.
\<close>

definition afterUpdate ::
  "'p env \<Rightarrow> db \<Rightarrow> feather \<Rightarrow> 'p update_req \<Rightarrow> members \<Rightarrow> json option \<Rightarrow> bool
     \<Rightarrow> error + ('p reply \<times> db)" where
  "afterUpdate env d feather obj oldRec cacheRec is_child =
     (if is_child then Inr (Nothing, d)
      else
        (case doSelect env d
                \<lparr>sel_name = f_name feather, sel_id = Some (JStr (upd_id obj)),
                 sel_showDeleted = False, sel_properties = None, sel_sanitize = True,
                 sel_filter = None, sel_subscription = None\<rparr> False None of
           Inl e \<Rightarrow> Inl e
         | Inr (result, d1) \<Rightarrow>
             (case compare_docs env (Some (JObj oldRec)) result of
                Inl e \<Rightarrow> Inl e
              | Inr change \<Rightarrow>
                  (case log_insert env d1
                          [(''objectId'', JStr (upd_id obj)),
                           (''action'', JStr ''PATCH''),
                           (''created'', now env),
                           (''createdBy'', JStr (currentUser env)),
                           (''updated'', now env),
                           (''updatedBy'', JStr (currentUser env)),
                           (''change'', JStr (patch_text env change))] of
                     Inl e \<Rightarrow> Inl e
                   | Inr d2 \<Rightarrow>
                       (case unlock d2 \<lparr>crit_id = Some (upd_id obj), crit_username = None,
                                        crit_eventKey = None, crit_nodeId = None\<rparr> of
                          Inl e \<Rightarrow> Inl e
                        | Inr (ids, d3) \<Rightarrow>
                            (case result of
                               Some (JObj res) \<Rightarrow>
                                 (case compare_docs env cacheRec (Some (JObj (put ''lock'' JNull res))) of
                                    Inl e \<Rightarrow> Inl e
                                  | Inr changes \<Rightarrow> Inr (Changes changes, d3))
                             | _ \<Rightarrow> Inl Uncovered))))))"

text \<open>
  The checks of \<open>afterDoSelect\<close> on the record to write, the probe for a
  natural key that has changed, the loop over the properties and the
  \<open>UPDATE\<close>.
\<close>

definition write_update ::
  "'p env \<Rightarrow> db \<Rightarrow> feather \<Rightarrow> nat option \<Rightarrow> members \<Rightarrow> members \<Rightarrow> error + db" where
  "write_update env d feather key updRec oldRec =
     (case find (\<lambda>kp. isRequired (snd kp) \<and> get updRec (fst kp) = Some JNull)
                (properties feather) of
        Some (k, prp) \<Rightarrow> Inl (Rejected (dq @ k @ dq @ '' is required.''))
      | None \<Rightarrow>
          (case (case find (\<lambda>kp. isNaturalKey (snd kp) \<and> differs updRec oldRec (fst kp))
                           (properties feather) of
                   None \<Rightarrow> Inr ()
                 | Some (k, prp) \<Rightarrow> probe env d feather k prp (get updRec k)) of
             Inl e \<Rightarrow> Inl e
           | Inr u \<Rightarrow>
               (case nextProp (toSnakeCase env) updRec oldRec (properties feather) [] of
                  Inl e \<Rightarrow> Inl e
                | Inr ary \<Rightarrow> update_row d (toSnakeCase env (f_name feather)) key ary)))"

text \<open>
  The record that \<open>afterDoSelect\<close> writes: the patched record with the
  values that may not be updated directly put back and, when the feather has
  the property \<open>etag\<close>, with a new id in it.
\<close>

definition revert :: "'p env \<Rightarrow> members \<Rightarrow> members \<Rightarrow> members" where
  "revert env newRec oldRec =
     assign ''lock'' (get oldRec ''lock'')
       (put ''isDeleted'' (JBool False)
         (put ''updatedBy'' (JStr (currentUser env))
           (put ''updated'' (now env)
             (assign ''createdBy'' (get oldRec ''createdBy'')
               (assign ''created'' (get oldRec ''created'') newRec)))))"

definition stamp :: "'p env \<Rightarrow> db \<Rightarrow> feather \<Rightarrow> members \<Rightarrow> members \<times> db" where
  "stamp env d feather updRec =
     (if map_of (properties feather) ''etag'' = None then (updRec, d)
      else (case draw_id env d of (i, d') \<Rightarrow> (put ''etag'' (JStr i) updRec, d')))"

text \<open>
  \<open>afterDoSelect\<close> of \<open>doUpdate\<close>. The test for the lock comes first in
  the source and reads \<open>oldRec\<close>, which is assigned only after it: at the
  test the variable is \<open>undefined\<close>. \<open>JSON.stringify\<close> of a record that
  was not found is \<open>undefined\<close>, which \<open>JSON.parse\<close> does not take.
\<close>

definition afterDoSelect ::
  "'p env \<Rightarrow> db \<Rightarrow> feather \<Rightarrow> 'p update_req \<Rightarrow> nat option \<Rightarrow> json option \<Rightarrow> bool
     \<Rightarrow> error + ('p reply \<times> db)" where
  "afterDoSelect env d feather obj key resp is_child =
     (if locked_out None (upd_eventkey obj) then Inl (Failure (locked_by None))
      else
        (case resp of
           None \<Rightarrow> Inl SyntaxError
         | Some r \<Rightarrow>
             (case sanitize (toCamelCase env) r of
                Inl e \<Rightarrow> Inl e
              | Inr (JObj oldRec) \<Rightarrow>
                  if oldRec = [] \<or> truthy_opt (get oldRec ''isDeleted'') then Inr (Answer False, d)
                  else
                    (case applyPatch env (JObj oldRec) (upd_data obj) of
                       Inl e \<Rightarrow> Inl e
                     | Inr (JObj newRec) \<Rightarrow>
                         (case (case upd_cache obj of
                                  None \<Rightarrow> Inr None
                                | Some c \<Rightarrow>
                                    (case applyPatch env (JObj oldRec) c of
                                       Inl e \<Rightarrow> Inl e
                                     | Inr cr \<Rightarrow> Inr (Some cr))) of
                            Inl e \<Rightarrow> Inl e
                          | Inr cacheRec \<Rightarrow>
                              (case stamp env d feather (revert env newRec oldRec) of
                                 (updRec, d1) \<Rightarrow>
                                   (case write_update env d1 feather key updRec oldRec of
                                      Inl e \<Rightarrow> Inl e
                                    | Inr d2 \<Rightarrow>
                                        afterUpdate env d2 feather obj oldRec cacheRec is_child)))
                     | Inr v \<Rightarrow> Inl Uncovered)
              | Inr v \<Rightarrow> Inl Uncovered)))"

text \<open>
  \<open>crud.doUpdate(obj, isChild, isSuperUser)\<close>: an empty patch resolves to
  an empty array at once.
\<close>

definition doUpdate ::
  "'p env \<Rightarrow> db \<Rightarrow> 'p update_req \<Rightarrow> bool \<Rightarrow> bool option \<Rightarrow> error + ('p reply \<times> db)" where
  "doUpdate env d obj is_child isSuperUser =
     (if upd_data obj = [] then Inr (Changes [], d)
      else
        (case catalog d (upd_name obj) of
           None \<Rightarrow> Inl (Rejected (''Feather '' @ dq @ upd_name obj @ dq @ '' not found.''))
         | Some feather \<Rightarrow>
             if \<not> is_child \<and> isChild feather
             then Inl (Rejected ''Can not directly update a child class'')
             else if isSuperUser = Some False \<and>
                     \<not> isAuthorized env (currentUser env) ''canUpdate'' (upd_id obj)
             then Inl (Rejected (''Not authorized to update '' @ dq @ upd_id obj @ dq))
             else
               (case getKey env d None (Some (JStr (upd_id obj))) False None of
                  Inl e \<Rightarrow> Inl e
                | Inr key \<Rightarrow>
                    (case doSelect env d
                            \<lparr>sel_name = upd_name obj, sel_id = Some (JStr (upd_id obj)),
                             sel_showDeleted = False,
                             sel_properties = Some (map fst (properties feather)),
                             sel_sanitize = False, sel_filter = None,
                             sel_subscription = None\<rparr> is_child None of
                       Inl e \<Rightarrow> Inl e
                     | Inr (resp, d1) \<Rightarrow> afterDoSelect env d1 feather obj key resp is_child))))"

section \<open>The request pipeline: doUpsert\<close>

datatype 'p body = Data json | Patch "'p list"

record 'p request =
  req_method :: string
  req_name :: string
  req_id :: "string option"
  req_data :: "'p body option"

text \<open>
  \<open>doUpsert\<close> of \<open>request\<close>, which \<open>doRequest\<close> runs for a \<open>POST\<close>
  that carries an id, before the triggers and the query: the record of the id
  is selected with the rights of the request; when there is one, the data is
  laid over it, the method becomes \<open>PATCH\<close> and the data becomes the patch
  from the record to the overlaid data; when there is none, the id is put
  into the data. A request without data throws on the first member access;
  data that is not an object is not covered.
\<close>

definition doUpsert ::
  "'p env \<Rightarrow> db \<Rightarrow> 'p request \<Rightarrow> bool \<Rightarrow> error + ('p request \<times> db)" where
  "doUpsert env d obj isSuperUser =
     (case doSelect env d
             \<lparr>sel_name = req_name obj, sel_id = map_option JStr (req_id obj),
              sel_showDeleted = False, sel_properties = None, sel_sanitize = True,
              sel_filter = None, sel_subscription = None\<rparr> False (Some isSuperUser) of
        Inl e \<Rightarrow> Inl e
      | Inr (Some resp, d') \<Rightarrow>
          (case req_data obj of
             None \<Rightarrow> Inl TypeError
           | Some (Patch ps) \<Rightarrow> Inl Uncovered
           | Some (Data newRec) \<Rightarrow>
               (case overlay newRec resp of
                  Inl e \<Rightarrow> Inl e
                | Inr newRec' \<Rightarrow>
                    Inr (obj\<lparr>req_method := ''PATCH'',
                             req_data := Some (Patch (compare env (Some resp) (Some newRec')))\<rparr>,
                         d')))
      | Inr (None, d') \<Rightarrow>
          (case req_data obj of
             None \<Rightarrow> Inl TypeError
           | Some (Data (JObj kvs)) \<Rightarrow>
               Inr (obj\<lparr>req_data := Some (Data (JObj (assign ''id'' (map_option JStr (req_id obj)) kvs)))\<rparr>,
                    d')
           | Some (Data JNull) \<Rightarrow> Inl TypeError
           | Some v \<Rightarrow> Inl Uncovered))"


section \<open>An environment for closed examples\<close>

text \<open>
  The examples stand for a patch by the operations they need: the
  replacement of a member of the record, and the patch between two documents,
  which applied to any document gives the second one. Two equal documents
  have the empty patch between them.
\<close>

datatype example_patch = Replace string json | Between "json option" "json option"

fun example_apply :: "json \<Rightarrow> example_patch list \<Rightarrow> error + json" where
  "example_apply doc [] = Inr doc"
| "example_apply (JObj kvs) (Replace k v # ps) = example_apply (JObj (put k v kvs)) ps"
| "example_apply doc (Replace k v # ps) = Inl (Failure ''OPERATION_PATH_UNRESOLVABLE'')"
| "example_apply doc (Between a (Some b) # ps) = example_apply b ps"
| "example_apply doc (Between a None # ps) = Inl (Failure ''OPERATION_VALUE_REQUIRED'')"

definition example_less :: "json \<Rightarrow> json \<Rightarrow> bool" where
  "example_less a b = (case (a, b) of (JNum x, JNum y) \<Rightarrow> x < y | _ \<Rightarrow> False)"

definition example_env :: "example_patch env" where
  "example_env =
     \<lparr>toSnakeCase = snake_case,
      toCamelCase = camel_case,
      toName = display_name,
      pad = (\<lambda>n len. replicate (len - length (show_nat n)) (CHR ''0'') @ show_nat n),
      createId = (\<lambda>n. ''id'' @ show_nat n),
      now = JStr ''2019-05-01T12:00:00.000Z'',
      named_default = (\<lambda>name. if name = ''now'' then Some (JStr ''2019-05-01T12:00:00.000Z'')
                               else None),
      applyPatch = example_apply,
      compare = (\<lambda>a b. if a = b then [] else [Between a b]),
      patch_text = (\<lambda>ps. ''[...]''),
      isAuthorized = (\<lambda>user action target. True),
      currentUser = ''admin'',
      pg_operator = (\<lambda>op a b. False),
      pg_less = example_less,
      granted = (\<lambda>user action key. True)\<rparr>"

text \<open>
  The feathers of the examples: \<open>Contact\<close>, with the natural key
  \<open>lastName\<close>, and \<open>Log\<close>; both inherit the properties of \<open>Object\<close>.
\<close>

definition scalar :: "string \<Rightarrow> property" where
  "scalar t =
     \<lparr>p_type = t, p_format = None, p_default = None, isRequired = False,
      isNaturalKey = False, isReadOnly = False, p_autonumber = None, p_alias = None,
      inheritedFrom = None\<rparr>"

definition object_properties :: "(string \<times> property) list" where
  "object_properties =
     map (\<lambda>kp. (fst kp, (snd kp)\<lparr>inheritedFrom := Some ''Object''\<rparr>))
       [(''id'', scalar ''string''),
        (''created'', (scalar ''string'')\<lparr>p_format := Some ''dateTime''\<rparr>),
        (''createdBy'', scalar ''string''),
        (''updated'', (scalar ''string'')\<lparr>p_format := Some ''dateTime''\<rparr>),
        (''updatedBy'', scalar ''string''),
        (''isDeleted'', scalar ''boolean''),
        (''lock'', (scalar ''object'')\<lparr>p_format := Some ''lock''\<rparr>),
        (''etag'', scalar ''string'')]"

definition contact_feather :: feather where
  "contact_feather =
     \<lparr>f_name = ''Contact'', ancestors = [''Contact'', ''Object''], isChild = False,
      properties = object_properties @
        [(''firstName'', scalar ''string''),
         (''lastName'', (scalar ''string'')\<lparr>isNaturalKey := True\<rparr>)]\<rparr>"

definition log_feather :: feather where
  "log_feather =
     \<lparr>f_name = ''Log'', ancestors = [''Log'', ''Object''], isChild = False,
      properties = object_properties @
        [(''objectId'', scalar ''string''),
         (''action'', scalar ''string''),
         (''change'', scalar ''object'')]\<rparr>"

definition example_catalog :: "string \<Rightarrow> feather option" where
  "example_catalog n =
     (if n = ''Contact'' then Some contact_feather
      else if n = ''Log'' then Some log_feather else None)"

text \<open>
  The rows of the examples: Ada Lovelace, Charles Babbage, who is deleted,
  and Grace Hopper, whose record is locked by eve with the event key k1.
\<close>

definition contact_row ::
  "nat \<Rightarrow> string \<Rightarrow> string \<Rightarrow> string \<Rightarrow> bool \<Rightarrow> json \<Rightarrow> string \<Rightarrow> row" where
  "contact_row key ident firstName lastName deleted lck tag =
     \<lparr>pk = key, tables = [''contact'', ''object''],
      cols = [(''id'', JStr ident),
              (''created'', JStr ''2019-01-01T00:00:00.000Z''),
              (''created_by'', JStr ''admin''),
              (''updated'', JStr ''2019-01-01T00:00:00.000Z''),
              (''updated_by'', JStr ''admin''),
              (''is_deleted'', JBool deleted),
              (''lock'', lck),
              (''etag'', JStr tag),
              (''first_name'', JStr firstName),
              (''last_name'', JStr lastName)]\<rparr>"

definition example_db :: db where
  "example_db =
     \<lparr>rows = [contact_row 1 ''ada'' ''Ada'' ''Lovelace'' False JNull ''e1'',
              contact_row 2 ''bob'' ''Charles'' ''Babbage'' True JNull ''e2'',
              contact_row 3 ''cat'' ''Grace'' ''Hopper'' False
                (JObj [(''username'', JStr ''eve''),
                       (''created'', JStr ''2019-04-30T08:00:00.000Z''),
                       (''_nodeid'', JStr ''n1''),
                       (''_eventkey'', JStr ''k1'')]) ''e3''],
      pk_seq = 3,
      sequences = (\<lambda>sq. 0),
      catalog = example_catalog,
      subscriptions = [(''n1'', ''s1'', ''sub1'', ''contact'')],
      ids_drawn = 0\<rparr>"

section \<open>Properties of sanitize\<close>

lemma merge_keys_simps [simp]:
  "merge_keys acc [] = acc"
  "merge_keys acc (p # ps) = merge_keys (put (fst p) (snd p) acc) ps"
  by (simp_all add: merge_keys_def)

lemma spec_scalar: "\<not> is_object v \<Longrightarrow> sanitize_spec cc v = v"
  by (cases v) auto

lemma sanitize_refines_aux:
  "(regular v \<longrightarrow> sanitize cc v = Inr (sanitize_spec cc v))"
  "(list_all regular_item xs \<longrightarrow> sanitize_ary cc xs = Inr (map (sanitize_spec cc) xs))"
  "(regular_item w \<longrightarrow> sanitize_item cc w = Inr (sanitize_spec cc w))"
  "(list_all (\<lambda>p. internal (fst p) \<or> \<not> is_object (snd p) \<or> regular (snd p)) kvs \<longrightarrow>
     sanitize_keys cc kvs acc =
       Inr (merge_keys acc (map (\<lambda>p. (cc (fst p), sanitize_spec cc (snd p)))
                               (filter (\<lambda>p. \<not> internal (fst p)) kvs))))"
  "sanitize_idx cc i vs acc2 = sanitize_idx cc i vs acc2"
proof (induction cc v and cc xs and cc w and cc kvs acc and cc i vs acc2
       rule: sanitize_sanitize_ary_sanitize_item_sanitize_keys_sanitize_idx.induct)
  case (1 cc xs)
  then show ?case by (auto simp: regular_item_def[abs_def])
next
  case (6 cc kvs)
  then show ?case by (auto simp: regular_item_def)
next
  case (8 cc x xs)
  then show ?case by auto
next
  case (13 cc kvs)
  then show ?case by (auto simp: regular_item_def)
next
  case (16 cc oKey v kvs newObj)
  then show ?case by (auto simp: spec_scalar)
qed (auto simp: regular_item_def)

text \<open>
  Claim C8, as the code has it. On every input that is a string, an object or
  an array of strings and objects, and whose nested objects and arrays under
  the keys that are kept are of that form too, \<open>sanitize\<close> returns the
  structure the specification describes: the members whose key begins with an
  underscore are dropped, the other keys are converted, nested objects and
  arrays are sanitized in the same way, arrays element by element, and
  strings are returned unchanged.
\<close>

theorem sanitize_regular:
  "regular v \<Longrightarrow> sanitize cc v = Inr (sanitize_spec cc v)"
  using sanitize_refines_aux(1) by blast

theorem sanitize_regular_witness:
  "regular (JArr [JObj [(''_pk'', JNum 7), (''last_name'', JStr ''Lovelace''),
                        (''lock'', JObj [(''username'', JStr ''ada''), (''_eventkey'', JStr ''k'')]),
                        (''tags'', JArr [JStr ''x''])], JStr ''s''])
   \<and> sanitize camel_case
        (JArr [JObj [(''_pk'', JNum 7), (''last_name'', JStr ''Lovelace''),
                        (''lock'', JObj [(''username'', JStr ''ada''), (''_eventkey'', JStr ''k'')]),
                        (''tags'', JArr [JStr ''x''])], JStr ''s''])
     = Inr (JArr [JObj [(''lastName'', JStr ''Lovelace''),
                        (''lock'', JObj [(''username'', JStr ''ada'')]),
                        (''tags'', JArr [JStr ''x''])], JStr ''s''])"
proof -
  let ?v = "JArr [JObj [(''_pk'', JNum 7), (''last_name'', JStr ''Lovelace''),
                        (''lock'', JObj [(''username'', JStr ''ada''), (''_eventkey'', JStr ''k'')]),
                        (''tags'', JArr [JStr ''x''])], JStr ''s'']"
  have h: "regular ?v" by (simp add: internal_def)
  have "sanitize_spec camel_case ?v = JArr [JObj [(''lastName'', JStr ''Lovelace''),
                        (''lock'', JObj [(''username'', JStr ''ada'')]),
                        (''tags'', JArr [JStr ''x''])], JStr ''s'']"
    by code_simp
  with h sanitize_regular [OF h, of camel_case] show ?thesis by simp
qed

text \<open>
  The claim does not hold for every input: on \<open>null\<close> the function throws
  a TypeError, a number in an array becomes an empty object where the
  specification's reading returns it unchanged, and an array nested in an
  array becomes an object keyed by the indices.
\<close>

theorem sanitize_every_input_counterexample:
  "sanitize camel_case JNull = Inl TypeError
   \<and> sanitize camel_case (JArr [JNum 7, JStr ''a'']) = Inr (JArr [JObj [], JStr ''a''])
   \<and> sanitize_spec camel_case (JArr [JNum 7, JStr ''a'']) = JArr [JNum 7, JStr ''a'']
   \<and> sanitize camel_case (JObj [(''rows'', JArr [JArr [JStr ''a'']])])
       = Inr (JObj [(''rows'', JArr [JObj [(''0'', JStr ''a'')]])])"
  by code_simp


section \<open>Properties of getKeys and processSort\<close>

lemma criterion_part_null:
  "c_property w = Prop col \<Longrightarrow> c_operator w = None \<Longrightarrow> c_value w = Some JNull \<Longrightarrow>
   criterion_part sc w b = (Inl TypeError, w)"
  by (simp add: criterion_part_def ops_def)

text \<open>
  Claim C7 says that a criterion whose value is null, with the default
  operator and a single property, is compiled to an \<open>IS NULL\<close> comparison and
  that the request does not fail. The code evaluates \<open>where.value.id\<close> on
  the null value: \<open>getKeys\<close> is rejected with a TypeError, whatever the rows
  are.
\<close>

theorem getKeys_null_value_rejects:
  assumes "k_filter obj = Some f" and "f_criteria f = Some (w # ws)"
    and "c_property w = Prop col" and "c_operator w = None" and "c_value w = Some JNull"
  shows "fst (getKeys env d obj isSuperUser) = Inl TypeError"
  using assms
  by (simp add: getKeys_def getKeys_query_def buildAuthSql_def criterion_part_null
           split: prod.splits sum.splits)

theorem getKeys_null_value_rejects_witness:
  "k_filter \<lparr>k_name = ''Contact'',
             k_filter = Some \<lparr>f_criteria = Some [\<lparr>c_property = Prop ''lastName'', c_operator = None,
                                                     c_value = Some JNull\<rparr>],
                               f_sort = None, f_offset = None, f_limit = None\<rparr>,
             k_showDeleted = False\<rparr>
     = Some \<lparr>f_criteria = Some [\<lparr>c_property = Prop ''lastName'', c_operator = None,
                                   c_value = Some JNull\<rparr>],
             f_sort = None, f_offset = None, f_limit = None\<rparr>
   \<and> fst (getKeys example_env example_db
            \<lparr>k_name = ''Contact'',
             k_filter = Some \<lparr>f_criteria = Some [\<lparr>c_property = Prop ''lastName'', c_operator = None,
                                                     c_value = Some JNull\<rparr>],
                               f_sort = None, f_offset = None, f_limit = None\<rparr>,
             k_showDeleted = False\<rparr> (Some False)) = Inl TypeError"
  using getKeys_null_value_rejects
    [of "\<lparr>k_name = ''Contact'',
             k_filter = Some \<lparr>f_criteria = Some [\<lparr>c_property = Prop ''lastName'', c_operator = None,
                                                     c_value = Some JNull\<rparr>],
                               f_sort = None, f_offset = None, f_limit = None\<rparr>,
             k_showDeleted = False\<rparr>"
        "\<lparr>f_criteria = Some [\<lparr>c_property = Prop ''lastName'', c_operator = None,
                                   c_value = Some JNull\<rparr>],
             f_sort = None, f_offset = None, f_limit = None\<rparr>"
        "\<lparr>c_property = Prop ''lastName'', c_operator = None, c_value = Some JNull\<rparr>"
        "[]" "''lastName''" example_env example_db "Some False"]
  by simp

lemma snd_processSort: "snd (processSort sc sorts tokens) = sorts @ [pk_entry]"
  by (simp add: processSort_def Let_def split: sum.splits prod.splits)

lemma resolvePath_tokens:
  "resolvePath sc col tokens = (fst (resolvePath sc col []), tokens @ path_of sc col)"
proof (induction sc col tokens rule: resolvePath.induct)
  case (1 sc col tokens)
  show ?case
  proof (cases "lastIndexOf_dot col")
    case None
    then show ?thesis by (simp add: path_of_def resolvePath.simps [of sc col])
  next
    case (Some x)
    obtain prefix suffix where x: "x = (prefix, suffix)" by (cases x)
    have ih: "resolvePath sc prefix tokens = (fst (resolvePath sc prefix []), tokens @ path_of sc prefix)"
      using 1 Some x by simp
    have "resolvePath sc col tokens =
            (''('' @ fst (resolvePath sc prefix []) @ '').%I'', tokens @ path_of sc prefix @ [sc suffix])"
      using Some x ih by (subst resolvePath.simps) simp
    moreover have "resolvePath sc col [] =
            (''('' @ fst (resolvePath sc prefix []) @ '').%I'', path_of sc prefix @ [sc suffix])"
      using Some x by (subst resolvePath.simps) (simp add: path_of_def split: prod.splits)
    ultimately show ?thesis by (simp add: path_of_def)
  qed
qed

lemma resolvePath_pk: "resolvePath sc ''_pk'' tokens = (''%I'', tokens @ [sc ''_pk''])"
  by (subst resolvePath.simps) (simp add: lastIndexOf_dot_def)

lemma path_of_pk: "path_of sc ''_pk'' = [sc ''_pk'']"
  by (simp add: path_of_def resolvePath_pk)

lemma direction_pk: "direction pk_entry = ''ASC''"
  by (simp add: direction_def pk_entry_def toUpperCase_def upper_char_def)

lemma sort_loop_result:
  "sort_loop sc es tokens parts ord =
     (if list_all (\<lambda>e. direction e = ''ASC'' \<or> direction e = ''DESC'') es
      then Inr (parts @ map (\<lambda>e. fst (resolvePath sc (s_property e) []) @ '' '' @ direction e) es,
                tokens @ concat (map (\<lambda>e. path_of sc (s_property e)) es),
                ord @ map (\<lambda>e. (path_of sc (s_property e), direction e)) es)
      else Inl (Rejected (''Unknown operator '' @ dq @
                  direction (hd (filter (\<lambda>e. \<not> (direction e = ''ASC'' \<or> direction e = ''DESC'')) es)) @ dq)))"
proof (induction es arbitrary: tokens parts ord)
  case Nil
  then show ?case by simp
next
  case (Cons e es)
  show ?case
    using Cons.IH resolvePath_tokens [of sc "s_property e" tokens]
    by (auto simp: Let_def direction_def split: prod.splits)
qed

lemma criterion_part_accepted:
  "accepted w \<Longrightarrow> \<exists>b1. fst (criterion_part sc w b) = Inr b1"
  unfolding criterion_part_def accepted_def Let_def
  by (cases "c_property w"; cases "c_value w")
     (auto split: json.splits option.splits prod.splits if_splits)

lemma criterion_part_keeps:
  "accepted w \<Longrightarrow> accepted (snd (criterion_part sc w b))"
proof -
  assume a: "accepted w"
  define op where "op = (case c_operator w of None \<Rightarrow> ''='' | Some s \<Rightarrow> if s = [] then ''='' else s)"
  have ops: "op \<in> set ops" using a by (simp add: accepted_def op_def Let_def)
  show ?thesis
  proof (cases "op = ''IN''")
    case True
    then have "snd (criterion_part sc w b) = w"
      using ops unfolding criterion_part_def Let_def op_def [symmetric]
      by (auto split: json.splits option.splits prod.splits prop_ref.splits)
    then show ?thesis using a by simp
  next
    case False
    show ?thesis
    proof (cases "c_property w")
      case (Props names)
      then have "snd (criterion_part sc w b) = w"
        using ops False unfolding criterion_part_def Let_def op_def [symmetric]
        by (auto split: prod.splits)
      then show ?thesis using a by simp
    next
      case (Prop col)
      have *: "\<And>i. truthy i \<Longrightarrow> accepted (w\<lparr>c_property := Prop (col @ ''.id''), c_value := Some i\<rparr>)"
        using ops False by (auto simp: accepted_def Let_def op_def)
      have "snd (criterion_part sc w b) = w \<or>
            (\<exists>i. truthy i \<and> snd (criterion_part sc w b) = w\<lparr>c_property := Prop (col @ ''.id''), c_value := Some i\<rparr>)"
        using ops False Prop unfolding criterion_part_def Let_def op_def [symmetric]
        by (auto split: json.splits option.splits)
      then show ?thesis using a * by auto
    qed
  qed
qed

lemma criteria_loop_accepted:
  "list_all accepted ws \<Longrightarrow>
     \<exists>b1 ws1. criteria_loop sc ws b = (Inr b1, ws1) \<and> list_all accepted ws1"
proof (induction ws arbitrary: b)
  case Nil
  then show ?case by simp
next
  case (Cons w ws)
  then have aw: "accepted w" and aws: "list_all accepted ws" by auto
  obtain b1 where b1: "fst (criterion_part sc w b) = Inr b1"
    using criterion_part_accepted [OF aw] by blast
  define w1 where "w1 = snd (criterion_part sc w b)"
  have p: "criterion_part sc w b = (Inr b1, w1)" using b1 w1_def by (simp add: prod_eq_iff)
  have aw1: "accepted w1" unfolding w1_def by (rule criterion_part_keeps [OF aw])
  obtain b2 ws1 where l: "criteria_loop sc ws b1 = (Inr b2, ws1)" and aws1: "list_all accepted ws1"
    using Cons.IH [OF aws] by blast
  show ?case using p l aw1 aws1 by simp
qed

lemma criterion_part_rejects:
  "\<not> accepted w \<Longrightarrow> \<exists>e. fst (criterion_part sc w b) = Inl e"
  unfolding criterion_part_def accepted_def Let_def
  by (cases "c_property w"; cases "c_value w")
     (auto split: json.splits option.splits prod.splits if_splits)

lemma criteria_loop_success:
  "criteria_loop sc ws b = (Inr b1, ws1) \<Longrightarrow> list_all accepted ws"
proof (induction ws arbitrary: b b1 ws1)
  case Nil
  then show ?case by simp
next
  case (Cons w ws)
  have "accepted w"
  proof (rule ccontr)
    assume "\<not> accepted w"
    then obtain e where "fst (criterion_part sc w b) = Inl e"
      using criterion_part_rejects by blast
    then show False using Cons.prems by (auto split: prod.splits sum.splits)
  qed
  moreover have "list_all accepted ws"
    using Cons.prems Cons.IH by (auto split: prod.splits sum.splits)
  ultimately show ?case by simp
qed

lemma processSort_result:
  "processSort sc sorts tokens =
     (if list_all (\<lambda>e. direction e = ''ASC'' \<or> direction e = ''DESC'') sorts
      then (Inr ('' ORDER BY '' @
                   join '','' (map (\<lambda>e. fst (resolvePath sc (s_property e) []) @ '' '' @ direction e)
                                  (sorts @ [pk_entry])),
                 tokens @ concat (map (\<lambda>e. path_of sc (s_property e)) (sorts @ [pk_entry])),
                 map (\<lambda>e. (path_of sc (s_property e), direction e)) (sorts @ [pk_entry])),
            sorts @ [pk_entry])
      else (Inl (Rejected (''Unknown operator '' @ dq @
                  direction (hd (filter (\<lambda>e. \<not> (direction e = ''ASC'' \<or> direction e = ''DESC''))
                                        (sorts @ [pk_entry]))) @ dq)),
            sorts @ [pk_entry]))"
  by (simp add: processSort_def Let_def sort_loop_result direction_pk)

lemma getKeys_query_success:
  assumes "getKeys_query env obj su = (Inr q, flt')" and "k_filter obj = Some f"
  shows "list_all accepted (case f_criteria f of None \<Rightarrow> [] | Some c \<Rightarrow> c)
       \<and> list_all (\<lambda>e. direction e = ''ASC'' \<or> direction e = ''DESC'')
            (case f_sort f of None \<Rightarrow> [] | Some c \<Rightarrow> c)
       \<and> q_order q = map (\<lambda>e. (path_of (toSnakeCase env) (s_property e), direction e))
                        ((case f_sort f of None \<Rightarrow> [] | Some c \<Rightarrow> c) @ [pk_entry])
       \<and> (\<exists>c'. list_all accepted c' \<and>
                flt' = after_filter (Some f) c' ((case f_sort f of None \<Rightarrow> [] | Some c \<Rightarrow> c) @ [pk_entry]))"
proof -
  let ?sc = "toSnakeCase env"
  let ?crit = "case f_criteria f of None \<Rightarrow> [] | Some c \<Rightarrow> c"
  let ?srt = "case f_sort f of None \<Rightarrow> [] | Some c \<Rightarrow> c"
  define b0 where "b0 = \<lparr>b_tokens = (if su = Some False then [?sc (k_name obj)] @ replicate 7 (?sc (k_name obj)) else [?sc (k_name obj)]),
                        b_params = (if su = Some False then [Some (JStr (currentUser env))] else []),
                        b_parts = [], b_conds = [],
                        b_p = (if su = Some False then 2 else 1)\<rparr>"
  obtain r c' where l: "criteria_loop ?sc ?crit b0 = (r, c')" by (cases "criteria_loop ?sc ?crit b0")
  have r: "\<exists>b. r = Inr b"
    using assms l unfolding getKeys_query_def Let_def buildAuthSql_def b0_def
    by (cases r) (auto split: if_splits)
  then obtain b where rb: "r = Inr b" by blast
  have acc: "list_all accepted ?crit" using l rb criteria_loop_success by blast
  have acc': "list_all accepted c'"
    using criteria_loop_accepted [OF acc, of ?sc b0] l rb by auto
  have rest: "list_all (\<lambda>e. direction e = ''ASC'' \<or> direction e = ''DESC'') ?srt
       \<and> q_order q = map (\<lambda>e. (path_of ?sc (s_property e), direction e)) (?srt @ [pk_entry])
       \<and> flt' = after_filter (Some f) c' (?srt @ [pk_entry])"
    using assms l rb unfolding getKeys_query_def Let_def buildAuthSql_def b0_def
    by (auto simp: processSort_result split: if_splits)
  show ?thesis using acc acc' rest by blast
qed

lemma getKeys_query_succeeds:
  assumes "k_filter obj = Some f"
    and "list_all accepted (case f_criteria f of None \<Rightarrow> [] | Some c \<Rightarrow> c)"
    and "list_all (\<lambda>e. direction e = ''ASC'' \<or> direction e = ''DESC'')
            (case f_sort f of None \<Rightarrow> [] | Some c \<Rightarrow> c)"
  shows "\<exists>q flt'. getKeys_query env obj su = (Inr q, flt')"
proof -
  let ?sc = "toSnakeCase env"
  let ?crit = "case f_criteria f of None \<Rightarrow> [] | Some c \<Rightarrow> c"
  define b0 where "b0 = \<lparr>b_tokens = (if su = Some False then [?sc (k_name obj)] @ replicate 7 (?sc (k_name obj)) else [?sc (k_name obj)]),
                        b_params = (if su = Some False then [Some (JStr (currentUser env))] else []),
                        b_parts = [], b_conds = [],
                        b_p = (if su = Some False then 2 else 1)\<rparr>"
  obtain b c' where l: "criteria_loop ?sc ?crit b0 = (Inr b, c')"
    using criteria_loop_accepted [OF assms(2), of ?sc b0] by blast
  show ?thesis
    using assms(1,3) l unfolding getKeys_query_def Let_def buildAuthSql_def b0_def
    by (auto simp: processSort_result split: if_splits)
qed

lemma s_property_pk: "s_property pk_entry = ''_pk''"
  by (simp add: pk_entry_def)

text \<open>
  Claim C10. \<open>processSort\<close> appends the entry for the primary key to the
  array it is given, whether it returns or throws. Called on an empty array
  it returns one tiebreaker, called again on the array it left it returns
  two. In \<open>getKeys\<close> the array is \<open>filter.sort\<close> of the caller when the
  filter has one: after a call that built its query the filter's array has
  one entry more, and a second call with the same filter object builds a
  query whose ordering is that of the first call followed by one more
  tiebreaker.
\<close>

theorem processSort_extends_sort:
  "snd (processSort sc sorts tokens) = sorts @ [pk_entry]
   \<and> fst (processSort sc [] tokens)
       = Inr ('' ORDER BY %I ASC'', tokens @ [sc ''_pk''], [([sc ''_pk''], ''ASC'')])
   \<and> fst (processSort sc (snd (processSort sc [] tokens)) tokens)
       = Inr ('' ORDER BY %I ASC,%I ASC'', tokens @ [sc ''_pk'', sc ''_pk''],
              [([sc ''_pk''], ''ASC''), ([sc ''_pk''], ''ASC'')])
   \<and> (k_filter obj = Some f \<and> f_sort f = Some s \<and> getKeys_query env obj su = (Inr q, flt')
        \<longrightarrow> (\<exists>f'. flt' = Some f' \<and> f_sort f' = Some (s @ [pk_entry])
              \<and> (\<exists>q2 f2. getKeys_query env (obj\<lparr>k_filter := flt'\<rparr>) su = (Inr q2, Some f2)
                    \<and> f_sort f2 = Some (s @ [pk_entry, pk_entry])
                    \<and> q_order q2 = q_order q @ [([toSnakeCase env ''_pk''], ''ASC'')]
                    \<and> (\<exists>ord. q_order q = ord @ [([toSnakeCase env ''_pk''], ''ASC'')]))))"
proof (intro conjI impI)
  show "snd (processSort sc sorts tokens) = sorts @ [pk_entry]"
    by (simp add: processSort_result)
  show "fst (processSort sc [] tokens)
       = Inr ('' ORDER BY %I ASC'', tokens @ [sc ''_pk''], [([sc ''_pk''], ''ASC'')])"
    by (simp add: processSort_result direction_pk path_of_pk resolvePath_pk s_property_pk)
  show "fst (processSort sc (snd (processSort sc [] tokens)) tokens)
       = Inr ('' ORDER BY %I ASC,%I ASC'', tokens @ [sc ''_pk'', sc ''_pk''],
              [([sc ''_pk''], ''ASC''), ([sc ''_pk''], ''ASC'')])"
    by (simp add: processSort_result direction_pk path_of_pk resolvePath_pk s_property_pk)
next
  assume a: "k_filter obj = Some f \<and> f_sort f = Some s \<and> getKeys_query env obj su = (Inr q, flt')"
  let ?sc = "toSnakeCase env"
  from a have kf: "k_filter obj = Some f" and fs: "f_sort f = Some s"
    and g: "getKeys_query env obj su = (Inr q, flt')" by auto
  from getKeys_query_success [OF g kf] fs
  obtain c' where dirs: "list_all (\<lambda>e. direction e = ''ASC'' \<or> direction e = ''DESC'') s"
    and qo: "q_order q = map (\<lambda>e. (path_of ?sc (s_property e), direction e)) (s @ [pk_entry])"
    and acc': "list_all accepted c'"
    and flt': "flt' = after_filter (Some f) c' (s @ [pk_entry])"
    by auto
  define f' where "f' = f\<lparr>f_criteria := (case f_criteria f of None \<Rightarrow> None | Some c \<Rightarrow> Some c'),
                          f_sort := Some (s @ [pk_entry])\<rparr>"
  have ff: "flt' = Some f'" using flt' fs by (simp add: after_filter_def f'_def)
  have fs': "f_sort f' = Some (s @ [pk_entry])" by (simp add: f'_def)
  have acc2: "list_all accepted (case f_criteria f' of None \<Rightarrow> [] | Some c \<Rightarrow> c)"
    using acc' by (simp add: f'_def split: option.splits)
  have dirs2: "list_all (\<lambda>e. direction e = ''ASC'' \<or> direction e = ''DESC'')
            (case f_sort f' of None \<Rightarrow> [] | Some c \<Rightarrow> c)"
    using dirs by (simp add: f'_def direction_pk)
  have k2: "k_filter (obj\<lparr>k_filter := flt'\<rparr>) = Some f'" using ff by simp
  obtain q2 flt2 where g2: "getKeys_query env (obj\<lparr>k_filter := flt'\<rparr>) su = (Inr q2, flt2)"
    using getKeys_query_succeeds [OF k2 acc2 dirs2] by blast
  from getKeys_query_success [OF g2 k2] fs'
  obtain c2 where qo2: "q_order q2 = map (\<lambda>e. (path_of ?sc (s_property e), direction e))
                                       ((s @ [pk_entry]) @ [pk_entry])"
    and flt2: "flt2 = after_filter (Some f') c2 ((s @ [pk_entry]) @ [pk_entry])"
    by auto
  define f2 where "f2 = f'\<lparr>f_criteria := (case f_criteria f' of None \<Rightarrow> None | Some c \<Rightarrow> Some c2),
                          f_sort := Some (s @ [pk_entry, pk_entry])\<rparr>"
  have f2: "flt2 = Some f2" using flt2 fs' by (simp add: after_filter_def f2_def)
  have "q_order q2 = q_order q @ [([?sc ''_pk''], ''ASC'')]"
    using qo qo2 by (simp add: direction_pk path_of_pk s_property_pk)
  moreover have "\<exists>ord. q_order q = ord @ [([?sc ''_pk''], ''ASC'')]"
    using qo by (simp add: direction_pk path_of_pk s_property_pk)
  moreover have "f_sort f2 = Some (s @ [pk_entry, pk_entry])" by (simp add: f2_def)
  ultimately show "\<exists>f'. flt' = Some f' \<and> f_sort f' = Some (s @ [pk_entry])
              \<and> (\<exists>q2 f2. getKeys_query env (obj\<lparr>k_filter := flt'\<rparr>) su = (Inr q2, Some f2)
                    \<and> f_sort f2 = Some (s @ [pk_entry, pk_entry])
                    \<and> q_order q2 = q_order q @ [([toSnakeCase env ''_pk''], ''ASC'')]
                    \<and> (\<exists>ord. q_order q = ord @ [([toSnakeCase env ''_pk''], ''ASC'')]))"
    using ff fs' g2 f2 by blast
qed

theorem processSort_extends_sort_witness:
  "k_filter \<lparr>k_name = ''Contact'',
             k_filter = Some \<lparr>f_criteria = None,
                               f_sort = Some [\<lparr>s_property = ''lastName'', s_order = Some ''desc''\<rparr>],
                               f_offset = None, f_limit = None\<rparr>,
             k_showDeleted = False\<rparr>
     = Some \<lparr>f_criteria = None,
             f_sort = Some [\<lparr>s_property = ''lastName'', s_order = Some ''desc''\<rparr>],
             f_offset = None, f_limit = None\<rparr>
   \<and> (\<exists>q f'. getKeys_query example_env
                 \<lparr>k_name = ''Contact'',
                  k_filter = Some \<lparr>f_criteria = None,
                                    f_sort = Some [\<lparr>s_property = ''lastName'', s_order = Some ''desc''\<rparr>],
                                    f_offset = None, f_limit = None\<rparr>,
                  k_showDeleted = False\<rparr> None = (Inr q, Some f')
          \<and> f_sort f' = Some [\<lparr>s_property = ''lastName'', s_order = Some ''desc''\<rparr>, pk_entry]
          \<and> (\<exists>q2 f2. getKeys_query example_env
                 \<lparr>k_name = ''Contact'', k_filter = Some f', k_showDeleted = False\<rparr> None
                   = (Inr q2, Some f2)
               \<and> f_sort f2 = Some [\<lparr>s_property = ''lastName'', s_order = Some ''desc''\<rparr>,
                                   pk_entry, pk_entry]
               \<and> q_order q2 = q_order q @ [([''_pk''], ''ASC'')]))"
proof -
  let ?f = "\<lparr>f_criteria = None,
             f_sort = Some [\<lparr>s_property = ''lastName'', s_order = Some ''desc''\<rparr>],
             f_offset = None, f_limit = None\<rparr>"
  let ?obj = "\<lparr>k_name = ''Contact'', k_filter = Some ?f, k_showDeleted = False\<rparr>"
  let ?X = "getKeys_query example_env ?obj None"
  have h: "?X = (Inr (projr (fst ?X)), snd ?X)" by code_simp
  have sc: "toSnakeCase example_env ''_pk'' = ''_pk''" by code_simp
  have "k_filter ?obj = Some ?f \<and> f_sort ?f = Some [\<lparr>s_property = ''lastName'', s_order = Some ''desc''\<rparr>]
        \<and> ?X = (Inr (projr (fst ?X)), snd ?X)"
    using h by simp
  from processSort_extends_sort [THEN conjunct2, THEN conjunct2, THEN conjunct2, rule_format, OF this]
  obtain f' q2 f2 where a: "snd ?X = Some f'"
    and b: "f_sort f' = Some ([\<lparr>s_property = ''lastName'', s_order = Some ''desc''\<rparr>] @ [pk_entry])"
    and c: "getKeys_query example_env (?obj\<lparr>k_filter := snd ?X\<rparr>) None = (Inr q2, Some f2)"
    and e: "f_sort f2 = Some ([\<lparr>s_property = ''lastName'', s_order = Some ''desc''\<rparr>] @ [pk_entry, pk_entry])"
    and g: "q_order q2 = q_order (projr (fst ?X)) @ [([toSnakeCase example_env ''_pk''], ''ASC'')]"
    by blast
  have 1: "?X = (Inr (projr (fst ?X)), Some f')" using h a by simp
  have 2: "getKeys_query example_env \<lparr>k_name = ''Contact'', k_filter = Some f', k_showDeleted = False\<rparr> None
             = (Inr q2, Some f2)"
    using c a by simp
  have 3: "q_order q2 = q_order (projr (fst ?X)) @ [([''_pk''], ''ASC'')]" using g sc by simp
  show ?thesis
    apply (rule conjI)
     apply simp
    apply (rule exI [of _ "projr (fst ?X)"])
    apply (rule exI [of _ f'])
    apply (rule conjI)
     apply (rule 1)
    apply (rule conjI)
     using b apply simp
    apply (rule exI [of _ q2])
    apply (rule exI [of _ f2])
    using 2 e 3 apply simp
    done
qed


section \<open>Properties of subscribe\<close>

lemma set_insert_do_nothing: "set (insert_do_nothing r tbl) = insert r (set tbl)"
  by (auto simp: insert_do_nothing_def)

lemma set_fold_insert_do_nothing:
  "set (foldl (\<lambda>tbl target. insert_do_nothing (n, s, i, target) tbl) tbl ids)
     = set tbl \<union> (\<lambda>target. (n, s, i, target)) ` set ids"
  by (induction ids arbitrary: tbl) (auto simp: set_insert_do_nothing)

lemma distinct_insert_do_nothing: "distinct tbl \<Longrightarrow> distinct (insert_do_nothing r tbl)"
  by (auto simp: insert_do_nothing_def)

lemma distinct_fold_insert_do_nothing:
  "distinct tbl \<Longrightarrow> distinct (foldl (\<lambda>tbl target. insert_do_nothing (n, s, i, target) tbl) tbl ids)"
  by (induction ids arbitrary: tbl) (auto simp: distinct_insert_do_nothing)

text \<open>
  Claim C6 says that a row that is there already is ignored without an
  error, for the row of the feather as well as for the rows of the ids. The
  rows of the ids are inserted with \<open>ON CONFLICT DO NOTHING\<close>: the insert
  never fails and the table gains exactly the rows that were missing. The row
  of the table name is inserted without it: with \<open>merge\<close> set, when the row
  of the table name is there, \<open>subscribe\<close> is rejected with the unique
  violation.
\<close>

theorem subscribe_feather_row_not_ignored:
  "(fst (doSubscribe sc d n s i ids None) = Inr ()
    \<and> set (subscriptions (snd (doSubscribe sc d n s i ids None)))
        = set (subscriptions d) \<union> (\<lambda>target. (n, s, i, target)) ` set ids)
   \<and> (nodeId sub = Some n \<and> n \<noteq> [] \<and> sessionId sub = Some s \<and> s \<noteq> [] \<and>
       sub_id sub = Some i \<and> i \<noteq> [] \<and> merge sub \<and> t \<noteq> [] \<and>
       (n, s, i, sc t) \<in> set (subscriptions d)
       \<longrightarrow> fst (subscribe sc d (Some sub) ids (Some t)) = Inl UniqueViolation)"
  by (auto simp: doSubscribe_def subscribe_def present_def Let_def insert_or_fail_def
                 set_fold_insert_do_nothing)

theorem subscribe_feather_row_not_ignored_witness:
  "nodeId \<lparr>nodeId = Some ''n1'', sessionId = Some ''s1'', sub_id = Some ''sub1'', merge = True\<rparr> = Some ''n1''
   \<and> (''n1'', ''s1'', ''sub1'', snake_case ''Contact'') \<in> set (subscriptions example_db)
   \<and> fst (subscribe snake_case example_db
             (Some \<lparr>nodeId = Some ''n1'', sessionId = Some ''s1'', sub_id = Some ''sub1'', merge = True\<rparr>)
             [''ada''] (Some ''Contact'')) = Inl UniqueViolation"
proof -
  have m: "(''n1'', ''s1'', ''sub1'', snake_case ''Contact'') \<in> set (subscriptions example_db)"
    by code_simp
  show ?thesis
    using m subscribe_feather_row_not_ignored
      [of snake_case example_db "''n1''" "''s1''" "''sub1''" "[''ada'']"
          "\<lparr>nodeId = Some ''n1'', sessionId = Some ''s1'', sub_id = Some ''sub1'', merge = True\<rparr>"
          "''Contact''"]
    by simp
qed


section \<open>Properties of the CRUD services\<close>

lemma locked_out_undefined: "locked_out None k = False"
  by (simp add: locked_out_def truthy_opt_def)


section \<open>The rows that a query by value returns\<close>

lemma set_insert_by: "set (insert_by le x xs) = insert x (set xs)"
  by (induction xs) auto

lemma set_sort_rows: "set (sort_rows env ord rs) = set rs"
  unfolding sort_rows_def by (induction rs) (auto simp: set_insert_by)

lemma run_query_set:
  "q_offset q = None \<Longrightarrow> q_limit q = None \<Longrightarrow>
     set (run_query env d q) = pk ` {r \<in> set (rows d). selected env q r}"
  by (auto simp: run_query_def Let_def set_sort_rows)

lemma run_query_subset:
  "set (run_query env d q) \<subseteq> pk ` {r \<in> set (rows d). selected env q r}"
proof -
  let ?found = "sort_rows env (q_order q) (filter (selected env q) (rows d))"
  let ?skipped = "case q_offset q of None \<Rightarrow> ?found | Some n \<Rightarrow> drop n ?found"
  let ?taken = "case q_limit q of None \<Rightarrow> ?skipped | Some n \<Rightarrow> take n ?skipped"
  have 1: "set ?found = {r \<in> set (rows d). selected env q r}"
    by (auto simp: set_sort_rows)
  have 2: "set ?skipped \<subseteq> set ?found"
    by (cases "q_offset q") (auto dest: in_set_dropD)
  have 3: "set ?taken \<subseteq> set ?skipped"
    by (cases "q_limit q") (auto dest: in_set_takeD)
  have "set (run_query env d q) = pk ` set ?taken"
    by (simp add: run_query_def Let_def)
  then show ?thesis using 1 2 3 by blast
qed

lemma path_of_plain: "CHR ''.'' \<notin> set key \<Longrightarrow> path_of sc key = [sc key]"
  by (simp add: path_of_def resolvePath.simps [of sc key] lastIndexOf_dot_def)

lemma resolvePath_plain:
  "CHR ''.'' \<notin> set key \<Longrightarrow> resolvePath sc key tokens = (''%I'', tokens @ [sc key])"
  by (simp add: resolvePath.simps [of sc key] lastIndexOf_dot_def)

lemma criterion_part_scalar:
  "\<not> is_object w \<Longrightarrow> w \<noteq> JNull \<Longrightarrow>
   criterion_part sc \<lparr>c_property = Prop key, c_operator = None, c_value = Some w\<rparr> b
     = (Inr (compare_part sc ''='' key (Some w) b),
        \<lparr>c_property = Prop key, c_operator = None, c_value = Some w\<rparr>)"
  by (cases w) (auto simp: criterion_part_def ops_def)

lemma criterion_part_missing:
  "criterion_part sc \<lparr>c_property = Prop key, c_operator = None, c_value = None\<rparr> b
     = (Inr (compare_part sc ''='' key None b),
        \<lparr>c_property = Prop key, c_operator = None, c_value = None\<rparr>)"
  by (auto simp: criterion_part_def ops_def)


lemma getKeys_query_equals:
  assumes "\<not> is_object w" and "w \<noteq> JNull" and "CHR ''.'' \<notin> set key"
  shows "\<exists>q flt. getKeys_query env
                 \<lparr>k_name = name,
                  k_filter = Some \<lparr>f_criteria = Some [\<lparr>c_property = Prop key, c_operator = None,
                                                          c_value = Some w\<rparr>],
                                    f_sort = None, f_offset = None, f_limit = None\<rparr>,
                  k_showDeleted = sd\<rparr> su = (Inr q, flt)
             \<and> q_table q = toSnakeCase env name \<and> q_live q = (\<not> sd)
             \<and> q_user q = (if su = Some False then Some (currentUser env) else None)
             \<and> q_conds q = [Compare [toSnakeCase env key] ''='' (Some w)]
             \<and> q_offset q = None \<and> q_limit q = None"
  using assms
  by (simp add: getKeys_query_def Let_def buildAuthSql_def criterion_part_scalar
        processSort_result direction_pk compare_part_def resolvePath_plain path_of_plain
        nonzero_def after_filter_def)

lemma getKeys_equals:
  assumes "\<not> is_object w" and "w \<noteq> JNull" and "CHR ''.'' \<notin> set key"
  shows "\<exists>q. fst (getKeys env d
                 \<lparr>k_name = name,
                  k_filter = Some \<lparr>f_criteria = Some [\<lparr>c_property = Prop key, c_operator = None,
                                                          c_value = Some w\<rparr>],
                                    f_sort = None, f_offset = None, f_limit = None\<rparr>,
                  k_showDeleted = sd\<rparr> su) = Inr (run_query env d q)
             \<and> q_table q = toSnakeCase env name \<and> q_live q = (\<not> sd)
             \<and> q_user q = (if su = Some False then Some (currentUser env) else None)
             \<and> q_conds q = [Compare [toSnakeCase env key] ''='' (Some w)]
             \<and> q_offset q = None \<and> q_limit q = None"
proof -
  from getKeys_query_equals [OF assms, of env name sd su]
  obtain q flt where "getKeys_query env
                 \<lparr>k_name = name,
                  k_filter = Some \<lparr>f_criteria = Some [\<lparr>c_property = Prop key, c_operator = None,
                                                          c_value = Some w\<rparr>],
                                    f_sort = None, f_offset = None, f_limit = None\<rparr>,
                  k_showDeleted = sd\<rparr> su = (Inr q, flt)"
     and "q_table q = toSnakeCase env name \<and> q_live q = (\<not> sd)
             \<and> q_user q = (if su = Some False then Some (currentUser env) else None)
             \<and> q_conds q = [Compare [toSnakeCase env key] ''='' (Some w)]
             \<and> q_offset q = None \<and> q_limit q = None"
    by blast
  then show ?thesis by (auto simp: getKeys_def)
qed

lemma sql_compare_equals:
  "w \<noteq> JNull \<Longrightarrow> sql_compare env ''='' (row_path r [c]) (Some w) = (row_col r c = w)"
  by (auto simp: sql_compare_def row_path_def)

lemma getKeys_equals_set:
  assumes "\<not> is_object w" and "w \<noteq> JNull" and "CHR ''.'' \<notin> set key"
  shows "\<exists>keys. fst (getKeys env d
                 \<lparr>k_name = name,
                  k_filter = Some \<lparr>f_criteria = Some [\<lparr>c_property = Prop key, c_operator = None,
                                                          c_value = Some w\<rparr>],
                                    f_sort = None, f_offset = None, f_limit = None\<rparr>,
                  k_showDeleted = sd\<rparr> su) = Inr keys
           \<and> set keys = pk ` {r \<in> set (rows d).
                  toSnakeCase env name \<in> set (tables r) \<and> (if sd then True else live r) \<and>
                  (if su = Some False
                   then granted env (currentUser env) (toSnakeCase env ''canRead'') (pk r) else True) \<and>
                  row_col r (toSnakeCase env key) = w}"
proof -
  from getKeys_equals [OF assms, of env d name sd su]
  obtain q where q: "fst (getKeys env d
                 \<lparr>k_name = name,
                  k_filter = Some \<lparr>f_criteria = Some [\<lparr>c_property = Prop key, c_operator = None,
                                                          c_value = Some w\<rparr>],
                                    f_sort = None, f_offset = None, f_limit = None\<rparr>,
                  k_showDeleted = sd\<rparr> su) = Inr (run_query env d q)"
    and t: "q_table q = toSnakeCase env name" and l: "q_live q = (\<not> sd)"
    and u: "q_user q = (if su = Some False then Some (currentUser env) else None)"
    and c: "q_conds q = [Compare [toSnakeCase env key] ''='' (Some w)]"
    and o: "q_offset q = None" "q_limit q = None"
    by blast
  have "selected env q r =
          (toSnakeCase env name \<in> set (tables r) \<and> (if sd then True else live r) \<and>
           (if su = Some False
            then granted env (currentUser env) (toSnakeCase env ''canRead'') (pk r) else True) \<and>
           row_col r (toSnakeCase env key) = w)" for r
    using t l u c assms(2) by (simp add: selected_def sql_compare_equals)
  then show ?thesis using q run_query_set [OF o, of env d] by auto
qed


lemma truthy_not_null: "truthy_opt v \<Longrightarrow> v \<noteq> Some JNull"
  by (auto simp: truthy_opt_def)

lemma getKey_truthy:
  assumes "v \<noteq> Some JNull"
  shows "\<exists>k. getKey env d n v sd su = Inr k"
proof -
  let ?f = "\<lparr>f_criteria = Some [\<lparr>c_property = Prop ''id'', c_operator = None, c_value = v\<rparr>],
             f_sort = None, f_offset = None, f_limit = None\<rparr>"
  let ?obj = "\<lparr>k_name = (case n of None \<Rightarrow> ''Object'' | Some m \<Rightarrow> if m = [] then ''Object'' else m),
               k_filter = Some ?f, k_showDeleted = sd\<rparr>"
  have a: "list_all accepted (case f_criteria ?f of None \<Rightarrow> [] | Some c \<Rightarrow> c)"
    using assms by (simp add: accepted_def ops_def)
  have b: "list_all (\<lambda>e. direction e = ''ASC'' \<or> direction e = ''DESC'')
            (case f_sort ?f of None \<Rightarrow> [] | Some c \<Rightarrow> c)" by simp
  have "k_filter ?obj = Some ?f" by simp
  from getKeys_query_succeeds [OF this a b, of env su]
  obtain q flt where "getKeys_query env ?obj su = (Inr q, flt)" by blast
  then show ?thesis by (simp add: getKey_def getKeys_def)
qed

lemma id_check_total: "\<exists>data' d'. id_check env d data = Inr (data', d')"
proof (cases "truthy_opt (get data ''id'')")
  case False
  then show ?thesis by (simp add: id_check_def draw_id_def)
next
  case True
  then obtain k where "getKey env d None (get data ''id'') False (Some True) = Inr k"
    using getKey_truthy [OF truthy_not_null] by blast
  then show ?thesis using True by (cases k) (simp_all add: id_check_def draw_id_def)
qed

lemma id_check_frame:
  "id_check env d data = Inr (data', d') \<Longrightarrow>
     rows d' = rows d \<and> catalog d' = catalog d \<and> pk_seq d' = pk_seq d \<and>
     sequences d' = sequences d \<and> subscriptions d' = subscriptions d"
  by (auto simp: id_check_def draw_id_def split: if_splits sum.splits option.splits)







section \<open>The rows after an insert and after a delete\<close>

lemma getKeys_query_live:
  "getKeys_query env obj su = (Inr q, flt') \<Longrightarrow> q_live q = (\<not> k_showDeleted obj)"
  unfolding getKeys_query_def Let_def
  by (auto split: if_splits sum.splits prod.splits)

lemma getKeys_live:
  assumes "fst (getKeys env d obj su) = Inr keys" and "\<not> k_showDeleted obj"
  shows "set keys \<subseteq> pk ` {r \<in> set (rows d). live r}"
proof -
  obtain q flt' where q: "getKeys_query env obj su = (Inr q, flt')" and k: "keys = run_query env d q"
    using assms(1) by (auto simp: getKeys_def split: prod.splits sum.splits)
  have "q_live q" using getKeys_query_live [OF q] assms(2) by simp
  then show ?thesis using run_query_subset [of env d q] k by (auto simp: selected_def)
qed

lemma nextval_rows: "nextval d sq = (n, d') \<Longrightarrow> rows d' = rows d"
  by (auto simp: nextval_def)

lemma buildInsert_rows:
  "buildInsert env feather data props d acc = Inr (vals, d') \<Longrightarrow> rows d' = rows d"
proof (induction props arbitrary: d acc)
  case Nil
  then show ?case by simp
next
  case (Cons kp props)
  obtain key prp where kp: "kp = (key, prp)" by (cases kp)
  show ?case
  proof (cases "key = ''objectType''")
    case True
    then show ?thesis using Cons kp by simp
  next
    case False
    let ?v0 = "get data key"
    let ?step = "(case p_autonumber prp of
                       Some a \<Rightarrow>
                         if ?v0 = None \<or> isReadOnly prp
                         then (case nextval d (a_sequence a) of
                                 (sq, d') \<Rightarrow>
                                   Inr (Some (JStr ((case a_prefix a of None \<Rightarrow> [] | Some s \<Rightarrow> s) @
                                                    pad env sq (a_length a) @
                                                    (case a_suffix a of None \<Rightarrow> [] | Some s \<Rightarrow> s))), d'))
                         else Inr (?v0, d)
                     | None \<Rightarrow>
                         if ?v0 = None
                         then (case default_value env prp of
                                 Inl e \<Rightarrow> Inl e
                               | Inr v \<Rightarrow> Inr (v, d))
                         else Inr (?v0, d))"
    obtain v d1 where s: "?step = Inr (v, d1)"
      using Cons.prems kp False by (cases ?step) (auto simp: Let_def)
    have r1: "rows d1 = rows d"
      using s by (auto simp: nextval_def split: option.splits if_splits sum.splits)
    have "\<exists>acc'. buildInsert env feather data props d1 acc' = Inr (vals, d')"
      using Cons.prems kp False s
      by (auto simp: Let_def split: if_splits option.splits json.splits)
    then show ?thesis using Cons.IH r1 by auto
  qed
qed

lemma insert_record_rows:
  assumes "insert_record env d obj ic su = Inr (data, d')"
  shows "\<exists>r. rows d' = rows d @ [r] \<and>
             \<not> list_ex (\<lambda>r'. pk r' = pk r \<or>
                        (row_col r' ''id'' \<noteq> JNull \<and> row_col r' ''id'' = row_col r ''id'')) (rows d)"
proof -
  obtain feather where c: "catalog d (ins_name obj) = Some feather"
    using assms by (cases "catalog d (ins_name obj)") (auto simp: insert_record_def)
  obtain data1 d1 where i: "id_check env d (ins_data obj) = Inr (data1, d1)"
    using id_check_total by blast
  have r1: "rows d1 = rows d" using id_check_frame [OF i] by simp
  obtain key d2 where n: "next_pk d1 = (key, d2)" by (cases "next_pk d1")
  have r2: "rows d2 = rows d1" using n by (auto simp: next_pk_def)
  let ?data' = "put ''lock'' JNull
                  (put ''isDeleted'' (JBool False)
                    (put ''updatedBy'' (JStr (currentUser env))
                      (put ''createdBy'' (JStr (currentUser env))
                        (put ''created'' (now env)
                          (put ''updated'' (now env) data1)))))"
  obtain vals d3 where b: "buildInsert env feather ?data' (properties feather) d2 [] = Inr (vals, d3)"
    using assms c i n
    by (cases "buildInsert env feather ?data' (properties feather) d2 []")
       (auto simp: insert_record_def Let_def split: option.splits sum.splits if_splits)
  have r3: "rows d3 = rows d2" using buildInsert_rows [OF b] .
  let ?r = "\<lparr>pk = key, tables = map (toSnakeCase env) (ancestors feather), cols = vals\<rparr>"
  have "insert_into d3 ?r = Inr d'"
    using assms c i n b
    by (auto simp: insert_record_def Let_def split: option.splits sum.splits if_splits)
  then show ?thesis using r1 r2 r3
    by (intro exI [of _ ?r]) (auto simp: insert_into_def split: if_splits)
qed

lemma doSelect_child_state:
  assumes "doSelect env d obj True su = Inr (res, d1)" and "sel_subscription obj = None"
  shows "d1 = d"
  using assms unfolding doSelect_def Let_def
  by (auto simp: unsubscribe_def present_def split: option.splits sum.splits if_splits list.splits prod.splits)


lemma get_put_same: "get (put k v m) k = Some v"
  by (induction m) (auto simp: get_def)

lemma get_put_other: "k' \<noteq> k \<Longrightarrow> get (put k v m) k' = get m k'"
  by (induction m) (auto simp: get_def)

lemma delete_rows_soft:
  "rows (delete_rows d i False)
     = map (\<lambda>r. if ''object'' \<in> set (tables r) \<and> row_col r ''id'' = JStr i
                 then r\<lparr>cols := put ''is_deleted'' (JBool True) (cols r)\<rparr> else r) (rows d)"
  by (simp add: delete_rows_def Let_def)

lemma marked_row:
  "pk (r\<lparr>cols := put ''is_deleted'' (JBool True) (cols r)\<rparr>) = pk r"
  "tables (r\<lparr>cols := put ''is_deleted'' (JBool True) (cols r)\<rparr>) = tables r"
  "row_col (r\<lparr>cols := put ''is_deleted'' (JBool True) (cols r)\<rparr>) ''id'' = row_col r ''id''"
  "\<not> live (r\<lparr>cols := put ''is_deleted'' (JBool True) (cols r)\<rparr>)"
  by (simp_all add: row_col_def live_def get_put_same get_put_other)

lemma doDelete_soft_rows:
  assumes "doDelete env d obj is_child su = Inr (b, d')" and "\<not> del_isHard obj"
  shows "\<exists>logs. rows d' = rows (delete_rows d (del_id obj) False) @ logs \<and>
           (logs = [] \<or> (\<exists>l. logs = [l] \<and>
              (\<forall>r\<in>set (rows d). pk r \<noteq> pk l \<and>
                  (row_col r ''id'' \<noteq> JNull \<longrightarrow> row_col r ''id'' \<noteq> row_col l ''id''))))"
proof -
  obtain f where c: "catalog d (del_name obj) = Some f"
    using assms by (cases "catalog d (del_name obj)") (auto simp: doDelete_def Let_def split: if_splits)
  let ?sel = "\<lparr>sel_name = del_name obj, sel_id = Some (JStr (del_id obj)),
               sel_showDeleted = True, sel_properties = Some (map fst (properties f)),
               sel_sanitize = True, sel_filter = None, sel_subscription = None\<rparr>"
  obtain oldRec d1 where s: "doSelect env d ?sel True None = Inr (oldRec, d1)"
    using assms c by (cases "doSelect env d ?sel True None")
                     (auto simp: doDelete_def Let_def split: if_splits)
  have d1: "d1 = d" using doSelect_child_state [OF s] by simp
  let ?d2 = "delete_rows d (del_id obj) False"
  let ?entry = "[(''objectId'', JStr (del_id obj)), (''action'', JStr ''DELETE''),
                 (''created'', now env), (''createdBy'', now env),
                 (''updated'', now env), (''updatedBy'', now env)]"
  show ?thesis
  proof (cases is_child)
    case True
    then have "d' = ?d2" using assms c s d1
      by (auto simp: doDelete_def Let_def split: if_splits)
    then show ?thesis by simp
  next
    case False
    then have "log_insert env ?d2 ?entry = Inr d'" using assms c s d1
      by (auto simp: doDelete_def Let_def split: if_splits sum.splits)
    then obtain logged where
      "insert_record env ?d2 \<lparr>ins_name = ''Log'', ins_data = ?entry, ins_cache = None\<rparr> True None
         = Inr (logged, d')"
      by (auto simp: log_insert_def split: sum.splits)
    from insert_record_rows [OF this]
    obtain l where l: "rows d' = rows ?d2 @ [l]"
      and n: "\<not> list_ex (\<lambda>r'. pk r' = pk l \<or>
                (row_col r' ''id'' \<noteq> JNull \<and> row_col r' ''id'' = row_col l ''id'')) (rows ?d2)"
      by blast
    define mark where "mark = (\<lambda>r. if ''object'' \<in> set (tables r) \<and> row_col r ''id'' = JStr (del_id obj)
                 then r\<lparr>cols := put ''is_deleted'' (JBool True) (cols r)\<rparr> else r)"
    have m: "rows ?d2 = map mark (rows d)" by (simp add: delete_rows_soft mark_def)
    have k: "pk (mark r) = pk r" "row_col (mark r) ''id'' = row_col r ''id''" for r
      by (simp_all add: mark_def marked_row)
    have "\<forall>r\<in>set (rows d). pk r \<noteq> pk l \<and>
                  (row_col r ''id'' \<noteq> JNull \<longrightarrow> row_col r ''id'' \<noteq> row_col l ''id'')"
    proof
      fix r assume r: "r \<in> set (rows d)"
      have "mark r \<in> set (rows ?d2)" using r unfolding m by simp
      then have "\<not> (pk (mark r) = pk l \<or>
                  (row_col (mark r) ''id'' \<noteq> JNull \<and> row_col (mark r) ''id'' = row_col l ''id''))"
        using n unfolding list_ex_iff by blast
      then show "pk r \<noteq> pk l \<and>
                  (row_col r ''id'' \<noteq> JNull \<longrightarrow> row_col r ''id'' \<noteq> row_col l ''id'')"
        by (auto simp: k)
    qed
    then show ?thesis using l by auto
  qed
qed


lemma doDelete_soft_state:
  assumes "doDelete env d obj is_child su = Inr (b, d')" and "\<not> del_isHard obj"
    and "\<forall>r\<in>set (rows d). ''object'' \<in> set (tables r)"
    and "distinct (map pk (rows d))"
    and "r0 \<in> set (rows d)" and "row_col r0 ''id'' = JStr (del_id obj)"
  shows "(\<forall>r\<in>set (rows d'). row_col r ''id'' = JStr (del_id obj) \<longrightarrow> \<not> live r)
       \<and> distinct (map pk (rows d'))"
proof -
  define mark where "mark = (\<lambda>r. if ''object'' \<in> set (tables r) \<and> row_col r ''id'' = JStr (del_id obj)
                 then r\<lparr>cols := put ''is_deleted'' (JBool True) (cols r)\<rparr> else r)"
  have m: "rows (delete_rows d (del_id obj) False) = map mark (rows d)"
    by (simp add: delete_rows_soft mark_def)
  have k: "pk (mark r) = pk r" "row_col (mark r) ''id'' = row_col r ''id''" for r
    by (simp_all add: mark_def marked_row)
  have dead: "row_col r ''id'' = JStr (del_id obj) \<longrightarrow> \<not> live (mark r)" if "r \<in> set (rows d)" for r
    using that assms(3) by (simp add: mark_def marked_row)
  from doDelete_soft_rows [OF assms(1,2)]
  obtain logs where l: "rows d' = map mark (rows d) @ logs"
    and n: "logs = [] \<or> (\<exists>l. logs = [l] \<and>
              (\<forall>r\<in>set (rows d). pk r \<noteq> pk l \<and>
                  (row_col r ''id'' \<noteq> JNull \<longrightarrow> row_col r ''id'' \<noteq> row_col l ''id'')))"
    unfolding m by blast
  have "map pk (map mark (rows d)) = map pk (rows d)" by (simp add: k comp_def)
  then have pks: "map pk (rows d') = map pk (rows d) @ map pk logs"
    unfolding l map_append by simp
  have a: "\<forall>r\<in>set (rows d'). row_col r ''id'' = JStr (del_id obj) \<longrightarrow> \<not> live r"
  proof
    fix r assume "r \<in> set (rows d')"
    then consider r1 where "r1 \<in> set (rows d)" "r = mark r1" | "r \<in> set logs"
      using l by auto
    then show "row_col r ''id'' = JStr (del_id obj) \<longrightarrow> \<not> live r"
    proof cases
      case 1
      then show ?thesis using dead [of r1] k(2) [of r1] by simp
    next
      case 2
      then have "row_col r0 ''id'' \<noteq> JNull \<longrightarrow> row_col r0 ''id'' \<noteq> row_col r ''id''"
        using n assms(5) by auto
      then show ?thesis using assms(6) by simp
    qed
  qed
  have "distinct (map pk (rows d'))"
    using n
  proof
    assume "logs = []"
    then show ?thesis using pks assms(4) by simp
  next
    assume "\<exists>l. logs = [l] \<and>
              (\<forall>r\<in>set (rows d). pk r \<noteq> pk l \<and>
                  (row_col r ''id'' \<noteq> JNull \<longrightarrow> row_col r ''id'' \<noteq> row_col l ''id''))"
    then obtain x where x: "logs = [x]" "\<forall>r\<in>set (rows d). pk r \<noteq> pk x" by blast
    have "map pk (rows d') = map pk (rows d) @ [pk x]" using x(1) pks by simp
    then show ?thesis using assms(4) x(2) by auto
  qed
  then show ?thesis using a by blast
qed

lemma getKey_none:
  assumes "\<forall>r\<in>set (rows d). row_col r ''id'' = JStr i \<longrightarrow> \<not> live r"
    and "toSnakeCase env ''id'' = ''id''"
  shows "getKey env d name (Some (JStr i)) False su = Inr None"
proof -
  let ?n = "case name of None \<Rightarrow> ''Object'' | Some n \<Rightarrow> if n = [] then ''Object'' else n"
  have 1: "\<not> is_object (JStr i)" by simp
  have 2: "JStr i \<noteq> JNull" by simp
  have 3: "CHR ''.'' \<notin> set ''id''" by simp
  from getKeys_equals_set [OF 1 2 3, of env d ?n False su]
  obtain keys where k: "fst (getKeys env d
                 \<lparr>k_name = ?n,
                  k_filter = Some \<lparr>f_criteria = Some [\<lparr>c_property = Prop ''id'', c_operator = None,
                                                          c_value = Some (JStr i)\<rparr>],
                                    f_sort = None, f_offset = None, f_limit = None\<rparr>,
                  k_showDeleted = False\<rparr> su) = Inr keys"
    and s: "set keys = pk ` {r \<in> set (rows d).
                  toSnakeCase env ?n \<in> set (tables r) \<and>
                  (if False then True else live r) \<and>
                  (if su = Some False
                   then granted env (currentUser env) (toSnakeCase env ''canRead'') (pk r) else True) \<and>
                  row_col r (toSnakeCase env ''id'') = JStr i}"
    by blast
  have "set keys = {}" using s assms by auto
  then show ?thesis using k by (simp add: getKey_def)
qed


section \<open>The columns of an inserted row\<close>

lemma buildInsert_step:
  assumes "buildInsert env feather data ((key, prp) # rest) d acc = Inr (vals, d')"
    and "key \<noteq> ''objectType''"
  shows "\<exists>d1 acc'. buildInsert env feather data rest d1 acc' = Inr (vals, d') \<and>
           (acc' = acc \<or> (\<exists>w. acc' = acc @ [(toSnakeCase env key, w)])) \<and>
           (p_autonumber prp = None \<and> \<not> (p_type prp = ''object'' \<and> p_format prp = Some ''money'') \<and>
            get data key = Some v \<longrightarrow> acc' = acc @ [(toSnakeCase env key, v)])"
proof -
  let ?v0 = "get data key"
  let ?step = "(case p_autonumber prp of
                       Some a \<Rightarrow>
                         if ?v0 = None \<or> isReadOnly prp
                         then (case nextval d (a_sequence a) of
                                 (sq, d') \<Rightarrow>
                                   Inr (Some (JStr ((case a_prefix a of None \<Rightarrow> [] | Some s \<Rightarrow> s) @
                                                    pad env sq (a_length a) @
                                                    (case a_suffix a of None \<Rightarrow> [] | Some s \<Rightarrow> s))), d'))
                         else Inr (?v0, d)
                     | None \<Rightarrow>
                         if ?v0 = None
                         then (case default_value env prp of
                                 Inl e \<Rightarrow> Inl e
                               | Inr v \<Rightarrow> Inr (v, d))
                         else Inr (?v0, d))"
  obtain w d1 where s: "?step = Inr (w, d1)"
    using assms by (cases ?step) (auto simp: Let_def)
  have w: "p_autonumber prp = None \<and> get data key = Some v \<longrightarrow> w = Some v"
    using s by auto
  show ?thesis
  proof (cases "p_type prp = ''object'' \<and> p_format prp = Some ''money''")
    case True
    then have "\<exists>acc'. buildInsert env feather data rest d1 acc' = Inr (vals, d') \<and>
                 (acc' = acc \<or> (\<exists>w. acc' = acc @ [(toSnakeCase env key, w)]))"
      using assms s by (auto simp: Let_def split: if_splits option.splits json.splits)
    then show ?thesis using True by blast
  next
    case False
    then have "buildInsert env feather data rest d1
                 (acc @ [(toSnakeCase env key, (case w of None \<Rightarrow> JNull | Some x \<Rightarrow> x))]) = Inr (vals, d')"
      using assms s by (auto simp: Let_def split: if_splits)
    then show ?thesis using w by (intro exI [of _ d1] exI [of _ "acc @ [(toSnakeCase env key, (case w of None \<Rightarrow> JNull | Some x \<Rightarrow> x))]"]) auto
  qed
qed

lemma buildInsert_extends:
  "buildInsert env feather data props d acc = Inr (vals, d') \<Longrightarrow> \<exists>ext. vals = acc @ ext"
proof (induction props arbitrary: d acc)
  case Nil
  then show ?case by simp
next
  case (Cons kp props)
  obtain key prp where kp: "kp = (key, prp)" by (cases kp)
  show ?case
  proof (cases "key = ''objectType''")
    case True
    then show ?thesis using Cons kp by simp
  next
    case False
    from buildInsert_step [OF Cons.prems [unfolded kp] False]
    obtain d1 acc' where "buildInsert env feather data props d1 acc' = Inr (vals, d')"
      and "acc' = acc \<or> (\<exists>w. acc' = acc @ [(toSnakeCase env key, w)])" by blast
    then show ?thesis using Cons.IH [of d1 acc'] by auto
  qed
qed

lemma buildInsert_col:
  assumes "buildInsert env feather data props d acc = Inr (vals, d')"
    and "map_of props key = Some prp" and "key \<noteq> ''objectType''"
    and "p_autonumber prp = None"
    and "\<not> (p_type prp = ''object'' \<and> p_format prp = Some ''money'')"
    and "get data key = Some v"
    and "\<forall>k\<in>fst ` set props. toSnakeCase env k = toSnakeCase env key \<longrightarrow> k = key"
    and "toSnakeCase env key \<notin> fst ` set acc"
  shows "get vals (toSnakeCase env key) = Some v"
  using assms(1,2,7,8)
proof (induction props arbitrary: d acc)
  case Nil
  then show ?case by simp
next
  case (Cons kp props)
  obtain k p where kp: "kp = (k, p)" by (cases kp)
  show ?case
  proof (cases "k = key")
    case True
    then have p: "p = prp" using Cons.prems(2) kp by simp
    from buildInsert_step [OF Cons.prems(1) [unfolded kp True] assms(3), of v]
    have "buildInsert env feather data props d (acc @ [(toSnakeCase env key, v)]) = Inr (vals, d')
          \<or> (\<exists>d1. buildInsert env feather data props d1 (acc @ [(toSnakeCase env key, v)]) = Inr (vals, d'))"
      using p assms(4,5,6) by auto
    then obtain d1 where "buildInsert env feather data props d1 (acc @ [(toSnakeCase env key, v)]) = Inr (vals, d')"
      by blast
    from buildInsert_extends [OF this]
    obtain ext where "vals = (acc @ [(toSnakeCase env key, v)]) @ ext" by blast
    moreover have "map_of acc (toSnakeCase env key) = None"
      using Cons.prems(4) by (simp add: map_of_eq_None_iff)
    ultimately show ?thesis
      by (simp add: get_def map_add_def)
  next
    case False
    then have m: "map_of props key = Some prp" using Cons.prems(2) kp by simp
    have sc: "toSnakeCase env k \<noteq> toSnakeCase env key" using Cons.prems(3) kp False by auto
    have all: "\<forall>k\<in>fst ` set props. toSnakeCase env k = toSnakeCase env key \<longrightarrow> k = key"
      using Cons.prems(3) by auto
    show ?thesis
    proof (cases "k = ''objectType''")
      case True
      then have "buildInsert env feather data props d acc = Inr (vals, d')"
        using Cons.prems(1) kp by simp
      then show ?thesis using Cons.IH [OF _ m all Cons.prems(4)] by blast
    next
      case k: False
      from buildInsert_step [OF Cons.prems(1) [unfolded kp] k]
      obtain d1 acc' where b: "buildInsert env feather data props d1 acc' = Inr (vals, d')"
        and a: "acc' = acc \<or> (\<exists>w. acc' = acc @ [(toSnakeCase env k, w)])" by blast
      have "toSnakeCase env key \<notin> fst ` set acc'" using a Cons.prems(4) sc by auto
      then show ?thesis using Cons.IH [OF b m all] by blast
    qed
  qed
qed

lemma subscribe_rows: "rows (snd (subscribe sc d subscr ids tablename)) = rows d"
  by (auto simp: subscribe_def doSubscribe_def unsubscribe_def Let_def
           split: option.splits if_splits sum.splits)

lemma unsubscribe_rows: "unsubscribe d i t = Inr d' \<Longrightarrow> rows d' = rows d"
  by (auto simp: unsubscribe_def Let_def split: if_splits)


lemma doSelect_state:
  assumes "doSelect env d obj ic su = Inr (res, d1)" and "sel_subscription obj = None"
  shows "d1 = d"
  using assms unfolding doSelect_def Let_def
  by (auto simp: unsubscribe_def present_def subscribe_def
           split: option.splits sum.splits if_splits list.splits prod.splits)

lemma insert_record_new:
  assumes "insert_record env d obj ic su = Inr (data, d1)"
    and "catalog d (ins_name obj) = Some feather"
    and "id_check env d (ins_data obj) = Inr (data0, d0)"
  shows "\<exists>vals d2 d3.
           buildInsert env feather
             (put ''lock'' JNull
               (put ''isDeleted'' (JBool False)
                 (put ''updatedBy'' (JStr (currentUser env))
                   (put ''createdBy'' (JStr (currentUser env))
                     (put ''created'' (now env)
                       (put ''updated'' (now env) data0))))))
             (properties feather) d2 [] = Inr (vals, d3) \<and>
           rows d1 = rows d @ [\<lparr>pk = Suc (pk_seq d), tables = map (toSnakeCase env) (ancestors feather),
                                cols = vals\<rparr>]"
proof -
  have r0: "rows d0 = rows d" "pk_seq d0 = pk_seq d" using id_check_frame [OF assms(3)] by simp_all
  let ?d2 = "d0\<lparr>pk_seq := Suc (pk_seq d0)\<rparr>"
  let ?data' = "put ''lock'' JNull
                  (put ''isDeleted'' (JBool False)
                    (put ''updatedBy'' (JStr (currentUser env))
                      (put ''createdBy'' (JStr (currentUser env))
                        (put ''created'' (now env)
                          (put ''updated'' (now env) data0)))))"
  obtain vals d3 where b: "buildInsert env feather ?data' (properties feather) ?d2 [] = Inr (vals, d3)"
    using assms
    by (cases "buildInsert env feather ?data' (properties feather) ?d2 []")
       (auto simp: insert_record_def Let_def next_pk_def split: option.splits sum.splits if_splits)
  have r3: "rows d3 = rows d" using buildInsert_rows [OF b] r0 by simp
  let ?r = "\<lparr>pk = Suc (pk_seq d0), tables = map (toSnakeCase env) (ancestors feather), cols = vals\<rparr>"
  have "insert_into d3 ?r = Inr d1"
    using assms b
    by (auto simp: insert_record_def Let_def next_pk_def split: option.splits sum.splits if_splits)
  then have "rows d1 = rows d @ [?r]" using r3
    by (auto simp: insert_into_def split: if_splits)
  then show ?thesis using b r0 by auto
qed

lemma id_check_taken:
  assumes "r \<in> set (rows d)" and "toSnakeCase env ''Object'' \<in> set (tables r)" and "live r"
    and "row_col r (toSnakeCase env ''id'') = JStr i" and "i \<noteq> []"
    and "get data ''id'' = Some (JStr i)"
  shows "id_check env d data
           = Inr (put ''id'' (JStr (createId env (ids_drawn d))) data,
                  d\<lparr>ids_drawn := Suc (ids_drawn d)\<rparr>)"
proof -
  have 1: "\<not> is_object (JStr i)" by simp
  have 2: "JStr i \<noteq> JNull" by simp
  have 3: "CHR ''.'' \<notin> set ''id''" by simp
  from getKeys_equals_set [OF 1 2 3, of env d "''Object''" False "Some True"]
  obtain keys where k: "fst (getKeys env d
                 \<lparr>k_name = ''Object'',
                  k_filter = Some \<lparr>f_criteria = Some [\<lparr>c_property = Prop ''id'', c_operator = None,
                                                          c_value = Some (JStr i)\<rparr>],
                                    f_sort = None, f_offset = None, f_limit = None\<rparr>,
                  k_showDeleted = False\<rparr> (Some True)) = Inr keys"
    and s: "set keys = pk ` {r \<in> set (rows d).
                  toSnakeCase env ''Object'' \<in> set (tables r) \<and>
                  (if False then True else live r) \<and>
                  (if Some True = Some False
                   then granted env (currentUser env) (toSnakeCase env ''canRead'') (pk r) else True) \<and>
                  row_col r (toSnakeCase env ''id'') = JStr i}"
    by blast
  have "pk r \<in> set keys" using s assms(1-4) by auto
  then obtain x xs where "keys = x # xs" by (cases keys) auto
  then have "getKey env d None (Some (JStr i)) False (Some True) = Inr (Some x)"
    using k by (simp add: getKey_def)
  then show ?thesis using assms(5,6)
    by (simp add: id_check_def draw_id_def truthy_opt_def)
qed


section \<open>The id of an upsert\<close>

lemma get_assign_same: "get (assign k v m) k = v"
proof (cases v)
  case None
  then show ?thesis by (auto simp: assign_def get_def map_of_eq_None_iff)
next
  case (Some w)
  then show ?thesis by (simp add: assign_def get_put_same)
qed

lemma get_assign_other: "k' \<noteq> k \<Longrightarrow> get (assign k v m) k' = get m k'"
proof (cases v)
  case None
  assume "k' \<noteq> k"
  then have "map_of (filter (\<lambda>p. fst p \<noteq> k) m) k' = map_of m k'"
    by (induction m) auto
  then show ?thesis using None by (simp add: assign_def get_def)
next
  case (Some w)
  assume "k' \<noteq> k"
  then show ?thesis using Some by (simp add: assign_def get_put_other)
qed

lemma id_check_free:
  assumes "\<forall>r\<in>set (rows d). \<not> (toSnakeCase env ''Object'' \<in> set (tables r) \<and> live r \<and>
                                 row_col r (toSnakeCase env ''id'') = JStr i)"
    and "i \<noteq> []" and "get data ''id'' = Some (JStr i)"
  shows "id_check env d data = Inr (data, d)"
proof -
  have 1: "\<not> is_object (JStr i)" by simp
  have 2: "JStr i \<noteq> JNull" by simp
  have 3: "CHR ''.'' \<notin> set ''id''" by simp
  from getKeys_equals_set [OF 1 2 3, of env d "''Object''" False "Some True"]
  obtain keys where k: "fst (getKeys env d
                 \<lparr>k_name = ''Object'',
                  k_filter = Some \<lparr>f_criteria = Some [\<lparr>c_property = Prop ''id'', c_operator = None,
                                                          c_value = Some (JStr i)\<rparr>],
                                    f_sort = None, f_offset = None, f_limit = None\<rparr>,
                  k_showDeleted = False\<rparr> (Some True)) = Inr keys"
    and s: "set keys = pk ` {r \<in> set (rows d).
                  toSnakeCase env ''Object'' \<in> set (tables r) \<and>
                  (if False then True else live r) \<and>
                  (if Some True = Some False
                   then granted env (currentUser env) (toSnakeCase env ''canRead'') (pk r) else True) \<and>
                  row_col r (toSnakeCase env ''id'') = JStr i}"
    by blast
  have "set keys = {}" using s assms(1) by auto
  then have "getKey env d None (Some (JStr i)) False (Some True) = Inr None"
    using k by (simp add: getKey_def)
  then show ?thesis using assms(2,3)
    by (simp add: id_check_def truthy_opt_def)
qed


section \<open>The record of a select by id\<close>

lemma strip_dots_plain: "\<forall>p\<in>set ps. CHR ''.'' \<notin> set p \<Longrightarrow> strip_dots ps attrs = ps"
  by (induction ps arbitrary: attrs) auto

lemma select_columns_known:
  "set keys \<subseteq> fst ` set props \<Longrightarrow>
     select_columns sc props keys = Inr (map sc (filter (\<lambda>k. k \<noteq> ''objectType'') keys))"
proof (induction keys)
  case Nil
  then show ?case by simp
next
  case (Cons k keys)
  then have "map_of props k \<noteq> None" by (auto simp: map_of_eq_None_iff)
  then show ?case using Cons by auto
qed

lemma select_columns_names:
  "select_columns sc props keys = Inr names \<Longrightarrow>
     set names \<subseteq> sc ` (set keys \<inter> fst ` set props)"
proof (induction keys arbitrary: names)
  case Nil
  then show ?case by simp
next
  case (Cons k keys)
  then show ?case
    by (auto split: option.splits sum.splits if_splits dest!: map_of_SomeD) force+
qed

lemma sanitize_empty: "sanitize cc (JObj []) = Inr (JObj [])"
  by simp

lemma getKey_found:
  assumes "r \<in> set (rows d)" and "i \<noteq> []" and "n \<noteq> []"
    and "toSnakeCase env n \<in> set (tables r)" and "sd \<or> live r"
    and "su = Some False \<longrightarrow> granted env (currentUser env) (toSnakeCase env ''canRead'') (pk r)"
    and "row_col r (toSnakeCase env ''id'') = JStr i"
  shows "\<exists>k x. getKey env d (Some n) (Some (JStr i)) sd su = Inr (Some k) \<and>
               x \<in> set (rows d) \<and> pk x = k \<and> toSnakeCase env n \<in> set (tables x)"
proof -
  have 1: "\<not> is_object (JStr i)" by simp
  have 2: "JStr i \<noteq> JNull" by simp
  have 3: "CHR ''.'' \<notin> set ''id''" by simp
  from getKeys_equals_set [OF 1 2 3, of env d n sd su]
  obtain keys where k: "fst (getKeys env d
                 \<lparr>k_name = n,
                  k_filter = Some \<lparr>f_criteria = Some [\<lparr>c_property = Prop ''id'', c_operator = None,
                                                          c_value = Some (JStr i)\<rparr>],
                                    f_sort = None, f_offset = None, f_limit = None\<rparr>,
                  k_showDeleted = sd\<rparr> su) = Inr keys"
    and s: "set keys = pk ` {r \<in> set (rows d).
                  toSnakeCase env n \<in> set (tables r) \<and>
                  (if sd then True else live r) \<and>
                  (if su = Some False
                   then granted env (currentUser env) (toSnakeCase env ''canRead'') (pk r) else True) \<and>
                  row_col r (toSnakeCase env ''id'') = JStr i}"
    by blast
  have "pk r \<in> set keys" using s assms by auto
  then obtain k ks where c: "keys = k # ks" by (cases keys) auto
  then have "k \<in> set keys" by simp
  then obtain x where "x \<in> set (rows d)" "pk x = k" "toSnakeCase env n \<in> set (tables x)"
    unfolding s by auto
  moreover have "getKey env d (Some n) (Some (JStr i)) sd su = Inr (Some k)"
    using k c assms(3) by (simp add: getKey_def)
  ultimately show ?thesis by blast
qed

lemma doSelect_by_id:
  assumes "catalog d n = Some feather" and "ic \<or> \<not> isChild feather \<or> su = Some True"
    and "i \<noteq> []"
    and "ps = None \<or> ps = Some (map fst (properties feather))"
    and "\<forall>k\<in>fst ` set (properties feather). CHR ''.'' \<notin> set k \<and> toSnakeCase env k \<noteq> ''result''"
  shows "doSelect env d
           \<lparr>sel_name = n, sel_id = Some (JStr i), sel_showDeleted = sd, sel_properties = ps,
            sel_sanitize = sz, sel_filter = flt, sel_subscription = sub\<rparr> ic su
         = (case getKey env d (Some n) (Some (JStr i)) sd su of
              Inl e \<Rightarrow> Inl e
            | Inr None \<Rightarrow> Inr (None, d)
            | Inr (Some key) \<Rightarrow>
                if filter (\<lambda>r. toSnakeCase env (f_name feather) \<in> set (tables r) \<and> pk r = key) (rows d) = []
                then Inl TypeError else Inr (Some (JObj []), d))"
proof -
  let ?keys = "map fst (properties feather)"
  have keys: "(case ps of None \<Rightarrow> ?keys | Some q \<Rightarrow> strip_dots q []) = ?keys"
    using assms(4,5) by (auto simp: strip_dots_plain)
  have names: "select_columns (toSnakeCase env) (properties feather) ?keys
                 = Inr (map (toSnakeCase env) (filter (\<lambda>k. k \<noteq> ''objectType'') ?keys))"
    by (rule select_columns_known) simp
  have res: "row_result (map (toSnakeCase env) (filter (\<lambda>k. k \<noteq> ''objectType'') ?keys)) r = None" for r
    using assms(5) by (auto simp: row_result_def)
  show ?thesis
    using assms(1,2,3)
    by (cases "getKey env d (Some n) (Some (JStr i)) sd su")
       (auto simp: doSelect_def Let_def keys names res mapKeys_def truthy_opt_def
             split: option.splits list.splits)
qed

lemma doSelect_existing:
  assumes "catalog d n = Some feather" and "f_name feather = n" and "n \<noteq> []"
    and "ic \<or> \<not> isChild feather \<or> su = Some True" and "i \<noteq> []"
    and "ps = None \<or> ps = Some (map fst (properties feather))"
    and "\<forall>k\<in>fst ` set (properties feather). CHR ''.'' \<notin> set k \<and> toSnakeCase env k \<noteq> ''result''"
    and "r \<in> set (rows d)" and "toSnakeCase env n \<in> set (tables r)" and "sd \<or> live r"
    and "su = Some False \<longrightarrow> granted env (currentUser env) (toSnakeCase env ''canRead'') (pk r)"
    and "row_col r (toSnakeCase env ''id'') = JStr i"
  shows "doSelect env d
           \<lparr>sel_name = n, sel_id = Some (JStr i), sel_showDeleted = sd, sel_properties = ps,
            sel_sanitize = sz, sel_filter = flt, sel_subscription = sub\<rparr> ic su
         = Inr (Some (JObj []), d)"
proof -
  from getKey_found [OF assms(8,5,3,9,10,11,12)]
  obtain k x where g: "getKey env d (Some n) (Some (JStr i)) sd su = Inr (Some k)"
    and x: "x \<in> set (rows d)" "pk x = k" "toSnakeCase env n \<in> set (tables x)" by blast
  have "x \<in> set (filter (\<lambda>r. toSnakeCase env (f_name feather) \<in> set (tables r) \<and> pk r = k) (rows d))"
    using x assms(2) by simp
  then have "filter (\<lambda>r. toSnakeCase env (f_name feather) \<in> set (tables r) \<and> pk r = k) (rows d) \<noteq> []"
    by (metis empty_iff list.set(1))
  then show ?thesis
    unfolding doSelect_by_id [OF assms(1,4,5,6,7)] g by simp
qed

lemma doSelect_missing:
  assumes "catalog d n = Some feather" and "n \<noteq> []"
    and "ic \<or> \<not> isChild feather \<or> su = Some True" and "i \<noteq> []"
    and "ps = None \<or> ps = Some (map fst (properties feather))"
    and "\<forall>k\<in>fst ` set (properties feather). CHR ''.'' \<notin> set k \<and> toSnakeCase env k \<noteq> ''result''"
    and "\<forall>r\<in>set (rows d).
           \<not> (toSnakeCase env n \<in> set (tables r) \<and> (sd \<or> live r) \<and>
              (su = Some False \<longrightarrow> granted env (currentUser env) (toSnakeCase env ''canRead'') (pk r)) \<and>
              row_col r (toSnakeCase env ''id'') = JStr i)"
  shows "doSelect env d
           \<lparr>sel_name = n, sel_id = Some (JStr i), sel_showDeleted = sd, sel_properties = ps,
            sel_sanitize = sz, sel_filter = flt, sel_subscription = sub\<rparr> ic su
         = Inr (None, d)"
proof -
  have 1: "\<not> is_object (JStr i)" by simp
  have 2: "JStr i \<noteq> JNull" by simp
  have 3: "CHR ''.'' \<notin> set ''id''" by simp
  from getKeys_equals_set [OF 1 2 3, of env d n sd su]
  obtain keys where k: "fst (getKeys env d
                 \<lparr>k_name = n,
                  k_filter = Some \<lparr>f_criteria = Some [\<lparr>c_property = Prop ''id'', c_operator = None,
                                                          c_value = Some (JStr i)\<rparr>],
                                    f_sort = None, f_offset = None, f_limit = None\<rparr>,
                  k_showDeleted = sd\<rparr> su) = Inr keys"
    and s: "set keys = pk ` {r \<in> set (rows d).
                  toSnakeCase env n \<in> set (tables r) \<and>
                  (if sd then True else live r) \<and>
                  (if su = Some False
                   then granted env (currentUser env) (toSnakeCase env ''canRead'') (pk r) else True) \<and>
                  row_col r (toSnakeCase env ''id'') = JStr i}"
    by blast
  have "set keys = {}" unfolding s using assms(7) by (auto split: if_splits)
  then have "getKey env d (Some n) (Some (JStr i)) sd su = Inr None"
    using k assms(2) by (simp add: getKey_def)
  then show ?thesis
    unfolding doSelect_by_id [OF assms(1,3,4,5,6)] by simp
qed

lemma doUpdate_existing:
  assumes "upd_data obj \<noteq> []" and "upd_id obj \<noteq> []"
    and "catalog d (upd_name obj) = Some feather" and "f_name feather = upd_name obj"
    and "upd_name obj \<noteq> []" and "is_child \<or> \<not> isChild feather"
    and "su = Some False \<longrightarrow> isAuthorized env (currentUser env) ''canUpdate'' (upd_id obj)"
    and "\<forall>k\<in>fst ` set (properties feather). CHR ''.'' \<notin> set k \<and> toSnakeCase env k \<noteq> ''result''"
    and "r \<in> set (rows d)" and "toSnakeCase env (upd_name obj) \<in> set (tables r)" and "live r"
    and "row_col r (toSnakeCase env ''id'') = JStr (upd_id obj)"
  shows "doUpdate env d obj is_child su = Inr (Answer False, d)"
proof -
  have "Some (JStr (upd_id obj)) \<noteq> Some JNull" by simp
  from getKey_truthy [OF this]
  obtain key where k: "getKey env d None (Some (JStr (upd_id obj))) False None = Inr key" by blast
  have s: "doSelect env d
             \<lparr>sel_name = upd_name obj, sel_id = Some (JStr (upd_id obj)),
              sel_showDeleted = False, sel_properties = Some (map fst (properties feather)),
              sel_sanitize = False, sel_filter = None, sel_subscription = None\<rparr> is_child None
           = Inr (Some (JObj []), d)"
    by (rule doSelect_existing [OF assms(3,4,5) _ assms(2) _ assms(8,9,10)])
       (use assms(6,11,12) in auto)
  have a: "afterDoSelect env d feather obj key (Some (JObj [])) is_child = Inr (Answer False, d)"
    by (simp add: afterDoSelect_def locked_out_undefined)
  show ?thesis using assms(1,3,6,7) k s a by (auto simp: doUpdate_def)
qed

lemma doDelete_existing:
  assumes "del_id obj \<noteq> []"
    and "catalog d (del_name obj) = Some feather" and "f_name feather = del_name obj"
    and "del_name obj \<noteq> []" and "is_child \<or> \<not> isChild feather"
    and "su = Some False \<longrightarrow> isAuthorized env (currentUser env) ''canDelete'' (del_id obj)"
    and "\<forall>k\<in>fst ` set (properties feather). CHR ''.'' \<notin> set k \<and> toSnakeCase env k \<noteq> ''result''"
    and "r \<in> set (rows d)" and "toSnakeCase env (del_name obj) \<in> set (tables r)"
    and "row_col r (toSnakeCase env ''id'') = JStr (del_id obj)"
  shows "doDelete env d obj is_child su
           = (if is_child \<or> del_isHard obj
              then Inr (True, delete_rows d (del_id obj) (del_isHard obj))
              else (case log_insert env (delete_rows d (del_id obj) (del_isHard obj))
                           [(''objectId'', JStr (del_id obj)),
                            (''action'', JStr ''DELETE''),
                            (''created'', now env),
                            (''createdBy'', now env),
                            (''updated'', now env),
                            (''updatedBy'', now env)] of
                      Inl e \<Rightarrow> Inl e
                    | Inr d3 \<Rightarrow> Inr (True, d3)))"
proof -
  have s: "doSelect env d
             \<lparr>sel_name = del_name obj, sel_id = Some (JStr (del_id obj)),
              sel_showDeleted = True, sel_properties = Some (map fst (properties feather)),
              sel_sanitize = True, sel_filter = None, sel_subscription = None\<rparr> True None
           = Inr (Some (JObj []), d)"
    by (rule doSelect_existing [OF assms(2,3,4) _ assms(1) _ assms(7,8,9)])
       (use assms(10) in auto)
  show ?thesis using assms(2,5,6) s
    by (auto simp: doDelete_def Let_def truthy_opt_def member_def locked_out_def get_def)
qed

text \<open>
  Claim C4 says that an update or a delete of a record whose lock has another
  event key than the request fails with the message of the lock and leaves
  the record as it is. Neither function gets to see the lock.
  \<open>mapKeys\<close> reads \<open>row.result\<close>, which the row of the query by key
  does not have, so the record that \<open>doSelect\<close> resolves to has no
  members. In \<open>doUpdate\<close> the test of the lock reads \<open>oldRec\<close>
  before it is assigned, and the empty record makes the update resolve to
  \<open>false\<close>, without a message. In \<open>doDelete\<close> the empty record has
  no lock, and the locked record is deleted whatever the event key of the
  request is.
\<close>

theorem lock_is_not_checked:
  assumes "catalog d n = Some feather" and "f_name feather = n" and "n \<noteq> []" and "i \<noteq> []"
    and "is_child \<or> \<not> isChild feather"
    and "su = Some False \<longrightarrow> isAuthorized env (currentUser env) ''canUpdate'' i \<and>
                             isAuthorized env (currentUser env) ''canDelete'' i"
    and "\<forall>k\<in>fst ` set (properties feather). CHR ''.'' \<notin> set k \<and> toSnakeCase env k \<noteq> ''result''"
    and "r \<in> set (rows d)" and "toSnakeCase env n \<in> set (tables r)" and "live r"
    and "row_col r (toSnakeCase env ''id'') = JStr i"
    and "row_col r ''lock'' = JObj lck" and "get lck ''_eventkey'' = Some (JStr held)"
    and "Some held \<noteq> k"
  shows "doUpdate env d
           \<lparr>upd_name = n, upd_id = i, upd_data = ps, upd_cache = c, upd_eventkey = k\<rparr> is_child su
           = (if ps = [] then Inr (Changes [], d) else Inr (Answer False, d))
       \<and> doDelete env d
           \<lparr>del_name = n, del_id = i, del_isHard = hard, del_eventkey = k\<rparr> is_child su
           = (if is_child \<or> hard then Inr (True, delete_rows d i hard)
              else (case log_insert env (delete_rows d i hard)
                           [(''objectId'', JStr i), (''action'', JStr ''DELETE''),
                            (''created'', now env), (''createdBy'', now env),
                            (''updated'', now env), (''updatedBy'', now env)] of
                      Inl e \<Rightarrow> Inl e
                    | Inr d3 \<Rightarrow> Inr (True, d3)))"
proof (intro conjI)
  let ?obj = "\<lparr>upd_name = n, upd_id = i, upd_data = ps, upd_cache = c, upd_eventkey = k\<rparr>"
  show "doUpdate env d ?obj is_child su
           = (if ps = [] then Inr (Changes [], d) else Inr (Answer False, d))"
  proof (cases "ps = []")
    case True
    then show ?thesis by (simp add: doUpdate_def)
  next
    case False
    have "doUpdate env d ?obj is_child su = Inr (Answer False, d)"
      by (rule doUpdate_existing [where feather = feather and r = r])
         (use assms False in auto)
    then show ?thesis using False by simp
  qed
next
  let ?obj = "\<lparr>del_name = n, del_id = i, del_isHard = hard, del_eventkey = k\<rparr>"
  have "doDelete env d ?obj is_child su
           = (if is_child \<or> del_isHard ?obj
              then Inr (True, delete_rows d (del_id ?obj) (del_isHard ?obj))
              else (case log_insert env (delete_rows d (del_id ?obj) (del_isHard ?obj))
                           [(''objectId'', JStr (del_id ?obj)),
                            (''action'', JStr ''DELETE''),
                            (''created'', now env),
                            (''createdBy'', now env),
                            (''updated'', now env),
                            (''updatedBy'', now env)] of
                      Inl e \<Rightarrow> Inl e
                    | Inr d3 \<Rightarrow> Inr (True, d3)))"
    by (rule doDelete_existing [where feather = feather and r = r])
       (use assms in auto)
  then show "doDelete env d ?obj is_child su
           = (if is_child \<or> hard then Inr (True, delete_rows d i hard)
              else (case log_insert env (delete_rows d i hard)
                           [(''objectId'', JStr i), (''action'', JStr ''DELETE''),
                            (''created'', now env), (''createdBy'', now env),
                            (''updated'', now env), (''updatedBy'', now env)] of
                      Inl e \<Rightarrow> Inl e
                    | Inr d3 \<Rightarrow> Inr (True, d3)))"
    by simp
qed

theorem lock_is_not_checked_witness:
  "doUpdate example_env example_db
     \<lparr>upd_name = ''Contact'', upd_id = ''cat'',
      upd_data = [Replace ''firstName'' (JStr ''Augusta'')],
      upd_cache = Some [Replace ''firstName'' (JStr ''Augusta'')],
      upd_eventkey = Some ''k2''\<rparr> False (Some False) = Inr (Answer False, example_db)
   \<and> row_col (rows example_db ! 2) ''lock''
       = JObj [(''username'', JStr ''eve''), (''created'', JStr ''2019-04-30T08:00:00.000Z''),
               (''_nodeid'', JStr ''n1''), (''_eventkey'', JStr ''k1'')]
   \<and> map_sum id (\<lambda>r. (fst r, map (\<lambda>r. (pk r, row_col r ''id'', row_col r ''is_deleted'')) (rows (snd r))))
        (doDelete example_env example_db
           \<lparr>del_name = ''Contact'', del_id = ''cat'', del_isHard = False,
            del_eventkey = Some ''k2''\<rparr> False (Some False))
       = Inr (True, [(1, JStr ''ada'', JBool False), (2, JStr ''bob'', JBool True),
                     (3, JStr ''cat'', JBool True), (4, JStr ''id0'', JBool False)])
   \<and> doDelete example_env example_db
        \<lparr>del_name = ''Contact'', del_id = ''cat'', del_isHard = True,
         del_eventkey = Some ''k2''\<rparr> False (Some False)
       = Inr (True, delete_rows example_db ''cat'' True)"
proof -
  let ?r = "rows example_db ! 2"
  let ?lck = "[(''username'', JStr ''eve''), (''created'', JStr ''2019-04-30T08:00:00.000Z''),
               (''_nodeid'', JStr ''n1''), (''_eventkey'', JStr ''k1'')]"
  have 1: "catalog example_db ''Contact'' = Some contact_feather" by code_simp
  have 2: "f_name contact_feather = ''Contact''" by code_simp
  have 3: "''Contact'' \<noteq> []" by simp
  have 4: "''cat'' \<noteq> []" by simp
  have 5: "False \<or> \<not> isChild contact_feather" by code_simp
  have 6: "Some False = Some False \<longrightarrow>
             isAuthorized example_env (currentUser example_env) ''canUpdate'' ''cat'' \<and>
             isAuthorized example_env (currentUser example_env) ''canDelete'' ''cat''" by code_simp
  have 7: "\<forall>k\<in>fst ` set (properties contact_feather).
             CHR ''.'' \<notin> set k \<and> toSnakeCase example_env k \<noteq> ''result''" by code_simp
  have 8: "?r \<in> set (rows example_db)" by code_simp
  have 9: "toSnakeCase example_env ''Contact'' \<in> set (tables ?r)" by code_simp
  have 10: "live ?r" by code_simp
  have 11: "row_col ?r (toSnakeCase example_env ''id'') = JStr ''cat''" by code_simp
  have 12: "row_col ?r ''lock'' = JObj ?lck" by code_simp
  have 13: "get ?lck ''_eventkey'' = Some (JStr ''k1'')" by code_simp
  have 14: "Some ''k1'' \<noteq> Some ''k2''" by simp
  note t = lock_is_not_checked [OF 1 2 3 4 5 6 7 8 9 10 11 12 13 14]
  have u: "doUpdate example_env example_db
     \<lparr>upd_name = ''Contact'', upd_id = ''cat'',
      upd_data = [Replace ''firstName'' (JStr ''Augusta'')],
      upd_cache = Some [Replace ''firstName'' (JStr ''Augusta'')],
      upd_eventkey = Some ''k2''\<rparr> False (Some False) = Inr (Answer False, example_db)"
    using t [THEN conjunct1, of "[Replace ''firstName'' (JStr ''Augusta'')]"
               "Some [Replace ''firstName'' (JStr ''Augusta'')]"] by simp
  have h: "doDelete example_env example_db
        \<lparr>del_name = ''Contact'', del_id = ''cat'', del_isHard = True,
         del_eventkey = Some ''k2''\<rparr> False (Some False)
       = Inr (True, delete_rows example_db ''cat'' True)"
    using t [THEN conjunct2, of True] by simp
  have s: "map_sum id (\<lambda>r. (fst r, map (\<lambda>r. (pk r, row_col r ''id'', row_col r ''is_deleted'')) (rows (snd r))))
        (doDelete example_env example_db
           \<lparr>del_name = ''Contact'', del_id = ''cat'', del_isHard = False,
            del_eventkey = Some ''k2''\<rparr> False (Some False))
       = Inr (True, [(1, JStr ''ada'', JBool False), (2, JStr ''bob'', JBool True),
                     (3, JStr ''cat'', JBool True), (4, JStr ''id0'', JBool False)])"
    by code_simp
  show ?thesis using u 12 s h by simp
qed


text \<open>
  Claim C2 says that \<open>doUpdate\<close> with an empty patch resolves to an empty
  array and leaves the stored record with its etag as it is, and that every
  successful patch that is not empty changes the etag of the record. The
  first holds for every request. A patch that is not empty, on a record that
  is there, resolves to \<open>false\<close> and leaves the state as it is: the
  record that is read before the update has no members, and \<open>doUpdate\<close>
  returns before the etag is set.
\<close>

theorem doUpdate_never_stamps:
  "doUpdate env d (obj\<lparr>upd_data := []\<rparr>) is_child su = Inr (Changes [], d)
   \<and> (upd_data obj \<noteq> [] \<and> upd_id obj \<noteq> [] \<and>
      catalog d (upd_name obj) = Some feather \<and> f_name feather = upd_name obj \<and>
      upd_name obj \<noteq> [] \<and> (is_child \<or> \<not> isChild feather) \<and>
      (su = Some False \<longrightarrow> isAuthorized env (currentUser env) ''canUpdate'' (upd_id obj)) \<and>
      (\<forall>k\<in>fst ` set (properties feather). CHR ''.'' \<notin> set k \<and> toSnakeCase env k \<noteq> ''result'') \<and>
      r \<in> set (rows d) \<and> toSnakeCase env (upd_name obj) \<in> set (tables r) \<and> live r \<and>
      row_col r (toSnakeCase env ''id'') = JStr (upd_id obj)
      \<longrightarrow> doUpdate env d obj is_child su = Inr (Answer False, d))"
proof (intro conjI impI)
  show "doUpdate env d (obj\<lparr>upd_data := []\<rparr>) is_child su = Inr (Changes [], d)"
    by (simp add: doUpdate_def)
next
  assume h: "upd_data obj \<noteq> [] \<and> upd_id obj \<noteq> [] \<and>
      catalog d (upd_name obj) = Some feather \<and> f_name feather = upd_name obj \<and>
      upd_name obj \<noteq> [] \<and> (is_child \<or> \<not> isChild feather) \<and>
      (su = Some False \<longrightarrow> isAuthorized env (currentUser env) ''canUpdate'' (upd_id obj)) \<and>
      (\<forall>k\<in>fst ` set (properties feather). CHR ''.'' \<notin> set k \<and> toSnakeCase env k \<noteq> ''result'') \<and>
      r \<in> set (rows d) \<and> toSnakeCase env (upd_name obj) \<in> set (tables r) \<and> live r \<and>
      row_col r (toSnakeCase env ''id'') = JStr (upd_id obj)"
  show "doUpdate env d obj is_child su = Inr (Answer False, d)"
    by (rule doUpdate_existing [where feather = feather and r = r]) (use h in auto)
qed

theorem doUpdate_never_stamps_witness:
  "doUpdate example_env example_db
     \<lparr>upd_name = ''Contact'', upd_id = ''ada'',
      upd_data = [Replace ''firstName'' (JStr ''Augusta'')],
      upd_cache = Some [Replace ''firstName'' (JStr ''Augusta'')],
      upd_eventkey = None\<rparr> False (Some False) = Inr (Answer False, example_db)
   \<and> row_col (rows example_db ! 0) ''etag'' = JStr ''e1''
   \<and> row_col (rows example_db ! 0) ''id'' = JStr ''ada''"
proof -
  let ?obj = "\<lparr>upd_name = ''Contact'', upd_id = ''ada'',
      upd_data = [Replace ''firstName'' (JStr ''Augusta'')],
      upd_cache = Some [Replace ''firstName'' (JStr ''Augusta'')],
      upd_eventkey = None\<rparr>"
  let ?r = "rows example_db ! 0"
  have h: "upd_data ?obj \<noteq> [] \<and> upd_id ?obj \<noteq> [] \<and>
      catalog example_db (upd_name ?obj) = Some contact_feather \<and>
      f_name contact_feather = upd_name ?obj \<and>
      upd_name ?obj \<noteq> [] \<and> (False \<or> \<not> isChild contact_feather) \<and>
      (Some False = Some False \<longrightarrow>
         isAuthorized example_env (currentUser example_env) ''canUpdate'' (upd_id ?obj)) \<and>
      (\<forall>k\<in>fst ` set (properties contact_feather).
         CHR ''.'' \<notin> set k \<and> toSnakeCase example_env k \<noteq> ''result'') \<and>
      ?r \<in> set (rows example_db) \<and> toSnakeCase example_env (upd_name ?obj) \<in> set (tables ?r) \<and>
      live ?r \<and> row_col ?r (toSnakeCase example_env ''id'') = JStr (upd_id ?obj)"
    by code_simp
  have e: "row_col ?r ''etag'' = JStr ''e1''" by code_simp
  have i: "row_col ?r ''id'' = JStr ''ada''" by code_simp
  have "doUpdate example_env example_db ?obj False (Some False) = Inr (Answer False, example_db)"
    using doUpdate_never_stamps [THEN conjunct2, rule_format, OF h] .
  then show ?thesis using e i by simp
qed

section \<open>The records of a select without an id\<close>

lemma sanitize_object: "is_object v \<Longrightarrow> sanitize cc v = Inr v' \<Longrightarrow> is_object v'"
  by (cases v) (auto split: sum.splits)

lemma sanitize_keys_string:
  "sanitize_keys cc kvs acc = Inr res \<Longrightarrow> get res k = Some (JStr s) \<Longrightarrow>
     get acc k = Some (JStr s) \<or> (\<exists>c. (c, JStr s) \<in> set kvs \<and> \<not> internal c \<and> cc c = k)"
proof (induction kvs arbitrary: acc)
  case Nil
  then show ?case by simp
next
  case (Cons kv kvs)
  obtain c v where kv: "kv = (c, v)" by (cases kv)
  show ?case
  proof (cases "internal c")
    case True
    then have "sanitize_keys cc kvs acc = Inr res" using Cons.prems(1) kv by simp
    from Cons.IH [OF this Cons.prems(2)] show ?thesis by auto
  next
    case False
    show ?thesis
    proof (cases "is_object v")
      case True
      then obtain v' where v': "sanitize cc v = Inr v'"
        and r: "sanitize_keys cc kvs (put (cc c) v' acc) = Inr res"
        using Cons.prems(1) kv False by (auto split: sum.splits)
      have "is_object v'" using sanitize_object [OF True v'] .
      then have "v' \<noteq> JStr s" by auto
      then have "get (put (cc c) v' acc) k = Some (JStr s) \<Longrightarrow> get acc k = Some (JStr s)"
        by (cases "k = cc c") (simp_all add: get_put_same get_put_other)
      then show ?thesis using Cons.IH [OF r Cons.prems(2)] by auto
    next
      case obj: False
      then have r: "sanitize_keys cc kvs (put (cc c) v acc) = Inr res"
        using Cons.prems(1) kv False by simp
      have "get (put (cc c) v acc) k = Some (JStr s) \<Longrightarrow>
              get acc k = Some (JStr s) \<or> (cc c = k \<and> v = JStr s)"
        by (cases "k = cc c") (simp_all add: get_put_same get_put_other)
      then show ?thesis using Cons.IH [OF r Cons.prems(2)] kv False by auto
    qed
  qed
qed

lemma sanitize_ary_items:
  "sanitize_ary cc xs = Inr ys \<Longrightarrow> y \<in> set ys \<Longrightarrow> \<exists>x\<in>set xs. sanitize_item cc x = Inr y"
proof (induction xs arbitrary: ys)
  case Nil
  then show ?case by simp
next
  case (Cons x xs)
  then show ?case by (auto split: sum.splits)
qed

lemma set_put: "set (put k v m) \<subseteq> insert (k, v) (set m)"
  by (induction m) (auto split: if_splits)

lemma row_object_id:
  assumes "sanitize_item cc (row_object name keys names r) = Inr item"
    and "member (Some item) ''id'' = Some (JStr i)"
    and "\<forall>c\<in>set names. cc c = ''id'' \<longrightarrow> c = ''id''" and "cc ''objectType'' \<noteq> ''id''"
  shows "row_col r ''id'' = JStr i"
proof -
  let ?cells = "(''_pk'', JNum (int (pk r))) # map (\<lambda>c. (c, row_col r c)) names"
  let ?all = "if ''objectType'' \<in> set keys then put ''objectType'' (JStr name) ?cells else ?cells"
  obtain res where s: "sanitize_keys cc ?all [] = Inr res" and i: "item = JObj res"
    using assms(1) by (auto simp: row_object_def Let_def split: sum.splits if_splits)
  have "get res ''id'' = Some (JStr i)" using assms(2) i by (simp add: member_def)
  from sanitize_keys_string [OF s this]
  obtain c where c: "(c, JStr i) \<in> set ?all" "\<not> internal c" "cc c = ''id''"
    by (auto simp: get_def)
  have "(c, JStr i) \<in> insert (''objectType'', JStr name) (set ?cells)"
    using c(1) set_put [of "''objectType''" "JStr name" ?cells] by (auto split: if_splits)
  then have "(c, JStr i) \<in> set ?cells" using c(3) assms(4) by auto
  then have "c \<in> set names \<and> row_col r c = JStr i" by auto
  then show ?thesis using c(3) assms(3) by auto
qed

lemma doSelect_list:
  assumes "doSelect env d req ic su = Inr (Some (JArr items), d'')"
    and "\<not> truthy_opt (sel_id req)" and "catalog d (sel_name req) = Some feather"
    and "item \<in> set items"
  shows "\<exists>pks names ord keys x.
           fst (getKeys env d \<lparr>k_name = sel_name req, k_filter = sel_filter req,
                               k_showDeleted = sel_showDeleted req\<rparr> su) = Inr pks \<and>
           select_columns (toSnakeCase env) (properties feather) keys = Inr names \<and>
           x \<in> set (fetch env d (toSnakeCase env (f_name feather)) pks ord) \<and>
           sanitize_item (toCamelCase env) (row_object (sel_name req) keys names x) = Inr item"
proof -
  let ?keys = "case sel_properties req of None \<Rightarrow> map fst (properties feather)
               | Some ps \<Rightarrow> strip_dots ps []"
  obtain names where n: "select_columns (toSnakeCase env) (properties feather) ?keys = Inr names"
    using assms(1,3)
    by (cases "select_columns (toSnakeCase env) (properties feather) ?keys")
       (auto simp: doSelect_def Let_def split: if_splits)
  obtain pks where p: "fst (getKeys env d \<lparr>k_name = sel_name req, k_filter = sel_filter req,
                               k_showDeleted = sel_showDeleted req\<rparr> su) = Inr pks"
    using assms(1,2,3) n
    by (cases "fst (getKeys env d \<lparr>k_name = sel_name req, k_filter = sel_filter req,
                               k_showDeleted = sel_showDeleted req\<rparr> su)")
       (auto simp: doSelect_def Let_def split: if_splits)
  have ne: "pks \<noteq> []"
    using assms(1,2,3,4) n p
    by (auto simp: doSelect_def Let_def split: if_splits sum.splits)
  let ?sorts = "case sel_filter req of None \<Rightarrow> []
                | Some f \<Rightarrow> (case f_sort f of None \<Rightarrow> [] | Some c \<Rightarrow> c @ [pk_entry])"
  obtain order_by tokens ord where
    o: "fst (processSort (toSnakeCase env) ?sorts []) = Inr (order_by, tokens, ord)"
    using assms(1,2,3) n p ne
    by (cases "fst (processSort (toSnakeCase env) ?sorts [])")
       (auto simp: doSelect_def Let_def split: if_splits)
  let ?rows = "map (row_object (sel_name req) ?keys names)
                 (fetch env d (toSnakeCase env (f_name feather)) pks ord)"
  have "sanitize (toCamelCase env) (JArr ?rows) = Inr (JArr items)"
    using assms(1,2,3) n p ne o
    by (auto simp: doSelect_def Let_def split: if_splits sum.splits prod.splits)
  then have "sanitize_ary (toCamelCase env) ?rows = Inr items"
    by (auto split: sum.splits)
  from sanitize_ary_items [OF this assms(4)]
  obtain x where "x \<in> set (fetch env d (toSnakeCase env (f_name feather)) pks ord)"
    "sanitize_item (toCamelCase env) (row_object (sel_name req) ?keys names x) = Inr item"
    by auto
  then show ?thesis using p n by blast
qed

lemma select_columns_error: "select_columns sc props keys = Inl x \<Longrightarrow> x = TypeError"
  by (induction keys arbitrary: x) (auto split: option.splits sum.splits)

lemma doSelect_gone:
  assumes "\<forall>r\<in>set (rows d). row_col r ''id'' = JStr i \<longrightarrow> \<not> live r"
    and "toSnakeCase env ''id'' = ''id''" and "i \<noteq> []"
    and "sel_id req = Some (JStr i)" and "\<not> sel_showDeleted req"
    and "catalog d (sel_name req) = Some feather"
    and "ic \<or> \<not> isChild feather \<or> su = Some True"
  shows "(doSelect env d req ic su = Inr (None, d) \<or> doSelect env d req ic su = Inl TypeError) \<and>
         (sel_properties req = None \<longrightarrow> doSelect env d req ic su = Inr (None, d))"
proof -
  let ?keys = "case sel_properties req of None \<Rightarrow> map fst (properties feather)
               | Some ps \<Rightarrow> strip_dots ps []"
  have g: "getKey env d (Some (sel_name req)) (sel_id req) (sel_showDeleted req) su = Inr None"
    using getKey_none [OF assms(1,2)] assms(4,5) by simp
  have tr: "truthy_opt (sel_id req)" using assms(3,4) by (simp add: truthy_opt_def)
  have u: "doSelect env d req ic su
             = (case select_columns (toSnakeCase env) (properties feather) ?keys of
                  Inl e \<Rightarrow> Inl e | Inr names \<Rightarrow> Inr (None, d))"
  proof -
    have nb: "\<not> (\<not> ic \<and> isChild feather \<and> su \<noteq> Some True)" using assms(7) by blast
    show ?thesis
      unfolding doSelect_def Let_def using assms(6) g tr nb
      by (cases ic; cases "isChild feather"; cases "su = Some True")
         (simp_all cong: sum.case_cong)
  qed
  have n: "sel_properties req = None \<Longrightarrow>
               select_columns (toSnakeCase env) (properties feather) ?keys
                 = Inr (map (toSnakeCase env)
                          (filter (\<lambda>k. k \<noteq> ''objectType'') (map fst (properties feather))))"
    using select_columns_known [of "map fst (properties feather)" "properties feather"
                                   "toSnakeCase env"] by simp
  show ?thesis
  proof (cases "select_columns (toSnakeCase env) (properties feather) ?keys")
    case (Inl x)
    then have x: "x = TypeError" using select_columns_error by blast
    have "sel_properties req \<noteq> None"
    proof
      assume "sel_properties req = None"
      then show False using n Inl by simp
    qed
    then show ?thesis using u Inl x by simp
  next
    case (Inr names)
    then show ?thesis using u by simp
  qed
qed

lemma doSelect_list_other:
  assumes "\<And>req su keys table ord r.
             \<not> k_showDeleted req \<Longrightarrow> fst (getKeys env d req su) = Inr keys \<Longrightarrow>
             r \<in> set (fetch env d table keys ord) \<Longrightarrow> row_col r ''id'' \<noteq> JStr i"
    and "\<not> truthy_opt (sel_id req)" and "\<not> sel_showDeleted req"
    and "catalog d (sel_name req) = Some feather"
    and "\<forall>k\<in>fst ` set (properties feather).
               toCamelCase env (toSnakeCase env k) = ''id'' \<longrightarrow> toSnakeCase env k = ''id''"
    and "toCamelCase env ''objectType'' \<noteq> ''id''"
    and "doSelect env d req ic su = Inr (Some (JArr items), d'')" and "item \<in> set items"
  shows "member (Some item) ''id'' \<noteq> Some (JStr i)"
proof
  assume m: "member (Some item) ''id'' = Some (JStr i)"
  from doSelect_list [OF assms(7,2,4,8)]
  obtain pks names ord keys x where
    p: "fst (getKeys env d \<lparr>k_name = sel_name req, k_filter = sel_filter req,
                             k_showDeleted = sel_showDeleted req\<rparr> su) = Inr pks"
    and n: "select_columns (toSnakeCase env) (properties feather) keys = Inr names"
    and x: "x \<in> set (fetch env d (toSnakeCase env (f_name feather)) pks ord)"
    and s: "sanitize_item (toCamelCase env) (row_object (sel_name req) keys names x) = Inr item"
    by blast
  have "\<forall>c\<in>set names. toCamelCase env c = ''id'' \<longrightarrow> c = ''id''"
  proof
    fix c assume "c \<in> set names"
    then obtain k where "k \<in> fst ` set (properties feather)" "c = toSnakeCase env k"
      using select_columns_names [OF n] by blast
    then show "toCamelCase env c = ''id'' \<longrightarrow> c = ''id''" using assms(5) by blast
  qed
  from row_object_id [OF s m this assms(6)]
  have "row_col x ''id'' = JStr i" .
  moreover have "row_col x ''id'' \<noteq> JStr i"
    by (rule assms(1) [OF _ p x]) (simp add: assms(3))
  ultimately show False by simp
qed

text \<open>
  Claim C5 says that an object on which a soft delete has succeeded does not
  appear in a result of \<open>getKeys\<close> or of \<open>doSelect\<close> unless
  \<open>showDeleted\<close> is set. Here every row is a row of the table \<open>object\<close>,
  as the tables of the feathers inherit from it, and the primary keys of the
  rows are distinct. After the delete no row with the id of the object is
  live; a request for keys without \<open>showDeleted\<close> returns the keys of live
  rows with another id only, so that the rows \<open>doSelect\<close> fetches for them
  are rows of other objects; \<open>doSelect\<close> by the id of the object
  resolves to no record; and no record of the array that \<open>doSelect\<close>
  without an id resolves to has the id of the object.
\<close>

theorem doDelete_soft_invisible:
  assumes "doDelete env d obj is_child su = Inr (b, d')" and "\<not> del_isHard obj"
    and "\<forall>r\<in>set (rows d). ''object'' \<in> set (tables r)"
    and "distinct (map pk (rows d))"
    and "r0 \<in> set (rows d)" and "row_col r0 ''id'' = JStr (del_id obj)"
  shows "(\<forall>r\<in>set (rows d'). row_col r ''id'' = JStr (del_id obj) \<longrightarrow> \<not> live r)
       \<and> (\<forall>req su' keys. \<not> k_showDeleted req \<and> fst (getKeys env d' req su') = Inr keys \<longrightarrow>
            (\<forall>r\<in>set (rows d'). pk r \<in> set keys \<longrightarrow>
               live r \<and> row_col r ''id'' \<noteq> JStr (del_id obj)))
       \<and> (\<forall>req su' keys table ord.
            \<not> k_showDeleted req \<and> fst (getKeys env d' req su') = Inr keys \<longrightarrow>
            (\<forall>r\<in>set (fetch env d' table keys ord). row_col r ''id'' \<noteq> JStr (del_id obj)))
       \<and> (\<forall>req ic su' feather.
            toSnakeCase env ''id'' = ''id'' \<and> del_id obj \<noteq> [] \<and>
            sel_id req = Some (JStr (del_id obj)) \<and> \<not> sel_showDeleted req \<and>
            catalog d' (sel_name req) = Some feather \<and>
            (ic \<or> \<not> isChild feather \<or> su' = Some True) \<longrightarrow>
            (doSelect env d' req ic su' = Inr (None, d') \<or>
             doSelect env d' req ic su' = Inl TypeError) \<and>
            (sel_properties req = None \<longrightarrow> doSelect env d' req ic su' = Inr (None, d')))
       \<and> (\<forall>req ic su' feather items d'' item.
            \<not> truthy_opt (sel_id req) \<and> \<not> sel_showDeleted req \<and>
            catalog d' (sel_name req) = Some feather \<and>
            (\<forall>k\<in>fst ` set (properties feather).
               toCamelCase env (toSnakeCase env k) = ''id'' \<longrightarrow> toSnakeCase env k = ''id'') \<and>
            toCamelCase env ''objectType'' \<noteq> ''id'' \<and>
            doSelect env d' req ic su' = Inr (Some (JArr items), d'') \<and> item \<in> set items \<longrightarrow>
            member (Some item) ''id'' \<noteq> Some (JStr (del_id obj)))"
proof -
  from doDelete_soft_state [OF assms]
  have a: "\<forall>r\<in>set (rows d'). row_col r ''id'' = JStr (del_id obj) \<longrightarrow> \<not> live r"
    and dist: "distinct (map pk (rows d'))" by blast+
  have inj: "r = r'" if "r \<in> set (rows d')" "r' \<in> set (rows d')" "pk r = pk r'" for r r'
    using dist that by (meson distinct_map inj_onD)
  have b: "live r \<and> row_col r ''id'' \<noteq> JStr (del_id obj)"
    if "\<not> k_showDeleted req" "fst (getKeys env d' req su') = Inr keys"
       "r \<in> set (rows d')" "pk r \<in> set keys" for req su' keys r
  proof -
    from getKeys_live [OF that(2,1)] that(4)
    obtain r1 where "r1 \<in> set (rows d')" "live r1" "pk r1 = pk r" by auto
    then have "live r" using inj [OF that(3), of r1] by auto
    then show ?thesis using a that(3) by auto
  qed
  have c: "row_col r ''id'' \<noteq> JStr (del_id obj)"
    if "\<not> k_showDeleted req" "fst (getKeys env d' req su') = Inr keys"
       "r \<in> set (fetch env d' table keys ord)" for req su' keys table ord r
  proof -
    have "r \<in> set (rows d') \<and> pk r \<in> set keys"
      using that(3) by (auto simp: fetch_def set_sort_rows)
    then show ?thesis using b [OF that(1,2)] by blast
  qed
  have B: "\<forall>req su' keys. \<not> k_showDeleted req \<and> fst (getKeys env d' req su') = Inr keys \<longrightarrow>
            (\<forall>r\<in>set (rows d'). pk r \<in> set keys \<longrightarrow>
               live r \<and> row_col r ''id'' \<noteq> JStr (del_id obj))"
    using b by blast
  have C: "\<forall>req su' keys table ord.
            \<not> k_showDeleted req \<and> fst (getKeys env d' req su') = Inr keys \<longrightarrow>
            (\<forall>r\<in>set (fetch env d' table keys ord). row_col r ''id'' \<noteq> JStr (del_id obj))"
    using c by blast
  have E: "\<forall>req ic su' feather.
            toSnakeCase env ''id'' = ''id'' \<and> del_id obj \<noteq> [] \<and>
            sel_id req = Some (JStr (del_id obj)) \<and> \<not> sel_showDeleted req \<and>
            catalog d' (sel_name req) = Some feather \<and>
            (ic \<or> \<not> isChild feather \<or> su' = Some True) \<longrightarrow>
            (doSelect env d' req ic su' = Inr (None, d') \<or>
             doSelect env d' req ic su' = Inl TypeError) \<and>
            (sel_properties req = None \<longrightarrow> doSelect env d' req ic su' = Inr (None, d'))"
  proof (intro allI impI)
    fix req :: select_req and ic su' feather
    assume h: "toSnakeCase env ''id'' = ''id'' \<and> del_id obj \<noteq> [] \<and>
            sel_id req = Some (JStr (del_id obj)) \<and> \<not> sel_showDeleted req \<and>
            catalog d' (sel_name req) = Some feather \<and>
            (ic \<or> \<not> isChild feather \<or> su' = Some True)"
    show "(doSelect env d' req ic su' = Inr (None, d') \<or>
             doSelect env d' req ic su' = Inl TypeError) \<and>
            (sel_properties req = None \<longrightarrow> doSelect env d' req ic su' = Inr (None, d'))"
      by (rule doSelect_gone [OF a, where feather = feather]) (use h in simp_all)
  qed
  have F: "\<forall>req ic su' feather items d'' item.
            \<not> truthy_opt (sel_id req) \<and> \<not> sel_showDeleted req \<and>
            catalog d' (sel_name req) = Some feather \<and>
            (\<forall>k\<in>fst ` set (properties feather).
               toCamelCase env (toSnakeCase env k) = ''id'' \<longrightarrow> toSnakeCase env k = ''id'') \<and>
            toCamelCase env ''objectType'' \<noteq> ''id'' \<and>
            doSelect env d' req ic su' = Inr (Some (JArr items), d'') \<and> item \<in> set items \<longrightarrow>
            member (Some item) ''id'' \<noteq> Some (JStr (del_id obj))"
  proof (intro allI impI)
    fix req :: select_req and ic su' feather items d'' item
    assume h: "\<not> truthy_opt (sel_id req) \<and> \<not> sel_showDeleted req \<and>
            catalog d' (sel_name req) = Some feather \<and>
            (\<forall>k\<in>fst ` set (properties feather).
               toCamelCase env (toSnakeCase env k) = ''id'' \<longrightarrow> toSnakeCase env k = ''id'') \<and>
            toCamelCase env ''objectType'' \<noteq> ''id'' \<and>
            doSelect env d' req ic su' = Inr (Some (JArr items), d'') \<and> item \<in> set items"
    show "member (Some item) ''id'' \<noteq> Some (JStr (del_id obj))"
      by (rule doSelect_list_other [where d = d' and req = req and feather = feather
                                      and items = items and env = env and ic = ic and su = su'
                                      and d'' = d''])
         (use h c in \<open>simp_all\<close>)
  qed
  show ?thesis by (intro conjI a B C E F)
qed

theorem doDelete_soft_invisible_witness:
  "fst (getKeys example_env
          (snd (projr (doDelete example_env example_db
                         \<lparr>del_name = ''Contact'', del_id = ''ada'', del_isHard = False,
                          del_eventkey = None\<rparr> False (Some False))))
          \<lparr>k_name = ''Object'', k_filter = None, k_showDeleted = False\<rparr> (Some False)) = Inr [3, 4]
   \<and> map (\<lambda>r. (pk r, row_col r ''id'', live r))
        (rows (snd (projr (doDelete example_env example_db
                         \<lparr>del_name = ''Contact'', del_id = ''ada'', del_isHard = False,
                          del_eventkey = None\<rparr> False (Some False)))))
       = [(1, JStr ''ada'', False), (2, JStr ''bob'', False), (3, JStr ''cat'', True),
          (4, JStr ''id0'', True)]
   \<and> live (rows (snd (projr (doDelete example_env example_db
                         \<lparr>del_name = ''Contact'', del_id = ''ada'', del_isHard = False,
                          del_eventkey = None\<rparr> False (Some False)))) ! 2)
   \<and> map_sum id fst
        (doSelect example_env
           (snd (projr (doDelete example_env example_db
                         \<lparr>del_name = ''Contact'', del_id = ''ada'', del_isHard = False,
                          del_eventkey = None\<rparr> False (Some False))))
           \<lparr>sel_name = ''Contact'', sel_id = Some (JStr ''ada''), sel_showDeleted = False,
            sel_properties = None, sel_sanitize = True, sel_filter = None,
            sel_subscription = None\<rparr> False (Some False)) = Inr None
   \<and> map_sum id (\<lambda>r. case fst r of Some (JArr items) \<Rightarrow> map (\<lambda>item. member (Some item) ''id'') items
                                   | _ \<Rightarrow> [])
        (doSelect example_env
           (snd (projr (doDelete example_env example_db
                         \<lparr>del_name = ''Contact'', del_id = ''ada'', del_isHard = False,
                          del_eventkey = None\<rparr> False (Some False))))
           \<lparr>sel_name = ''Contact'', sel_id = None, sel_showDeleted = False,
            sel_properties = None, sel_sanitize = True, sel_filter = None,
            sel_subscription = None\<rparr> False (Some False)) = Inr [Some (JStr ''cat'')]"
proof -
  let ?obj = "\<lparr>del_name = ''Contact'', del_id = ''ada'', del_isHard = False, del_eventkey = None\<rparr>"
  let ?X = "doDelete example_env example_db ?obj False (Some False)"
  let ?D = "snd (projr ?X)"
  let ?req = "\<lparr>k_name = ''Object'', k_filter = None, k_showDeleted = False\<rparr>"
  let ?sel = "\<lparr>sel_name = ''Contact'', sel_id = Some (JStr ''ada''), sel_showDeleted = False,
            sel_properties = None, sel_sanitize = True, sel_filter = None,
            sel_subscription = None\<rparr>"
  let ?lst = "\<lparr>sel_name = ''Contact'', sel_id = None, sel_showDeleted = False,
            sel_properties = None, sel_sanitize = True, sel_filter = None,
            sel_subscription = None\<rparr>"
  have x: "\<not> isl ?X" by code_simp
  have 1: "?X = Inr (fst (projr ?X), ?D)" using x by (cases ?X) auto
  have 2: "\<not> del_isHard ?obj" by simp
  have 3: "\<forall>r\<in>set (rows example_db). ''object'' \<in> set (tables r)" by code_simp
  have 4: "distinct (map pk (rows example_db))" by code_simp
  have 5: "rows example_db ! 0 \<in> set (rows example_db)" by code_simp
  have 6: "row_col (rows example_db ! 0) ''id'' = JStr (del_id ?obj)" by code_simp
  note t = doDelete_soft_invisible [OF 1 2 3 4 5 6]
  have g: "fst (getKeys example_env ?D ?req (Some False)) = Inr [3, 4]" by code_simp
  have k: "\<not> k_showDeleted ?req" by simp
  have s1: "toSnakeCase example_env ''id'' = ''id''" by code_simp
  have s2: "catalog ?D (sel_name ?sel) = Some contact_feather" by code_simp
  have s3: "\<not> isChild contact_feather" by code_simp
  have m: "map (\<lambda>r. (pk r, row_col r ''id'', live r)) (rows ?D)
             = [(1, JStr ''ada'', False), (2, JStr ''bob'', False), (3, JStr ''cat'', True),
                (4, JStr ''id0'', True)]" by code_simp
  have l: "map_sum id (\<lambda>r. case fst r of Some (JArr items) \<Rightarrow> map (\<lambda>item. member (Some item) ''id'') items
                                   | _ \<Rightarrow> [])
             (doSelect example_env ?D ?lst False (Some False)) = Inr [Some (JStr ''cat'')]"
    by code_simp
  have r1: "rows ?D ! 2 \<in> set (rows ?D)" by code_simp
  have r2: "pk (rows ?D ! 2) \<in> set [3, 4]" by code_simp
  have b: "live (rows ?D ! 2)"
    using t [THEN conjunct2, THEN conjunct1, rule_format, of ?req "Some False" "[3, 4]",
             OF conjI [OF k g] r1 r2]
    by (rule conjunct1)
  have "doSelect example_env ?D ?sel False (Some False) = Inr (None, ?D)"
    using t [THEN conjunct2, THEN conjunct2, THEN conjunct2, THEN conjunct1, rule_format,
             of ?sel contact_feather False "Some False", THEN conjunct2] s1 s2 s3
    by simp
  then show ?thesis using g m b l by simp
qed

text \<open>
  Claim C9 says that \<open>doInsert\<close> with the id of any existing record
  replaces the id by a fresh one and inserts a new record under it, without
  rejecting and without touching the existing record. For the id of a record
  that is not deleted this is what happens: the id check replaces the id, and
  a successful insert appends a row with the next primary key and the fresh
  id behind the rows that were there. \<open>getKey\<close> looks for the id without
  \<open>showDeleted\<close>, though: the id of a record that is deleted is kept,
  and the insert never succeeds, as the id is in the table already.
\<close>

theorem doInsert_id_check:
  assumes "catalog d (ins_name obj) = Some feather"
    and "get (ins_data obj) ''id'' = Some (JStr i)" and "i \<noteq> []"
    and "map_of (properties feather) ''id'' = Some prp" and "p_autonumber prp = None"
    and "\<not> (p_type prp = ''object'' \<and> p_format prp = Some ''money'')"
    and "\<forall>k\<in>fst ` set (properties feather).
           toSnakeCase env k = toSnakeCase env ''id'' \<longrightarrow> k = ''id''"
  shows "((\<exists>r\<in>set (rows d). toSnakeCase env ''Object'' \<in> set (tables r) \<and> live r \<and>
                              row_col r (toSnakeCase env ''id'') = JStr i) \<longrightarrow>
          id_check env d (ins_data obj)
            = Inr (put ''id'' (JStr (createId env (ids_drawn d))) (ins_data obj),
                   d\<lparr>ids_drawn := Suc (ids_drawn d)\<rparr>)
          \<and> (\<forall>res d'. doInsert env d obj is_child su = Inr (res, d') \<longrightarrow>
               (\<exists>new logs. rows d' = rows d @ new # logs \<and> pk new = Suc (pk_seq d) \<and>
                  get (cols new) (toSnakeCase env ''id'')
                    = Some (JStr (createId env (ids_drawn d))))))
       \<and> ((\<forall>r\<in>set (rows d). \<not> (toSnakeCase env ''Object'' \<in> set (tables r) \<and> live r \<and>
                                  row_col r (toSnakeCase env ''id'') = JStr i)) \<and>
           (\<exists>r\<in>set (rows d). row_col r ''id'' = JStr i) \<and> toSnakeCase env ''id'' = ''id'' \<longrightarrow>
          id_check env d (ins_data obj) = Inr (ins_data obj, d)
          \<and> (\<forall>res d'. doInsert env d obj is_child su \<noteq> Inr (res, d')))"
proof (intro conjI impI)
  assume "\<exists>r\<in>set (rows d). toSnakeCase env ''Object'' \<in> set (tables r) \<and> live r \<and>
                              row_col r (toSnakeCase env ''id'') = JStr i"
  then obtain r where r: "r \<in> set (rows d)" "toSnakeCase env ''Object'' \<in> set (tables r)"
    "live r" "row_col r (toSnakeCase env ''id'') = JStr i" by blast
  let ?fresh = "JStr (createId env (ids_drawn d))"
  let ?given = "put ''id'' ?fresh (ins_data obj)"
  let ?full = "put ''lock'' JNull
                 (put ''isDeleted'' (JBool False)
                   (put ''updatedBy'' (JStr (currentUser env))
                     (put ''createdBy'' (JStr (currentUser env))
                       (put ''created'' (now env)
                         (put ''updated'' (now env) ?given)))))"
  show i: "id_check env d (ins_data obj) = Inr (?given, d\<lparr>ids_drawn := Suc (ids_drawn d)\<rparr>)"
    using id_check_taken [OF r assms(3,2)] .
  have g: "get ?full ''id'' = Some ?fresh"
    by (simp add: get_put_other get_put_same)
  have "\<exists>new logs. rows d' = rows d @ new # logs \<and> pk new = Suc (pk_seq d) \<and>
               get (cols new) (toSnakeCase env ''id'') = Some ?fresh"
    if ok: "doInsert env d obj is_child su = Inr (res, d')" for res d'
  proof -
    obtain data d1 where ins: "insert_record env d obj is_child su = Inr (data, d1)"
      using ok by (cases "insert_record env d obj is_child su") (auto simp: doInsert_def)
    from insert_record_new [OF ins assms(1) i]
    obtain vals d2 d3 where b: "buildInsert env feather ?full (properties feather) d2 [] = Inr (vals, d3)"
      and r1: "rows d1 = rows d @ [\<lparr>pk = Suc (pk_seq d),
                                     tables = map (toSnakeCase env) (ancestors feather), cols = vals\<rparr>]"
      by blast
    have c: "get vals (toSnakeCase env ''id'') = Some ?fresh"
      using buildInsert_col [OF b assms(4) _ assms(5,6) g assms(7)] by simp
    show ?thesis
    proof (cases is_child)
      case True
      then have "d' = d1" using ok ins by (simp add: doInsert_def)
      then show ?thesis using r1 c by simp
    next
      case False
      let ?sel = "\<lparr>sel_name = ins_name obj, sel_id = get data ''id'', sel_showDeleted = False,
                     sel_properties = None, sel_sanitize = True, sel_filter = None,
                     sel_subscription = None\<rparr>"
      obtain result d2' where s: "doSelect env d1 ?sel False None = Inr (result, d2')"
        using ok ins False by (cases "doSelect env d1 ?sel False None") (auto simp: doInsert_def)
      have d2': "d2' = d1" using doSelect_state [OF s] by simp
      obtain lg logged where
        l: "insert_record env d1 \<lparr>ins_name = ''Log'', ins_data = lg, ins_cache = None\<rparr> True None
              = Inr (logged, d')"
        using ok ins False s d2'
        by (auto simp: doInsert_def split: option.splits sum.splits)
      from insert_record_rows [OF l] obtain x where "rows d' = rows d1 @ [x]" by blast
      then show ?thesis using r1 c by simp
    qed
  qed
  then show "\<forall>res d'. doInsert env d obj is_child su = Inr (res, d') \<longrightarrow>
               (\<exists>new logs. rows d' = rows d @ new # logs \<and> pk new = Suc (pk_seq d) \<and>
                  get (cols new) (toSnakeCase env ''id'') = Some ?fresh)"
    by blast
next
  assume h: "(\<forall>r\<in>set (rows d). \<not> (toSnakeCase env ''Object'' \<in> set (tables r) \<and> live r \<and>
                                  row_col r (toSnakeCase env ''id'') = JStr i)) \<and>
           (\<exists>r\<in>set (rows d). row_col r ''id'' = JStr i) \<and> toSnakeCase env ''id'' = ''id''"
  let ?full = "put ''lock'' JNull
                 (put ''isDeleted'' (JBool False)
                   (put ''updatedBy'' (JStr (currentUser env))
                     (put ''createdBy'' (JStr (currentUser env))
                       (put ''created'' (now env)
                         (put ''updated'' (now env) (ins_data obj))))))"
  show i: "id_check env d (ins_data obj) = Inr (ins_data obj, d)"
    by (rule id_check_free [OF _ assms(3,2)]) (use h in blast)
  obtain r0 where r0: "r0 \<in> set (rows d)" "row_col r0 ''id'' = JStr i" using h by blast
  have g: "get ?full ''id'' = Some (JStr i)"
    using assms(2) by (simp add: get_put_other)
  have "doInsert env d obj is_child su \<noteq> Inr (res, d')" for res d'
  proof
    assume ok: "doInsert env d obj is_child su = Inr (res, d')"
    obtain data d1 where ins: "insert_record env d obj is_child su = Inr (data, d1)"
      using ok by (cases "insert_record env d obj is_child su") (auto simp: doInsert_def)
    from insert_record_new [OF ins assms(1) i]
    obtain vals d2 d3 where b: "buildInsert env feather ?full (properties feather) d2 [] = Inr (vals, d3)"
      and r1: "rows d1 = rows d @ [\<lparr>pk = Suc (pk_seq d),
                                     tables = map (toSnakeCase env) (ancestors feather), cols = vals\<rparr>]"
      by blast
    have c: "get vals ''id'' = Some (JStr i)"
      using buildInsert_col [OF b assms(4) _ assms(5,6) g assms(7)] h by simp
    from insert_record_rows [OF ins]
    obtain x where x: "rows d1 = rows d @ [x]"
      and n: "\<not> list_ex (\<lambda>r'. pk r' = pk x \<or>
                (row_col r' ''id'' \<noteq> JNull \<and> row_col r' ''id'' = row_col x ''id'')) (rows d)"
      by blast
    have "x = \<lparr>pk = Suc (pk_seq d), tables = map (toSnakeCase env) (ancestors feather), cols = vals\<rparr>"
      using x r1 by simp
    then have "row_col x ''id'' = JStr i" using c by (simp add: row_col_def)
    then have "row_col r0 ''id'' \<noteq> JNull \<and> row_col r0 ''id'' = row_col x ''id''"
      using r0 by simp
    then have "list_ex (\<lambda>r'. pk r' = pk x \<or>
                (row_col r' ''id'' \<noteq> JNull \<and> row_col r' ''id'' = row_col x ''id'')) (rows d)"
      unfolding list_ex_iff using r0(1) by blast
    then show False using n by simp
  qed
  then show "\<forall>res d'. doInsert env d obj is_child su \<noteq> Inr (res, d')" by blast
qed

theorem doInsert_id_check_witness:
  "id_check example_env example_db [(''id'', JStr ''ada''), (''lastName'', JStr ''Byron'')]
     = Inr ([(''id'', JStr ''id0''), (''lastName'', JStr ''Byron'')],
            example_db\<lparr>ids_drawn := Suc (ids_drawn example_db)\<rparr>)
   \<and> map_sum id
       (\<lambda>r. map (\<lambda>r. (pk r, row_col r ''id'', row_col r ''last_name'')) (rows (snd r)))
       (doInsert example_env example_db
          \<lparr>ins_name = ''Contact'',
           ins_data = [(''id'', JStr ''ada''), (''lastName'', JStr ''Byron'')],
           ins_cache = Some (JObj [(''id'', JStr ''ada''), (''lastName'', JStr ''Byron'')])\<rparr>
          False (Some False))
       = Inr [(1, JStr ''ada'', JStr ''Lovelace''), (2, JStr ''bob'', JStr ''Babbage''),
              (3, JStr ''cat'', JStr ''Hopper''), (4, JStr ''id0'', JStr ''Byron''),
              (5, JStr ''id1'', JNull)]
   \<and> row_col (rows example_db ! 1) ''id'' = JStr ''bob''
   \<and> row_col (rows example_db ! 1) ''is_deleted'' = JBool True
   \<and> id_check example_env example_db [(''id'', JStr ''bob''), (''lastName'', JStr ''Byron'')]
       = Inr ([(''id'', JStr ''bob''), (''lastName'', JStr ''Byron'')], example_db)
   \<and> map_sum id (\<lambda>r. ())
       (doInsert example_env example_db
          \<lparr>ins_name = ''Contact'',
           ins_data = [(''id'', JStr ''bob''), (''lastName'', JStr ''Byron'')],
           ins_cache = Some (JObj [(''id'', JStr ''bob''), (''lastName'', JStr ''Byron'')])\<rparr>
          False (Some False)) = Inl UniqueViolation"
proof -
  let ?ada = "\<lparr>ins_name = ''Contact'',
           ins_data = [(''id'', JStr ''ada''), (''lastName'', JStr ''Byron'')],
           ins_cache = Some (JObj [(''id'', JStr ''ada''), (''lastName'', JStr ''Byron'')])\<rparr>"
  let ?bob = "\<lparr>ins_name = ''Contact'',
           ins_data = [(''id'', JStr ''bob''), (''lastName'', JStr ''Byron'')],
           ins_cache = Some (JObj [(''id'', JStr ''bob''), (''lastName'', JStr ''Byron'')])\<rparr>"
  let ?prp = "(scalar ''string'')\<lparr>inheritedFrom := Some ''Object''\<rparr>"
  have 1: "catalog example_db (ins_name ?ada) = Some contact_feather" by code_simp
  have b1: "catalog example_db (ins_name ?bob) = Some contact_feather" by code_simp
  have 2: "get (ins_data ?ada) ''id'' = Some (JStr ''ada'')" by code_simp
  have b2: "get (ins_data ?bob) ''id'' = Some (JStr ''bob'')" by code_simp
  have 3: "''ada'' \<noteq> []" by simp
  have b3: "''bob'' \<noteq> []" by simp
  have 4: "map_of (properties contact_feather) ''id'' = Some ?prp" by code_simp
  have 5: "p_autonumber ?prp = None" by code_simp
  have 6: "\<not> (p_type ?prp = ''object'' \<and> p_format ?prp = Some ''money'')" by code_simp
  have 7: "\<forall>k\<in>fst ` set (properties contact_feather).
             toSnakeCase example_env k = toSnakeCase example_env ''id'' \<longrightarrow> k = ''id''"
    by code_simp
  have ex: "\<exists>r\<in>set (rows example_db). toSnakeCase example_env ''Object'' \<in> set (tables r) \<and>
              live r \<and> row_col r (toSnakeCase example_env ''id'') = JStr ''ada''"
    by code_simp
  have no: "(\<forall>r\<in>set (rows example_db).
               \<not> (toSnakeCase example_env ''Object'' \<in> set (tables r) \<and> live r \<and>
                  row_col r (toSnakeCase example_env ''id'') = JStr ''bob'')) \<and>
            (\<exists>r\<in>set (rows example_db). row_col r ''id'' = JStr ''bob'') \<and>
            toSnakeCase example_env ''id'' = ''id''"
    by code_simp
  have c: "createId example_env (ids_drawn example_db) = ''id0''" by code_simp
  have p: "put ''id'' (JStr ''id0'') [(''id'', JStr ''ada''), (''lastName'', JStr ''Byron'')]
             = [(''id'', JStr ''id0''), (''lastName'', JStr ''Byron'')]" by simp
  have a: "id_check example_env example_db [(''id'', JStr ''ada''), (''lastName'', JStr ''Byron'')]
     = Inr ([(''id'', JStr ''id0''), (''lastName'', JStr ''Byron'')],
            example_db\<lparr>ids_drawn := Suc (ids_drawn example_db)\<rparr>)"
    using doInsert_id_check [OF 1 2 3 4 5 6 7, of False "Some False", THEN conjunct1,
            rule_format, OF ex, THEN conjunct1]
    unfolding c by simp
  have b: "id_check example_env example_db [(''id'', JStr ''bob''), (''lastName'', JStr ''Byron'')]
       = Inr ([(''id'', JStr ''bob''), (''lastName'', JStr ''Byron'')], example_db)"
    using doInsert_id_check [OF b1 b2 b3 4 5 6 7, of False "Some False", THEN conjunct2,
            rule_format, OF no, THEN conjunct1]
    by simp
  have e1: "map_sum id
       (\<lambda>r. map (\<lambda>r. (pk r, row_col r ''id'', row_col r ''last_name'')) (rows (snd r)))
       (doInsert example_env example_db ?ada False (Some False))
       = Inr [(1, JStr ''ada'', JStr ''Lovelace''), (2, JStr ''bob'', JStr ''Babbage''),
              (3, JStr ''cat'', JStr ''Hopper''), (4, JStr ''id0'', JStr ''Byron''),
              (5, JStr ''id1'', JNull)]" by code_simp
  have e2: "map_sum id (\<lambda>r. ()) (doInsert example_env example_db ?bob False (Some False))
              = Inl UniqueViolation" by code_simp
  have e3: "row_col (rows example_db ! 1) ''id'' = JStr ''bob''" by code_simp
  have e4: "row_col (rows example_db ! 1) ''is_deleted'' = JBool True" by code_simp
  show ?thesis by (intro conjI a b e1 e2 e3 e4)
qed

text \<open>
  Claim C1 says that a \<open>POST\<close> with the id of an existing row becomes a
  \<open>PATCH\<close> whose data is the patch between the existing row and the new
  data, and that without such a row the record is inserted with the id. The
  record that \<open>doSelect\<close> resolves to for a row that is there has no
  members, so \<open>overlay\<close> has nothing to lay under the new data and the
  patch goes from the empty record to the new data. Without a row the
  request stays as it is with the id put into its data, and \<open>doInsert\<close>
  keeps this id when no live row has it.
\<close>

theorem doUpsert_patch_from_empty:
  "(req_data obj = Some (Data newRec) \<and> req_id obj = Some i \<and> i \<noteq> [] \<and>
    catalog d (req_name obj) = Some feather \<and> f_name feather = req_name obj \<and>
    req_name obj \<noteq> [] \<and> (\<not> isChild feather \<or> su) \<and>
    (\<forall>k\<in>fst ` set (properties feather). CHR ''.'' \<notin> set k \<and> toSnakeCase env k \<noteq> ''result'') \<and>
    r \<in> set (rows d) \<and> toSnakeCase env (req_name obj) \<in> set (tables r) \<and> live r \<and>
    (\<not> su \<longrightarrow> granted env (currentUser env) (toSnakeCase env ''canRead'') (pk r)) \<and>
    row_col r (toSnakeCase env ''id'') = JStr i \<longrightarrow>
    doUpsert env d obj su
      = Inr (obj\<lparr>req_method := ''PATCH'',
                 req_data := Some (Patch (compare env (Some (JObj [])) (Some newRec)))\<rparr>, d))
   \<and> (\<forall>kvs obj' d'.
        req_data obj = Some (Data (JObj kvs)) \<and> doUpsert env d obj su = Inr (obj', d') \<and>
        case_sum (\<lambda>e. None) fst
          (doSelect env d
             \<lparr>sel_name = req_name obj, sel_id = map_option JStr (req_id obj),
              sel_showDeleted = False, sel_properties = None, sel_sanitize = True,
              sel_filter = None, sel_subscription = None\<rparr> False (Some su)) = None \<longrightarrow>
        req_method obj' = req_method obj \<and>
        (\<exists>res. req_data obj' = Some (Data (JObj res)) \<and>
           get res ''id'' = map_option JStr (req_id obj) \<and>
           (\<forall>k. k \<noteq> ''id'' \<longrightarrow> get res k = get kvs k) \<and>
           (\<forall>i. req_id obj = Some i \<and> i \<noteq> [] \<and>
                (\<forall>r\<in>set (rows d').
                   \<not> (toSnakeCase env ''Object'' \<in> set (tables r) \<and> live r \<and>
                      row_col r (toSnakeCase env ''id'') = JStr i)) \<longrightarrow>
                id_check env d' res = Inr (res, d'))))"
proof (intro conjI impI allI)
  assume h: "req_data obj = Some (Data newRec) \<and> req_id obj = Some i \<and> i \<noteq> [] \<and>
    catalog d (req_name obj) = Some feather \<and> f_name feather = req_name obj \<and>
    req_name obj \<noteq> [] \<and> (\<not> isChild feather \<or> su) \<and>
    (\<forall>k\<in>fst ` set (properties feather). CHR ''.'' \<notin> set k \<and> toSnakeCase env k \<noteq> ''result'') \<and>
    r \<in> set (rows d) \<and> toSnakeCase env (req_name obj) \<in> set (tables r) \<and> live r \<and>
    (\<not> su \<longrightarrow> granted env (currentUser env) (toSnakeCase env ''canRead'') (pk r)) \<and>
    row_col r (toSnakeCase env ''id'') = JStr i"
  have s: "doSelect env d
             \<lparr>sel_name = req_name obj, sel_id = Some (JStr i),
              sel_showDeleted = False, sel_properties = None, sel_sanitize = True,
              sel_filter = None, sel_subscription = None\<rparr> False (Some su)
           = Inr (Some (JObj []), d)"
    by (rule doSelect_existing [where feather = feather and r = r]) (use h in auto)
  have o: "overlay newRec (JObj []) = Inr newRec" by simp
  show "doUpsert env d obj su
      = Inr (obj\<lparr>req_method := ''PATCH'',
                 req_data := Some (Patch (compare env (Some (JObj [])) (Some newRec)))\<rparr>, d)"
    using h s o by (simp add: doUpsert_def)
next
  fix kvs obj' and d' :: db
  assume h: "req_data obj = Some (Data (JObj kvs)) \<and> doUpsert env d obj su = Inr (obj', d') \<and>
        case_sum (\<lambda>e. None) fst
          (doSelect env d
             \<lparr>sel_name = req_name obj, sel_id = map_option JStr (req_id obj),
              sel_showDeleted = False, sel_properties = None, sel_sanitize = True,
              sel_filter = None, sel_subscription = None\<rparr> False (Some su)) = None"
  let ?sel = "\<lparr>sel_name = req_name obj, sel_id = map_option JStr (req_id obj),
                      sel_showDeleted = False, sel_properties = None, sel_sanitize = True,
                      sel_filter = None, sel_subscription = None\<rparr>"
  obtain resp d1 where s: "doSelect env d ?sel False (Some su) = Inr (resp, d1)"
    using h by (cases "doSelect env d ?sel False (Some su)") (auto simp: doUpsert_def)
  have none: "resp = None" using h s by simp
  let ?res = "assign ''id'' (map_option JStr (req_id obj)) kvs"
  have o: "obj' = obj\<lparr>req_data := Some (Data (JObj ?res))\<rparr>" and d: "d' = d1"
    using h s none by (auto simp: doUpsert_def)
  have idc: "id_check env d' ?res = Inr (?res, d')"
    if "req_id obj = Some i" "i \<noteq> []"
       "\<forall>r\<in>set (rows d'). \<not> (toSnakeCase env ''Object'' \<in> set (tables r) \<and> live r \<and>
                          row_col r (toSnakeCase env ''id'') = JStr i)" for i
    using id_check_free [OF that(3,2), of ?res] that(1) by (simp add: get_assign_same)
  show "req_method obj' = req_method obj" using o by simp
  show "\<exists>res. req_data obj' = Some (Data (JObj res)) \<and>
           get res ''id'' = map_option JStr (req_id obj) \<and>
           (\<forall>k. k \<noteq> ''id'' \<longrightarrow> get res k = get kvs k) \<and>
           (\<forall>i. req_id obj = Some i \<and> i \<noteq> [] \<and>
                (\<forall>r\<in>set (rows d').
                   \<not> (toSnakeCase env ''Object'' \<in> set (tables r) \<and> live r \<and>
                      row_col r (toSnakeCase env ''id'') = JStr i)) \<longrightarrow>
                id_check env d' res = Inr (res, d'))"
    using o idc by (intro exI [of _ ?res]) (auto simp: get_assign_same get_assign_other)
qed

theorem doUpsert_patch_from_empty_witness:
  "doUpsert example_env example_db
     \<lparr>req_method = ''POST'', req_name = ''Contact'', req_id = Some ''ada'',
      req_data = Some (Data (JObj [(''firstName'', JStr ''Bob'')]))\<rparr> True
     = Inr (\<lparr>req_method = ''PATCH'', req_name = ''Contact'', req_id = Some ''ada'',
             req_data = Some (Patch [Between (Some (JObj []))
                                       (Some (JObj [(''firstName'', JStr ''Bob'')]))])\<rparr>,
            example_db)
   \<and> map (\<lambda>r. (row_col r ''id'', row_col r ''first_name'', row_col r ''last_name''))
       (rows example_db)
       = [(JStr ''ada'', JStr ''Ada'', JStr ''Lovelace''),
          (JStr ''bob'', JStr ''Charles'', JStr ''Babbage''),
          (JStr ''cat'', JStr ''Grace'', JStr ''Hopper'')]
   \<and> map_sum id (\<lambda>r. (req_method (fst r), req_data (fst r)))
        (doUpsert example_env example_db
           \<lparr>req_method = ''POST'', req_name = ''Contact'', req_id = Some ''dan'',
            req_data = Some (Data (JObj [(''firstName'', JStr ''Bob'')]))\<rparr> True)
       = Inr (''POST'', Some (Data (JObj [(''firstName'', JStr ''Bob''), (''id'', JStr ''dan'')])))"
proof -
  let ?obj = "\<lparr>req_method = ''POST'', req_name = ''Contact'', req_id = Some ''ada'',
      req_data = Some (Data (JObj [(''firstName'', JStr ''Bob'')])) :: example_patch body option\<rparr>"
  let ?r = "rows example_db ! 0"
  have h: "req_data ?obj = Some (Data (JObj [(''firstName'', JStr ''Bob'')])) \<and>
    req_id ?obj = Some ''ada'' \<and> ''ada'' \<noteq> [] \<and>
    catalog example_db (req_name ?obj) = Some contact_feather \<and>
    f_name contact_feather = req_name ?obj \<and>
    req_name ?obj \<noteq> [] \<and> (\<not> isChild contact_feather \<or> True) \<and>
    (\<forall>k\<in>fst ` set (properties contact_feather).
       CHR ''.'' \<notin> set k \<and> toSnakeCase example_env k \<noteq> ''result'') \<and>
    ?r \<in> set (rows example_db) \<and> toSnakeCase example_env (req_name ?obj) \<in> set (tables ?r) \<and>
    live ?r \<and>
    (\<not> True \<longrightarrow> granted example_env (currentUser example_env)
                    (toSnakeCase example_env ''canRead'') (pk ?r)) \<and>
    row_col ?r (toSnakeCase example_env ''id'') = JStr ''ada''"
    by code_simp
  have c: "compare example_env (Some (JObj [])) (Some (JObj [(''firstName'', JStr ''Bob'')]))
             = [Between (Some (JObj [])) (Some (JObj [(''firstName'', JStr ''Bob'')]))]"
    by code_simp
  have a: "doUpsert example_env example_db ?obj True
     = Inr (\<lparr>req_method = ''PATCH'', req_name = ''Contact'', req_id = Some ''ada'',
             req_data = Some (Patch [Between (Some (JObj []))
                                       (Some (JObj [(''firstName'', JStr ''Bob'')]))])\<rparr>,
            example_db)"
    using doUpsert_patch_from_empty [THEN conjunct1, rule_format, OF h] unfolding c by simp
  have m: "map (\<lambda>r. (row_col r ''id'', row_col r ''first_name'', row_col r ''last_name''))
       (rows example_db)
       = [(JStr ''ada'', JStr ''Ada'', JStr ''Lovelace''),
          (JStr ''bob'', JStr ''Charles'', JStr ''Babbage''),
          (JStr ''cat'', JStr ''Grace'', JStr ''Hopper'')]" by code_simp
  have n: "map_sum id (\<lambda>r. (req_method (fst r), req_data (fst r)))
        (doUpsert example_env example_db
           \<lparr>req_method = ''POST'', req_name = ''Contact'', req_id = Some ''dan'',
            req_data = Some (Data (JObj [(''firstName'', JStr ''Bob'')]))\<rparr> True)
       = Inr (''POST'', Some (Data (JObj [(''firstName'', JStr ''Bob''), (''id'', JStr ''dan'')])))"
    by code_simp
  show ?thesis by (intro conjI a m n)
qed

end
